(* ===== verification/Prelude.thy ===== *)
theory Prelude
  imports Main "HOL-Library.Word" "HOL-Library.List_Lexorder" "HOL-Library.Char_ord"
    "HOL-Library.Product_Lexorder"
begin

text \<open>
  The base of the development: Rust's \<open>Result\<close> as a sum type with its combinators, the
  two shapes of early-returning loop the sources use, the checked and saturating operations
  on machine words, and the collections that carry the proofs of the component theories.

  Conventions used throughout:
  \<^item> \<open>u8\<close>, \<open>u16\<close>, \<open>u32\<close>, \<open>u64\<close> and \<open>u128\<close> are words of that width;
  \<^item> \<open>usize\<close> values are \<open>nat\<close>: each one is the length of a collection or a counter kept
    equal to one, and where the code subtracts from such a counter the component's
    invariant shows it is positive;
  \<^item> a \<open>String\<close> is a \<open>string\<close> whose characters are its UTF-8 bytes, so \<open>len()\<close> is
    \<open>length\<close>;
  \<^item> \<open>Result<T, E>\<close> is \<open>E + T\<close>, \<open>Err\<close> on the left.
\<close>

named_theorems result_simps "inversion of result combinators"
named_theorems valid_defs "definitions of executable validators"

type_synonym u8 = "8 word"
type_synonym u16 = "16 word"
type_synonym u32 = "32 word"
type_synonym u64 = "64 word"
type_synonym u128 = "128 word"

type_synonym ('a, 'e) result = "'e + 'a"

abbreviation Ok :: "'a \<Rightarrow> ('a, 'e) result" where "Ok \<equiv> Inr"
abbreviation Err :: "'e \<Rightarrow> ('a, 'e) result" where "Err \<equiv> Inl"

subsection \<open>Results\<close>

definition and_then :: "('a, 'e) result \<Rightarrow> ('a \<Rightarrow> ('b, 'e) result) \<Rightarrow> ('b, 'e) result" where
  "and_then r f = (case r of Inl e \<Rightarrow> Inl e | Inr x \<Rightarrow> f x)"

definition map_err :: "('e \<Rightarrow> 'f) \<Rightarrow> ('a, 'e) result \<Rightarrow> ('a, 'f) result" where
  "map_err f r = (case r of Inl e \<Rightarrow> Inl (f e) | Inr x \<Rightarrow> Inr x)"

definition ok_or :: "'e \<Rightarrow> 'a option \<Rightarrow> ('a, 'e) result" where
  "ok_or e x = (case x of None \<Rightarrow> Inl e | Some y \<Rightarrow> Inr y)"

definition is_ok :: "('a, 'e) result \<Rightarrow> bool" where
  "is_ok r = (case r of Inl _ \<Rightarrow> False | Inr _ \<Rightarrow> True)"

lemma and_then_simps [simp]:
  "and_then (Inr x) f = f x" "and_then (Inl e) f = Inl e"
  by (simp_all add: and_then_def)

lemma and_then_eq_Inr [simp, result_simps]:
  "and_then r f = Inr y \<longleftrightarrow> (\<exists>x. r = Inr x \<and> f x = Inr y)"
  by (cases r) auto

lemma and_then_eq_Inl [result_simps]:
  "and_then r f = Inl e \<longleftrightarrow> r = Inl e \<or> (\<exists>x. r = Inr x \<and> f x = Inl e)"
  by (cases r) auto

lemma and_then_assoc: "and_then (and_then r f) g = and_then r (\<lambda>x. and_then (f x) g)"
  by (cases r) simp_all

lemma map_err_simps [simp]:
  "map_err f (Inr x) = Inr x" "map_err f (Inl e) = Inl (f e)"
  by (simp_all add: map_err_def)

lemma map_err_eq_Inr [simp, result_simps]: "map_err f r = Inr y \<longleftrightarrow> r = Inr y"
  by (cases r) auto

lemma ok_or_simps [simp]: "ok_or e None = Inl e" "ok_or e (Some x) = Inr x"
  by (simp_all add: ok_or_def)

lemma ok_or_eq_Inr [simp, result_simps]: "ok_or e x = Inr y \<longleftrightarrow> x = Some y"
  by (cases x) auto

lemma is_ok_simps [simp]: "is_ok (Inr x)" "\<not> is_ok (Inl e)"
  by (simp_all add: is_ok_def)

lemma is_ok_iff: "is_ok r \<longleftrightarrow> (\<exists>x. r = Inr x)"
  by (cases r) auto

lemma is_ok_unit_iff: "is_ok (r :: (unit, 'e) result) \<longleftrightarrow> r = Inr ()"
  by (cases r) auto

lemma if_Inl_eq_Inr [simp, result_simps]:
  "(if c then Inl e else r) = Inr y \<longleftrightarrow> \<not> c \<and> r = Inr y"
  by auto

subsection \<open>Loops with an early return\<close>

text \<open>\<open>for x in xs { f(x)?; }\<close>\<close>

fun for_each :: "('a \<Rightarrow> (unit, 'e) result) \<Rightarrow> 'a list \<Rightarrow> (unit, 'e) result" where
  "for_each f [] = Inr ()"
| "for_each f (x # xs) = and_then (f x) (\<lambda>_. for_each f xs)"

text \<open>\<open>for x in xs { state = f(state, x)?; }\<close>\<close>

fun try_fold :: "('s \<Rightarrow> 'a \<Rightarrow> ('s, 'e) result) \<Rightarrow> 's \<Rightarrow> 'a list \<Rightarrow> ('s, 'e) result" where
  "try_fold f s [] = Inr s"
| "try_fold f s (x # xs) = and_then (f s x) (\<lambda>s'. try_fold f s' xs)"

lemma for_each_eq_Inr [simp, result_simps]:
  "for_each f xs = Inr u \<longleftrightarrow> (\<forall>x \<in> set xs. f x = Inr ())"
  by (induction xs) auto

lemma try_fold_append [simp]:
  "try_fold f s (xs @ ys) = and_then (try_fold f s xs) (\<lambda>s'. try_fold f s' ys)"
  by (induction xs arbitrary: s) (simp_all add: and_then_assoc)

lemma try_fold_invariant:
  assumes "try_fold f s xs = Inr s'" and "I s"
    and "\<And>s x s'. I s \<Longrightarrow> x \<in> set xs \<Longrightarrow> f s x = Inr s' \<Longrightarrow> I s'"
  shows "I s'"
  using assms
proof (induction xs arbitrary: s)
  case Nil
  then show ?case by simp
next
  case (Cons x xs)
  from Cons.prems(1) obtain t where t: "f s x = Inr t" "try_fold f t xs = Inr s'" by auto
  have "I t" using Cons.prems(3) [OF Cons.prems(2) _ t(1)] by simp
  with t(2) show ?case
    using Cons.IH [of t] Cons.prems(3) by (metis list.set_intros(2))
qed

text \<open>The loop that collects keys into a set and rejects a repeated one.\<close>

definition insert_new :: "('a \<Rightarrow> bool) \<Rightarrow> ('a \<Rightarrow> 'k) \<Rightarrow> 'e \<Rightarrow> 'k set \<Rightarrow> 'a \<Rightarrow> ('k set, 'e) result" where
  "insert_new p key e seen x =
     (if \<not> p x \<or> key x \<in> seen then Inl e else Inr (insert (key x) seen))"

lemma try_fold_insert_new:
  "try_fold (insert_new p key e) S xs = Inr S' \<longleftrightarrow>
     (\<forall>x \<in> set xs. p x) \<and> distinct (map key xs) \<and> key ` set xs \<inter> S = {} \<and> S' = S \<union> key ` set xs"
  by (induction xs arbitrary: S) (auto simp: insert_new_def)

lemma find_Some_in: "find P xs = Some x \<Longrightarrow> x \<in> set xs \<and> P x"
  by (induction xs) (auto split: if_splits)

lemma find_None_all: "find P xs = None \<longleftrightarrow> (\<forall>x \<in> set xs. \<not> P x)"
  by (induction xs) auto

subsection \<open>Execution that may panic\<close>

text \<open>
  \<open>expect\<close>, an index out of range and an underflowing subtraction abort the process. Code
  with such a point is modelled in \<open>exec\<close>, and that the point is unreachable is a theorem.
\<close>

datatype 'a exec = Panic | Done 'a

definition exec_bind :: "'a exec \<Rightarrow> ('a \<Rightarrow> 'b exec) \<Rightarrow> 'b exec" where
  "exec_bind m f = (case m of Panic \<Rightarrow> Panic | Done x \<Rightarrow> f x)"

fun exec_fold :: "('s \<Rightarrow> 'a \<Rightarrow> 's exec) \<Rightarrow> 's \<Rightarrow> 'a list \<Rightarrow> 's exec" where
  "exec_fold f s [] = Done s"
| "exec_fold f s (x # xs) = exec_bind (f s x) (\<lambda>s'. exec_fold f s' xs)"

text \<open>\<open>?\<close> on a result computed by code that may panic.\<close>

definition exec_then ::
  "('a, 'e) result exec \<Rightarrow> ('a \<Rightarrow> ('b, 'e) result exec) \<Rightarrow> ('b, 'e) result exec" where
  "exec_then m f = exec_bind m (\<lambda>r. case r of Inl e \<Rightarrow> Done (Inl e) | Inr x \<Rightarrow> f x)"

fun exec_each :: "('a \<Rightarrow> (unit, 'e) result exec) \<Rightarrow> 'a list \<Rightarrow> (unit, 'e) result exec" where
  "exec_each f [] = Done (Inr ())"
| "exec_each f (x # xs) = exec_then (f x) (\<lambda>_. exec_each f xs)"

text \<open>\<open>iter().any(f)\<close>\<close>

fun exec_any :: "('a \<Rightarrow> bool exec) \<Rightarrow> 'a list \<Rightarrow> bool exec" where
  "exec_any f [] = Done False"
| "exec_any f (x # xs) = exec_bind (f x) (\<lambda>b. if b then Done True else exec_any f xs)"

lemma exec_bind_simps [simp]:
  "exec_bind (Done x) f = f x" "exec_bind Panic f = Panic"
  by (simp_all add: exec_bind_def)

lemma exec_bind_eq_Done [simp]:
  "exec_bind m f = Done y \<longleftrightarrow> (\<exists>x. m = Done x \<and> f x = Done y)"
  by (cases m) auto

lemma exec_then_simps [simp]:
  "exec_then (Done (Inr x)) f = f x" "exec_then (Done (Inl e)) f = Done (Inl e)"
  "exec_then Panic f = Panic"
  by (simp_all add: exec_then_def)

lemma exec_then_eq_Ok [simp]:
  "exec_then m f = Done (Inr y) \<longleftrightarrow> (\<exists>x. m = Done (Inr x) \<and> f x = Done (Inr y))"
  by (cases m) (auto simp: exec_then_def split: sum.split_asm)

lemma exec_then_eq_Panic:
  "exec_then m f = Panic \<longleftrightarrow> m = Panic \<or> (\<exists>x. m = Done (Inr x) \<and> f x = Panic)"
  by (cases m) (auto simp: exec_then_def split: sum.split_asm sum.splits)

lemma exec_each_eq_Ok [simp]:
  "exec_each f xs = Done (Inr u) \<longleftrightarrow> (\<forall>x \<in> set xs. f x = Done (Inr ()))"
  by (induction xs) auto

lemma exec_each_no_panic: "(\<And>x. x \<in> set xs \<Longrightarrow> f x \<noteq> Panic) \<Longrightarrow> exec_each f xs \<noteq> Panic"
proof (induction xs)
  case (Cons x xs)
  then have "f x \<noteq> Panic" "exec_each f xs \<noteq> Panic" by simp_all
  then show ?case by (simp add: exec_then_eq_Panic)
qed simp

lemma exec_any_pure: "(\<And>x. x \<in> set xs \<Longrightarrow> f x = Done (g x)) \<Longrightarrow> exec_any f xs = Done (list_ex g xs)"
  by (induction xs) auto

subsection \<open>Actions\<close>

text \<open>
  Code that changes a state, may fail and may panic. \<open>act_match\<close> is a \<open>match\<close> on the result of
  the first action, \<open>act_then\<close> is the operator \<open>?\<close>, \<open>act_lift\<close> a computation that
  leaves the state alone.
\<close>

type_synonym ('a, 'e, 's) action = "'s \<Rightarrow> ('a, 'e) result exec \<times> 's"

definition act_match ::
  "('a, 'e, 's) action \<Rightarrow> ('e \<Rightarrow> ('b, 'e, 's) action) \<Rightarrow> ('a \<Rightarrow> ('b, 'e, 's) action) \<Rightarrow> ('b, 'e, 's) action" where
  "act_match m h f s =
     (case m s of
        (Panic, s') \<Rightarrow> (Panic, s')
      | (Done (Inl e), s') \<Rightarrow> h e s'
      | (Done (Inr x), s') \<Rightarrow> f x s')"

definition act_fail :: "'e \<Rightarrow> ('a, 'e, 's) action" where
  "act_fail e s = (Done (Err e), s)"

definition act_return :: "'a \<Rightarrow> ('a, 'e, 's) action" where
  "act_return x s = (Done (Ok x), s)"

definition act_lift :: "('a, 'e) result exec \<Rightarrow> ('a, 'e, 's) action" where
  "act_lift r s = (r, s)"

abbreviation act_then :: "('a, 'e, 's) action \<Rightarrow> ('a \<Rightarrow> ('b, 'e, 's) action) \<Rightarrow> ('b, 'e, 's) action" where
  "act_then m f \<equiv> act_match m act_fail f"

definition act_get :: "('s \<Rightarrow> 'a) \<Rightarrow> ('a, 'e, 's) action" where
  "act_get g s = (Done (Ok (g s)), s)"

definition act_modify :: "('s \<Rightarrow> 's) \<Rightarrow> (unit, 'e, 's) action" where
  "act_modify g s = (Done (Ok ()), g s)"

text \<open>A step on a part of the state, given by its reader and its writer.\<close>

definition act_on ::
  "('s \<Rightarrow> 't) \<Rightarrow> ('t \<Rightarrow> 's \<Rightarrow> 's) \<Rightarrow> ('t \<Rightarrow> ('a, 'e) result \<times> 't) \<Rightarrow> ('a, 'e, 's) action" where
  "act_on get put f s = (case f (get s) of (r, t) \<Rightarrow> (Done r, put t s))"

lemmas act_simps = act_fail_def act_return_def act_lift_def act_get_def act_modify_def act_on_def

lemma act_match_simps [simp]:
  "m s = (Panic, t) \<Longrightarrow> act_match m h f s = (Panic, t)"
  "m s = (Done (Inl e), t) \<Longrightarrow> act_match m h f s = h e t"
  "m s = (Done (Inr x), t) \<Longrightarrow> act_match m h f s = f x t"
  by (simp_all add: act_match_def)

lemma act_match_cases:
  assumes "act_match m h f s = (r, t)"
  obtains (panic) "m s = (Panic, t)" "r = Panic"
  | (err) e u where "m s = (Done (Err e), u)" "h e u = (r, t)"
  | (ok) x u where "m s = (Done (Ok x), u)" "f x u = (r, t)"
  using assms by (auto simp: act_match_def split: prod.splits exec.splits sum.splits)

lemma act_then_Ok:
  "act_then m f s = (Done (Ok y), t) \<longleftrightarrow> (\<exists>x u. m s = (Done (Ok x), u) \<and> f x u = (Done (Ok y), t))"
  by (auto elim!: act_match_cases simp: act_fail_def)

text \<open>An action that never succeeds, as the handlers that turn one error into another.\<close>

definition act_fails :: "('a, 'e, 's) action \<Rightarrow> bool" where
  "act_fails m \<longleftrightarrow> (\<forall>s y t. m s \<noteq> (Done (Ok y), t))"

lemma act_match_Ok:
  assumes "\<And>e. act_fails (h e)"
  shows "act_match m h f s = (Done (Ok y), t) \<longleftrightarrow> (\<exists>x u. m s = (Done (Ok x), u) \<and> f x u = (Done (Ok y), t))"
  using assms by (auto elim!: act_match_cases simp: act_fails_def)

lemma act_fails_match: "(\<And>e. act_fails (h e)) \<Longrightarrow> (\<And>x. act_fails (f x)) \<Longrightarrow> act_fails (act_match m h f)"
  by (auto simp: act_fails_def elim!: act_match_cases)

lemma act_fails_fail [simp]: "act_fails (act_fail e)"
  by (simp add: act_fails_def act_fail_def)

text \<open>Triples: what holds after success and what holds after failure. A panic satisfies every triple.\<close>

definition act_triple ::
  "('s \<Rightarrow> bool) \<Rightarrow> ('a, 'e, 's) action \<Rightarrow> ('s \<Rightarrow> bool) \<Rightarrow> ('s \<Rightarrow> bool) \<Rightarrow> bool" where
  "act_triple P m Q E \<longleftrightarrow> (\<forall>s t. P s \<longrightarrow>
     (\<forall>x. m s = (Done (Ok x), t) \<longrightarrow> Q t) \<and> (\<forall>e. m s = (Done (Err e), t) \<longrightarrow> E t))"

lemma act_tripleI:
  assumes "\<And>s x t. P s \<Longrightarrow> m s = (Done (Ok x), t) \<Longrightarrow> Q t" and "\<And>s e t. P s \<Longrightarrow> m s = (Done (Err e), t) \<Longrightarrow> E t"
  shows "act_triple P m Q E"
  using assms by (auto simp: act_triple_def)

lemma act_tripleD:
  assumes "act_triple P m Q E" and "P s"
  shows "m s = (Done (Ok x), t) \<Longrightarrow> Q t" "m s = (Done (Err e), t) \<Longrightarrow> E t"
  using assms by (auto simp: act_triple_def)

lemma act_triple_match:
  assumes m: "act_triple P m Q' E'" and h: "\<And>e. act_triple E' (h e) Q E" and f: "\<And>x. act_triple Q' (f x) Q E"
  shows "act_triple P (act_match m h f) Q E"
proof (rule act_tripleI)
  fix s t x
  assume P: "P s" and a: "act_match m h f s = (Done (Ok x), t)"
  from a show "Q t"
    by (cases rule: act_match_cases)
      (auto dest: act_tripleD(1) [OF h act_tripleD(2) [OF m P]] act_tripleD(1) [OF f act_tripleD(1) [OF m P]])
next
  fix s t e
  assume P: "P s" and a: "act_match m h f s = (Done (Err e), t)"
  from a show "E t"
    by (cases rule: act_match_cases)
      (auto dest: act_tripleD(2) [OF h act_tripleD(2) [OF m P]] act_tripleD(2) [OF f act_tripleD(1) [OF m P]])
qed

lemma act_triple_pure:
  assumes "\<And>s. snd (m s) = s" and "\<And>s. P s \<Longrightarrow> Q s" and "\<And>s. P s \<Longrightarrow> E s"
  shows "act_triple P m Q E"
  using assms(2,3) unfolding act_triple_def by (metis assms(1) snd_conv)

lemma act_triple_fail [simp]: "act_triple P (act_fail e) Q E \<longleftrightarrow> (\<forall>s. P s \<longrightarrow> E s)"
  by (auto simp: act_triple_def act_fail_def)

lemma act_triple_modify: "(\<And>s. P s \<Longrightarrow> Q (g s)) \<Longrightarrow> act_triple P (act_modify g) Q E"
  by (auto simp: act_triple_def act_modify_def)

text \<open>A relation between the states before and after that every step keeps is kept by the whole.\<close>

definition act_keeps :: "('s \<Rightarrow> 's \<Rightarrow> bool) \<Rightarrow> ('a, 'e, 's) action \<Rightarrow> bool" where
  "act_keeps R m \<longleftrightarrow> (\<forall>s. R s (snd (m s)))"

lemma act_keepsD: "act_keeps R m \<Longrightarrow> m s = (r, t) \<Longrightarrow> R s t"
  by (metis act_keeps_def snd_conv)

named_theorems keeps "actions that keep a relation"

lemma act_keeps_pure [keeps]:
  assumes "reflp R"
  shows "act_keeps R (act_fail e)" "act_keeps R (act_return x)" "act_keeps R (act_lift r)" "act_keeps R (act_get g)"
  using assms by (auto simp: act_keeps_def act_simps reflp_def)

lemma act_keeps_match [keeps]:
  assumes "transp R" and "act_keeps R m" and "\<And>e. act_keeps R (h e)" and "\<And>x. act_keeps R (f x)"
  shows "act_keeps R (act_match m h f)"
  unfolding act_keeps_def
proof
  fix s
  obtain r t where rt: "act_match m h f s = (r, t)" by fastforce
  then show "R s (snd (act_match m h f s))"
  proof (cases rule: act_match_cases)
    case panic
    with assms(2) rt show ?thesis by (simp add: act_keepsD)
  next
    case (err e u)
    with assms rt show ?thesis by (metis act_keepsD snd_conv transpE)
  next
    case (ok x u)
    with assms rt show ?thesis by (metis act_keepsD snd_conv transpE)
  qed
qed

subsection \<open>Separators\<close>

lemma append_sep_inj:
  "x \<notin> set a \<Longrightarrow> x \<notin> set b \<Longrightarrow> a @ x # s = b @ x # t \<Longrightarrow> a = b \<and> s = t"
proof (induction a arbitrary: b)
  case Nil
  then show ?case by (cases b) auto
next
  case (Cons y a)
  then show ?case by (cases b) auto
qed

subsection \<open>Checked and saturating arithmetic\<close>

definition checked_add :: "'a::len word \<Rightarrow> 'a word \<Rightarrow> 'a word option" where
  "checked_add a b = (if unat a + unat b < 2 ^ LENGTH('a) then Some (a + b) else None)"

definition checked_mul :: "'a::len word \<Rightarrow> 'a word \<Rightarrow> 'a word option" where
  "checked_mul a b = (if unat a * unat b < 2 ^ LENGTH('a) then Some (a * b) else None)"

definition saturating_add :: "'a::len word \<Rightarrow> 'a word \<Rightarrow> 'a word" where
  "saturating_add a b = (if unat a + unat b < 2 ^ LENGTH('a) then a + b else - 1)"

definition saturating_sub :: "'a::len word \<Rightarrow> 'a word \<Rightarrow> 'a word" where
  "saturating_sub a b = (if b \<le> a then a - b else 0)"

lemma unat_add_lt: "unat (a + b) = unat a + unat b"
  if "unat a + unat b < 2 ^ LENGTH('a)" for a b :: "'a::len word"
  using that by (simp add: unat_word_ariths)

lemma unat_mul_lt: "unat (a * b) = unat a * unat b"
  if "unat a * unat b < 2 ^ LENGTH('a)" for a b :: "'a::len word"
  using that by (simp add: unat_word_ariths)

lemma checked_add_eq_Some:
  "checked_add a b = Some c \<longleftrightarrow> unat c = unat a + unat b" for a b c :: "'a::len word"
proof
  assume "checked_add a b = Some c"
  then show "unat c = unat a + unat b"
    by (auto simp: checked_add_def unat_add_lt split: if_splits)
next
  assume eq: "unat c = unat a + unat b"
  moreover have "unat c < 2 ^ LENGTH('a)" by simp
  ultimately have lt: "unat a + unat b < 2 ^ LENGTH('a)" by simp
  with eq have "c = a + b"
    by (simp add: word_unat_eq_iff unat_add_lt)
  with lt show "checked_add a b = Some c"
    by (simp add: checked_add_def)
qed

lemma checked_add_eq_None:
  "checked_add a b = None \<longleftrightarrow> 2 ^ LENGTH('a) \<le> unat a + unat b" for a b :: "'a::len word"
  by (auto simp: checked_add_def)

lemma checked_mul_eq_Some:
  "checked_mul a b = Some c \<longleftrightarrow> unat c = unat a * unat b" for a b c :: "'a::len word"
proof
  assume "checked_mul a b = Some c"
  then show "unat c = unat a * unat b"
    by (auto simp: checked_mul_def unat_mul_lt split: if_splits)
next
  assume eq: "unat c = unat a * unat b"
  moreover have "unat c < 2 ^ LENGTH('a)" by simp
  ultimately have lt: "unat a * unat b < 2 ^ LENGTH('a)" by simp
  with eq have "c = a * b"
    by (simp add: word_unat_eq_iff unat_mul_lt)
  with lt show "checked_mul a b = Some c"
    by (simp add: checked_mul_def)
qed

lemma unat_saturating_add:
  "unat (saturating_add a b) = min (unat a + unat b) (2 ^ LENGTH('a) - 1)" for a b :: "'a::len word"
  by (auto simp: saturating_add_def unat_add_lt unsigned_minus_1_eq_mask mask_eq_exp_minus_1 min_def)

lemma unat_saturating_sub:
  "unat (saturating_sub a b) = unat a - unat b" for a b :: "'a::len word"
  by (auto simp: saturating_sub_def word_le_nat_alt unat_sub_if')

lemma unat_min: "unat (min a b) = min (unat a) (unat b)" for a b :: "'a::len word"
  by (auto simp: min_def word_le_nat_alt)

lemma unat_max: "unat (max a b) = max (unat a) (unat b)" for a b :: "'a::len word"
  by (auto simp: max_def word_le_nat_alt)

lemma unat_u64_lt: "unat (w :: u64) < 2 ^ 64"
proof -
  have "LENGTH(64) = 64" by simp
  then show ?thesis using unsigned_less [of w] by metis
qed

lemma unat_u32_lt: "unat (w :: u32) < 2 ^ 32"
proof -
  have "LENGTH(32) = 32" by simp
  then show ?thesis using unsigned_less [of w] by metis
qed

lemma unat_ucast_widen:
  fixes w :: "'a::len word"
  assumes "LENGTH('a) \<le> LENGTH('b::len)"
  shows "unat (ucast w :: 'b word) = unat w"
proof -
  have "unat w < 2 ^ LENGTH('a)" by simp
  also have "\<dots> \<le> 2 ^ LENGTH('b)" using assms by simp
  finally show ?thesis by (simp add: unsigned_ucast_eq take_bit_nat_eq_self)
qed

lemmas word_to_nat = word_le_nat_alt word_less_nat_alt word_unat_eq_iff
  unat_saturating_add unat_saturating_sub unat_min unat_max

end
