(* ===== verification/Rust_Text.thy ===== *)
theory Rust_Text
  imports Prelude
begin

text \<open>
  The string functions of the Rust standard library that the sources call, on byte strings:
  ASCII classes, prefixes and suffixes, \<open>split\<close>, \<open>split_once\<close> and \<open>rsplit_once\<close>,
  decimal printing and \<open>str::parse\<close> for unsigned integers, and \<open>Path::components\<close> on
  Unix. The laws at the end (a printed number parses back, a split string is rebuilt by its
  parts) carry the round-trip proofs of the components.
\<close>

subsection \<open>ASCII classes\<close>

definition code :: "char \<Rightarrow> nat" where
  "code c = of_char c"

definition is_ascii_lowercase :: "char \<Rightarrow> bool" where
  "is_ascii_lowercase c \<longleftrightarrow> 97 \<le> code c \<and> code c \<le> 122"

definition is_ascii_uppercase :: "char \<Rightarrow> bool" where
  "is_ascii_uppercase c \<longleftrightarrow> 65 \<le> code c \<and> code c \<le> 90"

definition is_ascii_digit :: "char \<Rightarrow> bool" where
  "is_ascii_digit c \<longleftrightarrow> 48 \<le> code c \<and> code c \<le> 57"

definition is_ascii_alphanumeric :: "char \<Rightarrow> bool" where
  "is_ascii_alphanumeric c \<longleftrightarrow> is_ascii_lowercase c \<or> is_ascii_uppercase c \<or> is_ascii_digit c"

definition is_lower_hex :: "char \<Rightarrow> bool" where
  "is_lower_hex c \<longleftrightarrow> is_ascii_digit c \<or> (97 \<le> code c \<and> code c \<le> 102)"

definition is_ascii_hexdigit :: "char \<Rightarrow> bool" where
  "is_ascii_hexdigit c \<longleftrightarrow> is_lower_hex c \<or> (65 \<le> code c \<and> code c \<le> 70)"

definition is_ascii :: "char \<Rightarrow> bool" where
  "is_ascii c \<longleftrightarrow> code c < 128"

definition nul :: char where
  "nul = CHR 0x00"

lemmas ascii_defs = code_def is_ascii_lowercase_def is_ascii_uppercase_def is_ascii_digit_def
  is_ascii_alphanumeric_def is_lower_hex_def is_ascii_hexdigit_def is_ascii_def

lemma ascii_sep [simp]:
  "\<not> is_ascii_digit (CHR ''-'')" "\<not> is_ascii_digit (CHR ''+'')" "\<not> is_ascii_digit (CHR ''.'')"
  "\<not> is_ascii_digit (CHR ''/'')" "\<not> is_ascii_lowercase (CHR ''/'')"
  "\<not> is_ascii_lowercase (CHR ''.'')" "\<not> is_ascii_alphanumeric (CHR ''/'')"
  "\<not> is_ascii_digit (CHR '':'')"
  by (simp_all add: ascii_defs)

subsection \<open>Prefixes, suffixes and substrings\<close>

definition starts_with :: "string \<Rightarrow> string \<Rightarrow> bool" where
  "starts_with s p \<longleftrightarrow> take (length p) s = p"

definition ends_with :: "string \<Rightarrow> string \<Rightarrow> bool" where
  "ends_with s p \<longleftrightarrow> length p \<le> length s \<and> drop (length s - length p) s = p"

definition strip_prefix :: "string \<Rightarrow> string \<Rightarrow> string option" where
  "strip_prefix p s = (if starts_with s p then Some (drop (length p) s) else None)"

definition strip_suffix :: "string \<Rightarrow> string \<Rightarrow> string option" where
  "strip_suffix p s = (if ends_with s p then Some (take (length s - length p) s) else None)"

text \<open>
  The UTF-8 encodings of the characters with Unicode's \<open>White_Space\<close> property. A string is
  changed by \<open>trim\<close> exactly when it begins or ends with one of them.
\<close>

definition white_space :: "nat list list" where
  "white_space = [[9], [10], [11], [12], [13], [32], [194, 133], [194, 160], [225, 154, 128]] @
     map (\<lambda>b. [226, 128, b]) ([128..<139] @ [168, 169, 175]) @ [[226, 129, 159], [227, 128, 128]]"

definition trim_changes :: "string \<Rightarrow> bool" where
  "trim_changes s \<longleftrightarrow> list_ex (\<lambda>w. starts_with s (map char_of w) \<or> ends_with s (map char_of w)) white_space"

fun contains_str :: "string \<Rightarrow> string \<Rightarrow> bool" where
  "contains_str [] p \<longleftrightarrow> p = []"
| "contains_str (c # s) p \<longleftrightarrow> starts_with (c # s) p \<or> contains_str s p"

lemma starts_with_iff: "starts_with s p \<longleftrightarrow> (\<exists>r. s = p @ r)"
proof
  assume "starts_with s p"
  then have "s = p @ drop (length p) s" by (metis append_take_drop_id starts_with_def)
  then show "\<exists>r. s = p @ r" ..
qed (auto simp: starts_with_def)

lemma ends_with_iff: "ends_with s p \<longleftrightarrow> (\<exists>r. s = r @ p)"
proof
  assume "ends_with s p"
  then have "s = take (length s - length p) s @ p" by (metis append_take_drop_id ends_with_def)
  then show "\<exists>r. s = r @ p" ..
qed (auto simp: ends_with_def)

lemma starts_with_append [simp]: "starts_with (p @ r) p"
  by (simp add: starts_with_def)

lemma starts_with_Cons [simp]: "starts_with (c # s) (d # p) \<longleftrightarrow> c = d \<and> starts_with s p"
  by (auto simp: starts_with_def)

lemma starts_with_Nil [simp]: "starts_with s []" "starts_with [] p \<longleftrightarrow> p = []"
  by (auto simp: starts_with_def)

lemma strip_prefix_eq_Some [simp]: "strip_prefix p s = Some r \<longleftrightarrow> s = p @ r"
  by (auto simp: strip_prefix_def starts_with_iff)

lemma strip_prefix_eq_None [simp]: "strip_prefix p s = None \<longleftrightarrow> \<not> starts_with s p"
  by (simp add: strip_prefix_def)

lemma strip_prefix_append [simp]: "strip_prefix p (p @ r) = Some r"
  by simp

lemma strip_suffix_eq_Some [simp]: "strip_suffix p s = Some r \<longleftrightarrow> s = r @ p"
  by (auto simp: strip_suffix_def ends_with_iff)

lemma contains_str_iff: "contains_str s p \<longleftrightarrow> (\<exists>a b. s = a @ p @ b)"
proof (induction s)
  case Nil
  then show ?case by auto
next
  case (Cons c s)
  have "(\<exists>a b. c # s = a @ p @ b) \<longleftrightarrow> (\<exists>b. c # s = p @ b) \<or> (\<exists>a b. s = a @ p @ b)"
  proof
    assume "\<exists>a b. c # s = a @ p @ b"
    then obtain a b where ab: "c # s = a @ p @ b" by blast
    show "(\<exists>b. c # s = p @ b) \<or> (\<exists>a b. s = a @ p @ b)"
      using ab by (cases a) auto
  next
    assume "(\<exists>b. c # s = p @ b) \<or> (\<exists>a b. s = a @ p @ b)"
    then show "\<exists>a b. c # s = a @ p @ b"
      by (metis append_Cons append_Nil)
  qed
  with Cons show ?case by (simp add: starts_with_iff)
qed

subsection \<open>Splitting\<close>

fun split_on :: "char \<Rightarrow> string \<Rightarrow> string list" where
  "split_on d [] = [[]]"
| "split_on d (c # s) =
     (if c = d then [] # split_on d s
      else (case split_on d s of [] \<Rightarrow> [[c]] | w # ws \<Rightarrow> (c # w) # ws))"

fun join_on :: "char \<Rightarrow> string list \<Rightarrow> string" where
  "join_on d [] = []"
| "join_on d [w] = w"
| "join_on d (w # ws) = w @ d # join_on d ws"

fun split_once :: "string \<Rightarrow> string \<Rightarrow> (string \<times> string) option" where
  "split_once p [] = (if p = [] then Some ([], []) else None)"
| "split_once p (c # s) =
     (if starts_with (c # s) p then Some ([], drop (length p) (c # s))
      else map_option (\<lambda>(a, b). (c # a, b)) (split_once p s))"

fun rsplit_once :: "string \<Rightarrow> string \<Rightarrow> (string \<times> string) option" where
  "rsplit_once p [] = (if p = [] then Some ([], []) else None)"
| "rsplit_once p (c # s) =
     (case rsplit_once p s of
        Some (a, b) \<Rightarrow> Some (c # a, b)
      | None \<Rightarrow> if starts_with (c # s) p then Some ([], drop (length p) (c # s)) else None)"

lemma split_on_nonempty [simp]: "split_on d s \<noteq> []"
  by (induction s) (auto split: list.splits)

lemma join_on_split_on: "join_on d (split_on d s) = s"
proof (induction s)
  case Nil
  then show ?case by simp
next
  case (Cons c s)
  obtain w ws where "split_on d s = w # ws" by (cases "split_on d s") auto
  with Cons show ?case by (cases ws) auto
qed

lemma split_on_no_sep: "w \<in> set (split_on d s) \<Longrightarrow> d \<notin> set w"
  by (induction s arbitrary: w) (auto split: list.splits if_splits)

lemma split_on_word: "d \<notin> set s \<Longrightarrow> split_on d s = [s]"
  by (induction s) auto

lemma split_on_chars: "w \<in> set (split_on d s) \<Longrightarrow> c \<in> set w \<Longrightarrow> c \<in> set s"
proof (induction s arbitrary: w)
  case Nil
  then show ?case by simp
next
  case (Cons a s)
  obtain v ws where v: "split_on d s = v # ws" by (cases "split_on d s") auto
  from Cons.IH [of v] v have "c \<in> set v \<Longrightarrow> c \<in> set s" by simp
  with Cons v show ?case by (auto split: if_splits)
qed

lemma split_on_append:
  "d \<notin> set w \<Longrightarrow> split_on d (w @ d # s) = w # split_on d s"
  by (induction w) auto

lemma split_on_sep: "split_on d (a @ d # b) = split_on d a @ split_on d b"
proof (induction a)
  case (Cons c a)
  obtain w ws where "split_on d a = w # ws" by (cases "split_on d a") auto
  with Cons show ?case by simp
qed simp

lemma join_on_append:
  "ws \<noteq> [] \<Longrightarrow> vs \<noteq> [] \<Longrightarrow> join_on d (ws @ vs) = join_on d ws @ d # join_on d vs"
proof (induction ws)
  case (Cons w ws)
  then show ?case by (cases ws; cases vs) auto
qed simp

lemma split_on_suffix:
  "(\<exists>ls. ls \<noteq> [] \<and> split_on d s = ls @ split_on d t) \<longleftrightarrow> (\<exists>r. s = r @ d # t)"
proof
  assume "\<exists>ls. ls \<noteq> [] \<and> split_on d s = ls @ split_on d t"
  then obtain ls where "ls \<noteq> []" "split_on d s = ls @ split_on d t" by blast
  then have "s = join_on d ls @ d # t"
    by (metis join_on_append join_on_split_on split_on_nonempty)
  then show "\<exists>r. s = r @ d # t" ..
next
  assume "\<exists>r. s = r @ d # t"
  then obtain r where "s = r @ d # t" ..
  then show "\<exists>ls. ls \<noteq> [] \<and> split_on d s = ls @ split_on d t"
    by (intro exI [of _ "split_on d r"]) (simp add: split_on_sep)
qed

lemma split_once_Some: "split_once p s = Some (a, b) \<Longrightarrow> s = a @ p @ b"
proof (induction s arbitrary: a b)
  case Nil
  then show ?case by (simp split: if_splits)
next
  case (Cons c s)
  show ?case
  proof (cases "starts_with (c # s) p")
    case True
    with Cons.prems have "a = []" "b = drop (length p) (c # s)" by simp_all
    with True show ?thesis by (metis append_Nil append_take_drop_id starts_with_def)
  next
    case False
    with Cons.prems obtain a' where "split_once p s = Some (a', b)" "a = c # a'" by auto
    with Cons.IH show ?thesis by simp
  qed
qed

lemma split_once_char:
  "d \<notin> set a \<Longrightarrow> split_once [d] (a @ d # b) = Some (a, b)"
  by (induction a) (auto simp: starts_with_def)

lemma rsplit_once_Some: "rsplit_once p s = Some (a, b) \<Longrightarrow> s = a @ p @ b"
proof (induction s arbitrary: a b)
  case Nil
  then show ?case by (simp split: if_splits)
next
  case (Cons c s)
  show ?case
  proof (cases "rsplit_once p s")
    case None
    with Cons.prems have "starts_with (c # s) p" "a = []" "b = drop (length p) (c # s)"
      by (auto split: if_splits)
    then show ?thesis by (metis append_Nil append_take_drop_id starts_with_def)
  next
    case (Some ab)
    with Cons show ?thesis by (cases ab) auto
  qed
qed

lemma rsplit_once_absent: "d \<notin> set s \<Longrightarrow> rsplit_once (d # p) s = None"
  by (induction s) (auto simp: starts_with_Cons)

lemma rsplit_once_last:
  assumes "d \<notin> set p" and "d \<notin> set b"
  shows "rsplit_once (d # p) (a @ (d # p) @ b) = Some (a, b)"
proof (induction a)
  case Nil
  have "rsplit_once (d # p) (p @ b) = None"
    using assms by (intro rsplit_once_absent) auto
  then show ?case by (simp add: starts_with_def)
next
  case (Cons c a)
  then show ?case by simp
qed

subsection \<open>Decimal numbers\<close>

definition digit_char :: "nat \<Rightarrow> char" where
  "digit_char d = char_of (48 + d)"

fun show_nat :: "nat \<Rightarrow> string" where
  "show_nat n = (if n < 10 then [digit_char n] else show_nat (n div 10) @ [digit_char (n mod 10)])"

declare show_nat.simps [simp del]

definition show_word :: "'a::len word \<Rightarrow> string" where
  "show_word w = show_nat (unat w)"

fun parse_digits :: "nat \<Rightarrow> nat \<Rightarrow> string \<Rightarrow> nat option" where
  "parse_digits maximum acc [] = Some acc"
| "parse_digits maximum acc (c # s) =
     (if is_ascii_digit c \<and> acc * 10 + (code c - 48) \<le> maximum
      then parse_digits maximum (acc * 10 + (code c - 48)) s else None)"

text \<open>
  \<open>str::parse\<close> for an unsigned type: the empty string and a bare sign are errors, one
  leading \<open>+\<close> is skipped, every other byte must be a digit, and the value must fit.
\<close>

definition parse_unsigned :: "nat \<Rightarrow> string \<Rightarrow> nat option" where
  "parse_unsigned maximum s =
     (case s of
        [] \<Rightarrow> None
      | c # rest \<Rightarrow>
          if c = CHR ''+'' then (if rest = [] then None else parse_digits maximum 0 rest)
          else parse_digits maximum 0 s)"

lemma code_digit_char: "d < 10 \<Longrightarrow> code (digit_char d) = 48 + d"
  by (simp add: code_def digit_char_def)

lemma is_digit_digit_char: "d < 10 \<Longrightarrow> is_ascii_digit (digit_char d)"
  by (simp add: is_ascii_digit_def code_digit_char)

lemma show_nat_nonempty [simp]: "show_nat n \<noteq> []"
  by (subst show_nat.simps) simp

lemma show_nat_digits: "c \<in> set (show_nat n) \<Longrightarrow> is_ascii_digit c"
proof (induction n arbitrary: c rule: show_nat.induct)
  case (1 n)
  then show ?case
    by (cases "n < 10") (auto simp: show_nat.simps [of n] is_digit_digit_char)
qed

lemma parse_digits_snoc:
  "parse_digits m acc (s @ [c]) =
     (case parse_digits m acc s of
        None \<Rightarrow> None
      | Some v \<Rightarrow> if is_ascii_digit c \<and> v * 10 + (code c - 48) \<le> m
                  then Some (v * 10 + (code c - 48)) else None)"
  by (induction s arbitrary: acc) auto

lemma parse_digits_show_nat: "n \<le> m \<Longrightarrow> parse_digits m 0 (show_nat n) = Some n"
proof (induction n rule: show_nat.induct)
  case (1 n)
  show ?case
  proof (cases "n < 10")
    case True
    with 1 show ?thesis by (simp add: show_nat.simps [of n] is_digit_digit_char code_digit_char)
  next
    case False
    with 1 have "parse_digits m 0 (show_nat (n div 10)) = Some (n div 10)" by simp
    with False 1 show ?thesis
      by (simp add: show_nat.simps [of n] parse_digits_snoc is_digit_digit_char code_digit_char)
  qed
qed

lemma parse_unsigned_show_nat: "n \<le> m \<Longrightarrow> parse_unsigned m (show_nat n) = Some n"
proof -
  assume "n \<le> m"
  obtain c s where s: "show_nat n = c # s" by (cases "show_nat n") auto
  then have "is_ascii_digit c" using show_nat_digits [of c n] by simp
  then have "c \<noteq> CHR ''+''" by auto
  with s show ?thesis
    using parse_digits_show_nat [OF \<open>n \<le> m\<close>] by (simp add: parse_unsigned_def)
qed

lemma parse_digits_le: "parse_digits m acc s = Some v \<Longrightarrow> acc \<le> m \<Longrightarrow> v \<le> m"
  by (induction s arbitrary: acc) (auto split: if_splits)

lemma parse_unsigned_le: "parse_unsigned m s = Some v \<Longrightarrow> v \<le> m"
proof (cases s)
  case (Cons c rest)
  assume "parse_unsigned m s = Some v"
  with Cons consider "parse_digits m 0 rest = Some v" | "parse_digits m 0 s = Some v"
    unfolding parse_unsigned_def by (simp del: parse_digits.simps split: if_splits)
  then show ?thesis by cases (rule parse_digits_le, assumption, simp)+
qed (simp add: parse_unsigned_def)

lemma show_nat_inj: "show_nat a = show_nat b \<Longrightarrow> a = b"
  by (metis nle_le option.inject parse_unsigned_show_nat)

subsection \<open>Path components\<close>

datatype component = RootDir | CurDir | ParentDir | Normal string

fun body_components :: "string list \<Rightarrow> component list" where
  "body_components [] = []"
| "body_components (w # ws) =
     (if w = [] \<or> w = ''.'' then body_components ws
      else if w = ''..'' then ParentDir # body_components ws
      else Normal w # body_components ws)"

text \<open>
  \<open>Path::components\<close>: an absolute path starts with \<open>RootDir\<close>, repeated separators and
  \<open>.\<close> components vanish, except that a leading \<open>.\<close> of a relative path is kept.
\<close>

definition components :: "string \<Rightarrow> component list" where
  "components s =
     (let ws = split_on (CHR ''/'') s in
      if starts_with s ''/'' then RootDir # body_components ws
      else if hd ws = ''.'' then CurDir # body_components ws
      else body_components ws)"

lemma body_components_no_CurDir: "CurDir \<notin> set (body_components ws)" "RootDir \<notin> set (body_components ws)"
  by (induction ws) auto

lemma ParentDir_body_components: "ParentDir \<in> set (body_components ws) \<longleftrightarrow> ''..'' \<in> set ws"
  by (induction ws) auto

end
