(* ===== verification/Machines.thy ===== *)
theory Machines
  imports Prelude
begin

text \<open>
  Two contracts shared by the stateful components. \<open>invariant_machine\<close>: an invariant that holds
  initially and is kept by every operation holds after every run. \<open>epoch_fence\<close>: a store
  that records an epoch per key and never lowers it, so an epoch that has been passed is
  never current again; this is what makes a stale worker harmless.
\<close>

inductive run :: "('s \<Rightarrow> 'e \<Rightarrow> 's \<Rightarrow> bool) \<Rightarrow> 's \<Rightarrow> 'e list \<Rightarrow> 's \<Rightarrow> bool"
  for step :: "'s \<Rightarrow> 'e \<Rightarrow> 's \<Rightarrow> bool" where
  run_Nil: "run step s [] s"
| run_Cons: "step s e t \<Longrightarrow> run step t es u \<Longrightarrow> run step s (e # es) u"

inductive_simps run_Nil_iff [simp]: "run step s [] t"
inductive_simps run_Cons_iff: "run step s (e # es) t"

lemma run_append: "run step s es t \<Longrightarrow> run step t fs u \<Longrightarrow> run step s (es @ fs) u"
  by (induction rule: run.induct) (auto intro: run.intros)

text \<open>A total, deterministic machine as a step relation, and its runs as a fold.\<close>

definition det :: "('s \<Rightarrow> 'e \<Rightarrow> 's) \<Rightarrow> 's \<Rightarrow> 'e \<Rightarrow> 's \<Rightarrow> bool" where
  "det f s e t \<longleftrightarrow> t = f s e"

lemma run_det: "run (det f) s es t \<longleftrightarrow> t = foldl f s es"
  by (induction es arbitrary: s) (auto simp: det_def run_Cons_iff)

locale invariant_machine =
  fixes init :: "'s \<Rightarrow> bool"
    and step :: "'s \<Rightarrow> 'e \<Rightarrow> 's \<Rightarrow> bool"
    and inv :: "'s \<Rightarrow> bool"
  assumes init_inv: "init s \<Longrightarrow> inv s"
    and step_inv: "inv s \<Longrightarrow> step s e t \<Longrightarrow> inv t"
begin

lemma run_inv: "run step s es t \<Longrightarrow> inv s \<Longrightarrow> inv t"
  by (induction rule: run.induct) (auto intro: step_inv)

lemma reachable_inv: "init s \<Longrightarrow> run step s es t \<Longrightarrow> inv t"
  by (blast intro: init_inv run_inv)

end

locale epoch_fence = invariant_machine init step inv
  for init :: "'s \<Rightarrow> bool" and step :: "'s \<Rightarrow> 'e \<Rightarrow> 's \<Rightarrow> bool" and inv :: "'s \<Rightarrow> bool" +
  fixes epoch_of :: "'s \<Rightarrow> 'k \<Rightarrow> nat"
  assumes step_mono: "inv s \<Longrightarrow> step s e t \<Longrightarrow> epoch_of s k \<le> epoch_of t k"
begin

lemma run_mono: "run step s es t \<Longrightarrow> inv s \<Longrightarrow> epoch_of s k \<le> epoch_of t k"
  by (induction rule: run.induct) (auto intro: step_inv step_mono order_trans)

lemma fenced_forever:
  assumes "inv s" and "run step s es t" and "n < epoch_of s k"
  shows "epoch_of t k \<noteq> n"
  using run_mono [OF assms(2,1), of k] assms(3) by simp

end

end
