(* ===== verification/Core_Types.thy ===== *)
theory Core_Types
  imports Rust_Text Machines
begin

text \<open>
  \<^verbatim>\<open>crates/sandbox-core/src\<close>: \<^verbatim>\<open>error.rs\<close> (\<open>CoreError\<close> and its messages),
  \<^verbatim>\<open>identity.rs\<close> (the bounded identifiers), \<^verbatim>\<open>assignment.rs\<close> (the nonzero
  assignment epoch) and \<^verbatim>\<open>specification.rs\<close>'s digest check, which other
  modules share, and the error type of the OCI crate, which the daemon shares. An identifier newtype is its string and an epoch newtype its word; what
  their constructors guarantee is stated by \<open>identifier_ok\<close> and by being nonzero.
\<close>

subsection \<open>Errors\<close>

datatype core_error =
    InvalidIdentifier string string
  | InvalidLifecycleTransition string string
  | InvalidSpecification string
  | InvalidSnapshot string
  | InvalidWorkOrder string

fun core_error_display :: "core_error \<Rightarrow> string" where
  "core_error_display (InvalidIdentifier kind val) =
     ''invalid '' @ kind @ '' identifier `'' @ val @ ''`''"
| "core_error_display (InvalidLifecycleTransition from to) =
     ''invalid lifecycle transition from '' @ from @ '' to '' @ to"
| "core_error_display (InvalidSpecification m) = ''invalid sandbox specification: '' @ m"
| "core_error_display (InvalidSnapshot m) = ''invalid snapshot manifest: '' @ m"
| "core_error_display (InvalidWorkOrder m) = ''invalid work order: '' @ m"

text \<open>\<^verbatim>\<open>crates/sandbox-oci/src/error.rs\<close>\<close>

datatype sandbox_error =
    Io string string
  | Compose string
  | Lock string
  | Docker string
  | ImageProvider string
  | Timeout string
  | Runtime string
  | Unsupported string

definition io_error :: "string \<Rightarrow> string \<Rightarrow> sandbox_error" where
  "io_error path source = Io path source"

subsection \<open>Identifiers\<close>

definition identifier_byte :: "char \<Rightarrow> bool" where
  "identifier_byte c \<longleftrightarrow>
     is_ascii_lowercase c \<or> is_ascii_digit c \<or> c = CHR ''-'' \<or> c = CHR ''_''"

definition parse_identifier :: "string \<Rightarrow> nat \<Rightarrow> string \<Rightarrow> (string, core_error) result" where
  "parse_identifier kind maximum val =
     (if val = [] \<or> length val > maximum \<or> \<not> is_ascii_lowercase (hd val)
         \<or> \<not> list_all identifier_byte val
      then Err (InvalidIdentifier kind val) else Ok val)"

definition parse_sandbox_id :: "string \<Rightarrow> (string, core_error) result" where
  "parse_sandbox_id = parse_identifier ''sandbox'' 64"
definition parse_container_id :: "string \<Rightarrow> (string, core_error) result" where
  "parse_container_id = parse_identifier ''container'' 64"
definition parse_network_id :: "string \<Rightarrow> (string, core_error) result" where
  "parse_network_id = parse_identifier ''network'' 64"
definition parse_snapshot_id :: "string \<Rightarrow> (string, core_error) result" where
  "parse_snapshot_id = parse_identifier ''snapshot'' 64"
definition parse_volume_id :: "string \<Rightarrow> (string, core_error) result" where
  "parse_volume_id = parse_identifier ''volume'' 64"
definition parse_worker_id :: "string \<Rightarrow> (string, core_error) result" where
  "parse_worker_id = parse_identifier ''worker'' 64"
definition parse_tenant_id :: "string \<Rightarrow> (string, core_error) result" where
  "parse_tenant_id = parse_identifier ''tenant'' 64"
definition parse_workspace_id :: "string \<Rightarrow> (string, core_error) result" where
  "parse_workspace_id = parse_identifier ''workspace'' 64"
definition parse_subject_id :: "string \<Rightarrow> (string, core_error) result" where
  "parse_subject_id = parse_identifier ''subject'' 128"

type_synonym sandbox_id = string
type_synonym container_id = string
type_synonym network_id = string
type_synonym snapshot_id = string
type_synonym volume_id = string
type_synonym worker_id = string
type_synonym tenant_id = string
type_synonym workspace_id = string
type_synonym subject_id = string

definition identifier_ok :: "nat \<Rightarrow> string \<Rightarrow> bool" where
  "identifier_ok maximum s \<longleftrightarrow>
     s \<noteq> [] \<and> length s \<le> maximum \<and> is_ascii_lowercase (hd s) \<and> list_all identifier_byte s"

lemma parse_identifier_eq_Ok [simp]:
  "parse_identifier kind n s = Ok t \<longleftrightarrow> identifier_ok n s \<and> t = s"
  by (auto simp: parse_identifier_def identifier_ok_def)

lemma identifier_byte_not_path [simp]:
  "\<not> identifier_byte (CHR ''/'')" "\<not> identifier_byte (CHR ''.'')" "\<not> identifier_byte nul"
  by (simp_all add: identifier_byte_def ascii_defs nul_def)

lemma identifier_ok_bytes:
  assumes "identifier_ok n s"
  shows "CHR ''/'' \<notin> set s" "CHR ''.'' \<notin> set s" "nul \<notin> set s"
proof -
  have "\<forall>c \<in> set s. identifier_byte c" using assms by (simp add: identifier_ok_def list_all_iff)
  then show "CHR ''/'' \<notin> set s" "CHR ''.'' \<notin> set s" "nul \<notin> set s"
    using identifier_byte_not_path by metis+
qed

lemma identifier_components:
  assumes "identifier_ok n s"
  shows "components s = [Normal s]"
proof -
  have "split_on (CHR ''/'') s = [s]" using identifier_ok_bytes(1) [OF assms] by (rule split_on_word)
  moreover have "\<not> starts_with s ''/''"
    using identifier_ok_bytes(1) [OF assms] by (auto simp: starts_with_iff)
  moreover have "s \<noteq> ''.''" "s \<noteq> ''..''" "s \<noteq> []"
    using identifier_ok_bytes(2) [OF assms] assms by (auto simp: identifier_ok_def)
  ultimately show ?thesis by (simp add: components_def)
qed

text \<open>
  C40: An identifier accepted by the constructor is returned unchanged, is nonempty and
  within its byte bound, and is path safe: as a path it is exactly one normal component, so
  it can neither climb out of a directory nor name a nested path, and it holds no NUL byte.
\<close>

theorem identifiers_are_bounded_and_path_safe:
  assumes "parse_identifier kind maximum s = Ok t"
  shows "t = s \<and> t \<noteq> [] \<and> length t \<le> maximum \<and> components t = [Normal t] \<and> nul \<notin> set t"
  using assms identifier_components [of maximum s] identifier_ok_bytes [of maximum s]
  by (simp add: identifier_ok_def)

theorem identifiers_are_bounded_and_path_safe_witness:
  "parse_sandbox_id ''tenant-a_1'' = Ok ''tenant-a_1'' \<and>
   components ''tenant-a_1'' = [Normal ''tenant-a_1''] \<and>
   parse_sandbox_id ''../tenant'' = Err (InvalidIdentifier ''sandbox'' ''../tenant'')"
proof -
  have p: "parse_identifier ''sandbox'' 64 ''tenant-a_1'' = Ok ''tenant-a_1''"
    by (simp add: identifier_ok_def identifier_byte_def ascii_defs)
  have q: "parse_identifier ''sandbox'' 64 ''../tenant'' = Err (InvalidIdentifier ''sandbox'' ''../tenant'')"
    by (simp add: parse_identifier_def identifier_byte_def ascii_defs)
  show ?thesis
    using p q identifiers_are_bounded_and_path_safe [OF p] by (simp add: parse_sandbox_id_def)
qed

subsection \<open>Assignment epochs\<close>

type_synonym assignment_epoch = u64

definition epoch_new :: "u64 \<Rightarrow> (assignment_epoch, core_error) result" where
  "epoch_new val =
     (if val = 0 then Err (InvalidWorkOrder ''assignment epoch must be greater than zero'')
      else Ok val)"

lemma epoch_new_eq_Ok [simp]: "epoch_new n = Ok e \<longleftrightarrow> n \<noteq> 0 \<and> e = n"
  by (auto simp: epoch_new_def)

subsection \<open>Digests\<close>

text \<open>\<open>valid_digest\<close> of \<^verbatim>\<open>placement.rs\<close>: lower-case only.\<close>

definition valid_digest :: "string \<Rightarrow> bool" where
  "valid_digest val \<longleftrightarrow>
     length val = 71 \<and> starts_with val ''sha256:'' \<and> list_all is_lower_hex (drop 7 val)"

text \<open>\<open>valid_digest\<close> of \<^verbatim>\<open>preparation.rs\<close>, by stripping the prefix.\<close>

definition prepared_valid_digest :: "string \<Rightarrow> bool" where
  "prepared_valid_digest val =
     (case strip_prefix ''sha256:'' val of
        None \<Rightarrow> False
      | Some hex \<Rightarrow> length hex = 64 \<and> list_all is_lower_hex hex)"

text \<open>\<open>validate_digest\<close> of \<^verbatim>\<open>specification.rs\<close>: hexadecimal of either case.\<close>

definition validate_digest :: "string \<Rightarrow> string \<Rightarrow> (unit, core_error) result" where
  "validate_digest kind digest =
     (case strip_prefix ''sha256:'' digest of
        None \<Rightarrow> Err (InvalidSpecification (kind @ '' digest is not sha256''))
      | Some val \<Rightarrow>
          if length val \<noteq> 64 \<or> \<not> list_all is_ascii_hexdigit val
          then Err (InvalidSpecification (kind @ '' digest is malformed'')) else Ok ())"

lemma valid_digest_iff:
  "valid_digest s \<longleftrightarrow> (\<exists>h. s = ''sha256:'' @ h \<and> length h = 64 \<and> list_all is_lower_hex h)"
  by (auto simp: valid_digest_def starts_with_iff)

lemma validate_digest_eq_Ok:
  "validate_digest kind s = Ok u \<longleftrightarrow>
     (\<exists>h. s = ''sha256:'' @ h \<and> length h = 64 \<and> list_all is_ascii_hexdigit h)"
  by (auto simp: validate_digest_def split: option.splits)

lemma validate_digest_valid: "valid_digest s \<Longrightarrow> validate_digest kind s = Ok ()"
  by (auto simp: valid_digest_iff validate_digest_eq_Ok list_all_iff is_ascii_hexdigit_def)

text \<open>
  The three digest checks of the core crate agree on lower-case digests: the two
  lower-case-only checks accept the same strings, and each string they accept is also
  accepted by \<open>validate_digest\<close>, whatever it is told the digest is of.
\<close>

theorem digest_checks_agree:
  "prepared_valid_digest s = valid_digest s \<and>
   (valid_digest s \<longrightarrow> validate_digest kind s = Ok ())"
proof
  show "prepared_valid_digest s = valid_digest s"
    by (auto simp: prepared_valid_digest_def valid_digest_iff split: option.splits)
  show "valid_digest s \<longrightarrow> validate_digest kind s = Ok ()"
    by (simp add: validate_digest_valid)
qed

theorem digest_checks_agree_witness:
  "valid_digest (''sha256:'' @ replicate 64 (CHR ''a'')) \<and>
   validate_digest ''image'' (''sha256:'' @ replicate 64 (CHR ''a'')) = Ok ()"
proof -
  have "valid_digest (''sha256:'' @ replicate 64 (CHR ''a''))"
    by (simp add: valid_digest_iff list_all_iff ascii_defs)
  then show ?thesis using digest_checks_agree by blast
qed

definition sample_digest :: "char \<Rightarrow> string" where
  "sample_digest c = ''sha256:'' @ replicate 64 c"

lemma valid_sample_digest: "is_lower_hex c \<Longrightarrow> valid_digest (sample_digest c)"
  by (simp add: valid_digest_iff sample_digest_def list_all_iff)

lemma valid_sample_digest_a [simp]: "valid_digest (sample_digest CHR ''a'')"
  by (rule valid_sample_digest) (simp add: ascii_defs)

lemma validate_sample_digest [simp]:
  "is_lower_hex c \<Longrightarrow> validate_digest kind (sample_digest c) = Ok ()"
  by (simp add: validate_digest_valid valid_sample_digest)

end
