(* ===== verification/Lifecycle.thy ===== *)
theory Lifecycle
  imports Core_Types
begin

text \<open>
  \<^verbatim>\<open>crates/sandbox-core/src/lifecycle.rs\<close>: the sandbox lifecycle, its transition table
  and the generation counter. \<open>transition\<close> mutates the lifecycle, so the model returns the
  result together with the lifecycle it leaves behind.
\<close>

datatype lifecycle_state =
  Pending | Provisioning | Restoring | Running | Pausing | Paused | Resuming
  | Snapshotting | Stopping | Stopped | Failed

fun lifecycle_state_display :: "lifecycle_state \<Rightarrow> string" where
  "lifecycle_state_display Pending = ''pending''"
| "lifecycle_state_display Provisioning = ''provisioning''"
| "lifecycle_state_display Restoring = ''restoring''"
| "lifecycle_state_display Running = ''running''"
| "lifecycle_state_display Pausing = ''pausing''"
| "lifecycle_state_display Paused = ''paused''"
| "lifecycle_state_display Resuming = ''resuming''"
| "lifecycle_state_display Snapshotting = ''snapshotting''"
| "lifecycle_state_display Stopping = ''stopping''"
| "lifecycle_state_display Stopped = ''stopped''"
| "lifecycle_state_display Failed = ''failed''"

record lifecycle =
  state :: lifecycle_state
  generation :: u64

definition default_lifecycle :: lifecycle where
  "default_lifecycle = \<lparr>state = Pending, generation = 0\<rparr>"

fun allowed :: "lifecycle_state \<Rightarrow> lifecycle_state \<Rightarrow> bool" where
  "allowed Pending to \<longleftrightarrow> to \<in> {Provisioning, Restoring, Stopping, Failed}"
| "allowed Provisioning to \<longleftrightarrow> to \<in> {Running, Stopping, Failed}"
| "allowed Restoring to \<longleftrightarrow> to \<in> {Running, Stopping, Failed}"
| "allowed Resuming to \<longleftrightarrow> to \<in> {Running, Stopping, Failed}"
| "allowed Running to \<longleftrightarrow> to \<in> {Pausing, Snapshotting, Stopping, Failed}"
| "allowed Pausing to \<longleftrightarrow> to \<in> {Paused, Running, Stopping, Failed}"
| "allowed Paused to \<longleftrightarrow> to \<in> {Resuming, Snapshotting, Stopping, Failed}"
| "allowed Snapshotting to \<longleftrightarrow> to \<in> {Running, Paused, Stopping, Failed}"
| "allowed Stopping to \<longleftrightarrow> to = Stopped"
| "allowed Failed to \<longleftrightarrow> to = Stopped"
| "allowed Stopped to \<longleftrightarrow> False"

definition transition ::
  "lifecycle \<Rightarrow> lifecycle_state \<Rightarrow> (unit, core_error) result \<times> lifecycle" where
  "transition l nxt =
     (if \<not> allowed (state l) nxt
      then (Err (InvalidLifecycleTransition (lifecycle_state_display (state l))
                  (lifecycle_state_display nxt)), l)
      else
        let l' = l\<lparr>state := nxt\<rparr> in
        case checked_add (generation l') 1 of
          None \<Rightarrow> (Err (InvalidSpecification ''lifecycle generation overflow''), l')
        | Some g \<Rightarrow> (Ok (), l'\<lparr>generation := g\<rparr>))"

subsection \<open>The step relation of successful transitions\<close>

inductive lifecycle_step :: "lifecycle \<Rightarrow> lifecycle_state \<Rightarrow> lifecycle \<Rightarrow> bool" where
  "transition l nxt = (Ok (), l') \<Longrightarrow> lifecycle_step l nxt l'"

inductive_simps lifecycle_step_iff: "lifecycle_step l nxt l'"

lemma transition_Ok:
  "transition l nxt = (Ok (), l') \<longleftrightarrow>
     allowed (state l) nxt \<and> state l' = nxt \<and> unat (generation l') = unat (generation l) + 1"
proof (cases "checked_add (generation l) 1")
  case None
  then have "2 ^ 64 \<le> unat (generation l) + 1" by (simp add: checked_add_eq_None)
  moreover have "unat (generation l') < 2 ^ 64" by (rule unat_u64_lt)
  ultimately have "unat (generation l') \<noteq> unat (generation l) + 1" by linarith
  with None show ?thesis by (simp add: transition_def)
next
  case (Some g)
  then have g: "unat g = unat (generation l) + 1" by (simp add: checked_add_eq_Some)
  have "transition l nxt = (Ok (), l') \<longleftrightarrow>
      allowed (state l) nxt \<and> l' = l\<lparr>state := nxt, generation := g\<rparr>"
    using Some by (auto simp: transition_def)
  also have "\<dots> \<longleftrightarrow> allowed (state l) nxt \<and> state l' = nxt \<and> generation l' = g"
    by auto
  finally show ?thesis using g by (auto simp: word_unat_eq_iff)
qed

lemma lifecycle_step_allowed:
  "lifecycle_step l nxt l' \<Longrightarrow> allowed (state l) nxt \<and> state l' = nxt"
  by (simp add: lifecycle_step_iff transition_Ok)

lemma run_generation:
  "run lifecycle_step l ns l' \<Longrightarrow> unat (generation l') = unat (generation l) + length ns"
  by (induction rule: run.induct) (auto simp: lifecycle_step_iff transition_Ok)

lemma Stopped_stuck: "run lifecycle_step l ns l' \<Longrightarrow> state l = Stopped \<Longrightarrow> ns = []"
  by (cases ns) (auto simp: run_Cons_iff dest: lifecycle_step_allowed)

text \<open>What must have happened on the way to a state: an entry state was visited.\<close>

lemma started_via_entry:
  assumes "run lifecycle_step l ns l'" and "state l = Pending"
    and "state l' \<notin> {Pending, Stopping, Failed, Stopped}"
  shows "\<exists>e ms. ns = e # ms \<and> e \<in> {Provisioning, Restoring}"
proof -
  have dead: "run lifecycle_step m ms m' \<Longrightarrow> state m \<in> {Stopping, Failed, Stopped} \<Longrightarrow>
      state m' \<in> {Stopping, Failed, Stopped}" for m ms m'
    by (induction rule: run.induct) (auto dest!: lifecycle_step_allowed)
  show ?thesis
  proof (cases ns)
    case Nil
    with assms show ?thesis by auto
  next
    case (Cons e ms)
    with assms(1) obtain m where m: "lifecycle_step l e m" "run lifecycle_step m ms l'"
      by (auto simp: run_Cons_iff)
    then have e: "e \<in> {Provisioning, Restoring, Stopping, Failed}" "state m = e"
      using lifecycle_step_allowed [OF m(1)] assms(2) by auto
    with dead [OF m(2)] assms(3) have "e \<notin> {Stopping, Failed}" by auto
    with e Cons show ?thesis by auto
  qed
qed

text \<open>
  In every run of successful transitions from a fresh lifecycle the generation counts
  the transitions, nothing follows \<open>Stopped\<close>, and a sandbox that is running, pausing,
  paused, resuming or snapshotting was first provisioned or restored.
\<close>

theorem lifecycle_runs:
  assumes "run lifecycle_step default_lifecycle ns l"
  shows "unat (generation l) = length ns \<and>
    (state l = Stopped \<longrightarrow> \<not> (\<exists>m l'. lifecycle_step l m l')) \<and>
    (state l \<in> {Running, Pausing, Paused, Resuming, Snapshotting} \<longrightarrow>
      (\<exists>e ms. ns = e # ms \<and> e \<in> {Provisioning, Restoring}))"
proof (intro conjI impI)
  show "unat (generation l) = length ns"
    using run_generation [OF assms] by (simp add: default_lifecycle_def)
  show "\<not> (\<exists>m l'. lifecycle_step l m l')" if "state l = Stopped"
    using that by (auto dest: lifecycle_step_allowed)
  show "\<exists>e ms. ns = e # ms \<and> e \<in> {Provisioning, Restoring}"
    if "state l \<in> {Running, Pausing, Paused, Resuming, Snapshotting}"
    using started_via_entry [OF assms] that by (auto simp: default_lifecycle_def)
qed

theorem lifecycle_runs_witness:
  "run lifecycle_step default_lifecycle [Provisioning, Running] \<lparr>state = Running, generation = 2\<rparr> \<and>
   unat (generation \<lparr>state = Running, generation = 2\<rparr>) = length [Provisioning, Running]"
proof -
  have h: "run lifecycle_step default_lifecycle [Provisioning, Running] \<lparr>state = Running, generation = 2\<rparr>"
    by (rule run_Cons [of _ _ _ "\<lparr>state = Provisioning, generation = 1\<rparr>"])
      (simp_all add: run_Cons_iff lifecycle_step_iff transition_Ok default_lifecycle_def)
  show ?thesis by (rule conjI [OF h conjunct1 [OF lifecycle_runs [OF h]]])
qed

text \<open>
  A lifecycle can always be stopped: from every state but \<open>Stopped\<close> itself, with two
  generations to spare, one or two successful transitions end in \<open>Stopped\<close>.
\<close>

theorem lifecycle_can_stop:
  assumes "state l \<noteq> Stopped" and "unat (generation l) + 2 < 2 ^ 64"
  shows "\<exists>ns l'. length ns \<le> 2 \<and> run lifecycle_step l ns l' \<and> state l' = Stopped"
proof -
  have succ: "\<exists>m. lifecycle_step k n m \<and> state m = n \<and> unat (generation m) = unat (generation k) + 1"
    if "allowed (state k) n" "unat (generation k) + 1 < 2 ^ 64" for k n
  proof -
    let ?m = "k\<lparr>state := n, generation := generation k + 1\<rparr>"
    have "unat (generation k + 1) = unat (generation k) + 1"
      using that(2) by (simp add: unat_add_lt)
    with that show ?thesis
      by (intro exI [of _ ?m]) (simp add: lifecycle_step_iff transition_Ok)
  qed
  show ?thesis
  proof (cases "state l \<in> {Stopping, Failed}")
    case True
    with succ [of l Stopped] assms(2) obtain m where "lifecycle_step l Stopped m" "state m = Stopped"
      by auto
    then show ?thesis by (intro exI [of _ "[Stopped]"] exI [of _ m]) (simp add: run_Cons_iff)
  next
    case False
    with assms(1) have "allowed (state l) Stopping" by (cases "state l") auto
    with succ [of l Stopping] assms(2) obtain m where
      m: "lifecycle_step l Stopping m" "state m = Stopping" "unat (generation m) = unat (generation l) + 1"
      by auto
    with succ [of m Stopped] assms(2) obtain k where "lifecycle_step m Stopped k" "state k = Stopped"
      by auto
    with m show ?thesis
      by (intro exI [of _ "[Stopping, Stopped]"] exI [of _ k]) (auto simp: run_Cons_iff)
  qed
qed

theorem lifecycle_can_stop_witness:
  "\<exists>ns l'. length ns \<le> 2 \<and> run lifecycle_step \<lparr>state = Paused, generation = 7\<rparr> ns l' \<and> state l' = Stopped"
  by (rule lifecycle_can_stop) simp_all

text \<open>
  A rejected transition leaves the lifecycle as it was, and an accepted one changes
  exactly the state and the generation. The one exception is the generation overflow: it is
  reported as an error after the new state has already been stored.
\<close>

theorem transition_effect:
  "(case transition l nxt of
      (Inr _, l') \<Rightarrow> allowed (state l) nxt \<and> l' = l\<lparr>state := nxt, generation := generation l + 1\<rparr>
    | (Inl e, l') \<Rightarrow>
        if allowed (state l) nxt
        then generation l = - 1 \<and> l' = l\<lparr>state := nxt\<rparr> \<and>
             e = InvalidSpecification ''lifecycle generation overflow''
        else l' = l)"
proof -
  have max: "generation l = - 1" if "2 ^ 64 \<le> unat (generation l) + 1"
  proof -
    have "unat (generation l) < 2 ^ 64" by (rule unat_u64_lt)
    with that have "unat (generation l) = 2 ^ 64 - 1" by simp
    then show ?thesis by (simp add: word_unat_eq_iff unsigned_minus_1_eq_mask mask_eq_exp_minus_1)
  qed
  show ?thesis
    unfolding transition_def Let_def using max
    by (auto simp: checked_add_def split: option.splits if_splits)
qed

end
