(* ===== verification/Ordered_Map.thy ===== *)
theory Ordered_Map
  imports Prelude
begin

text \<open>
  \<open>std::collections::BTreeMap\<close>: a finite map iterated in increasing key order. The model is
  an association list kept strictly sorted by key, so iteration order, \<open>find\<close> and \<open>find_map\<close>
  over entries compute as in the code. The locale \<open>ordered_map\<close> is the contract the
  components rely on; \<open>bt\<close> interprets it on the sorted association list.
\<close>

locale ordered_map =
  fixes empty :: 'm
    and get :: "'m \<Rightarrow> 'k::linorder \<Rightarrow> 'v option"
    and insert :: "'k \<Rightarrow> 'v \<Rightarrow> 'm \<Rightarrow> 'm"
    and remove :: "'k \<Rightarrow> 'm \<Rightarrow> 'm"
    and keys :: "'m \<Rightarrow> 'k list"
    and wf :: "'m \<Rightarrow> bool"
  assumes get_empty: "get empty k = None"
    and get_insert: "wf m \<Longrightarrow> get (insert k v m) = (get m)(k \<mapsto> v)"
    and get_remove: "wf m \<Longrightarrow> get (remove k m) = (get m)(k := None)"
    and keys_sorted: "wf m \<Longrightarrow> sorted_wrt (<) (keys m)"
    and keys_dom: "wf m \<Longrightarrow> set (keys m) = dom (get m)"
    and wf_empty: "wf empty"
    and wf_insert: "wf m \<Longrightarrow> wf (insert k v m)"
    and wf_remove: "wf m \<Longrightarrow> wf (remove k m)"
begin

lemma distinct_keys: "wf m \<Longrightarrow> distinct (keys m)"
  using keys_sorted [of m] by (simp add: strict_sorted_iff)

lemma card_dom: "wf m \<Longrightarrow> length (keys m) = card (dom (get m))"
  by (simp add: distinct_card distinct_keys flip: keys_dom)

lemma finite_dom: "wf m \<Longrightarrow> finite (dom (get m))"
  by (simp flip: keys_dom)

lemma keys_cong:
  assumes "wf m" "wf n" "dom (get m) = dom (get n)"
  shows "keys m = keys n"
  using assms by (intro strict_sorted_equal) (simp_all add: keys_sorted keys_dom)

lemma length_insert:
  assumes "wf m"
  shows "length (keys (insert k v m)) =
    (if get m k = None then Suc (length (keys m)) else length (keys m))"
proof -
  have "length (keys (insert k v m)) = card (Set.insert k (dom (get m)))"
    using assms by (simp add: card_dom wf_insert get_insert)
  then show ?thesis
    using assms by (auto simp: card_insert_if finite_dom card_dom domIff)
qed

lemma length_remove:
  assumes "wf m"
  shows "length (keys (remove k m)) =
    (if get m k = None then length (keys m) else length (keys m) - 1)"
proof -
  have "length (keys (remove k m)) = card (dom (get m) - {k})"
    using assms by (simp add: card_dom wf_remove get_remove)
  then show ?thesis
    using assms by (auto simp: card_Diff_singleton_if card_dom domIff)
qed

end

subsection \<open>The sorted association list\<close>

type_synonym ('k, 'v) btree_map = "('k \<times> 'v) list"

definition bt_get :: "('k, 'v) btree_map \<Rightarrow> 'k \<Rightarrow> 'v option" where
  "bt_get m = map_of m"

fun bt_insert :: "'k::linorder \<Rightarrow> 'v \<Rightarrow> ('k, 'v) btree_map \<Rightarrow> ('k, 'v) btree_map" where
  "bt_insert k v [] = [(k, v)]"
| "bt_insert k v ((k', v') # m) =
     (if k < k' then (k, v) # (k', v') # m
      else if k = k' then (k, v) # m
      else (k', v') # bt_insert k v m)"

definition bt_remove :: "'k \<Rightarrow> ('k, 'v) btree_map \<Rightarrow> ('k, 'v) btree_map" where
  "bt_remove k m = filter (\<lambda>e. fst e \<noteq> k) m"

definition bt_keys :: "('k, 'v) btree_map \<Rightarrow> 'k list" where
  "bt_keys m = map fst m"

definition bt_values :: "('k, 'v) btree_map \<Rightarrow> 'v list" where
  "bt_values m = map snd m"

definition bt_contains :: "('k, 'v) btree_map \<Rightarrow> 'k \<Rightarrow> bool" where
  "bt_contains m k \<longleftrightarrow> bt_get m k \<noteq> None"

text \<open>A loop over \<open>values_mut()\<close>.\<close>

definition bt_map_values :: "('v \<Rightarrow> 'w) \<Rightarrow> ('k, 'v) btree_map \<Rightarrow> ('k, 'w) btree_map" where
  "bt_map_values f m = map (\<lambda>e. (fst e, f (snd e))) m"

definition bt_wf :: "('k::linorder, 'v) btree_map \<Rightarrow> bool" where
  "bt_wf m \<longleftrightarrow> sorted_wrt (<) (map fst m)"

lemmas bt_defs = bt_get_def bt_remove_def bt_keys_def bt_values_def bt_contains_def

lemma fst_set_bt_insert: "fst ` set (bt_insert k v m) = insert k (fst ` set m)"
  by (induction m rule: bt_insert.induct) auto

lemma bt_wf_Nil [simp]: "bt_wf []"
  by (simp add: bt_wf_def)

lemma bt_wf_Cons: "bt_wf ((k, v) # m) \<longleftrightarrow> (\<forall>k' \<in> fst ` set m. k < k') \<and> bt_wf m"
  by (simp add: bt_wf_def)

lemma bt_wf_insert: "bt_wf m \<Longrightarrow> bt_wf (bt_insert k v m)"
proof (induction k v m rule: bt_insert.induct)
  case (2 k v k' v' m)
  then show ?case
    by (cases k k' rule: linorder_cases) (auto simp: bt_wf_Cons fst_set_bt_insert)
qed (simp add: bt_wf_Cons)

lemma bt_get_insert: "bt_wf m \<Longrightarrow> bt_get (bt_insert k v m) = (bt_get m)(k \<mapsto> v)"
proof (induction k v m rule: bt_insert.induct)
  case (2 k v k' v' m)
  then show ?case
    by (cases k k' rule: linorder_cases) (auto simp: bt_get_def bt_wf_Cons)
qed (simp add: bt_get_def fun_eq_iff)

lemma bt_get_remove: "bt_get (bt_remove k m) = (bt_get m)(k := None)"
  by (induction m) (auto simp: bt_defs fun_eq_iff)

lemma bt_wf_remove: "bt_wf m \<Longrightarrow> bt_wf (bt_remove k m)"
proof (induction m)
  case (Cons e m)
  then show ?case by (cases e) (auto simp: bt_wf_Cons bt_remove_def)
qed (simp add: bt_remove_def)

interpretation bt: ordered_map "[]" bt_get bt_insert bt_remove bt_keys bt_wf
  by unfold_locales
    (simp_all add: bt_get_insert bt_get_remove bt_wf_insert bt_wf_remove,
      simp_all add: bt_get_def bt_keys_def bt_wf_def dom_map_of_conv_image_fst)

lemmas bt_simps = bt.get_empty bt_get_insert bt_get_remove bt_wf_insert bt_wf_remove

lemma bt_get_map_values: "bt_get (bt_map_values f m) k = map_option f (bt_get m k)"
  by (induction m) (auto simp: bt_get_def bt_map_values_def)

lemma bt_keys_map_values [simp]: "bt_keys (bt_map_values f m) = bt_keys m"
  by (simp add: bt_keys_def bt_map_values_def)

lemma bt_wf_map_values [simp]: "bt_wf (bt_map_values f m) = bt_wf m"
  by (simp add: bt_wf_def bt_map_values_def comp_def)

lemma bt_get_in_set: "bt_wf m \<Longrightarrow> bt_get m k = Some v \<longleftrightarrow> (k, v) \<in> set m"
  by (metis bt_get_def bt_wf_def map_of_eq_Some_iff strict_sorted_iff)

lemma bt_contains_iff: "bt_contains m k \<longleftrightarrow> k \<in> set (bt_keys m)"
  by (auto simp: bt_contains_def bt_get_def bt_keys_def map_of_eq_None_iff)

lemma length_bt_keys [simp]: "length (bt_keys m) = length m"
  by (simp add: bt_keys_def)

lemma length_bt_insert:
  "bt_wf m \<Longrightarrow> length (bt_insert k v m) = (if bt_get m k = None then Suc (length m) else length m)"
  using bt.length_insert [of m k v] by simp

lemma bt_insert_absent_values:
  "bt_wf m \<Longrightarrow> bt_get m k = None \<Longrightarrow> set (bt_values (bt_insert k v m)) = insert v (set (bt_values m))"
proof (induction k v m rule: bt_insert.induct)
  case (2 k v k' v' m)
  then show ?case by (auto simp: bt_values_def bt_get_def bt_wf_Cons split: if_splits)
qed (simp add: bt_values_def)

end
