(* ===== verification/Lease_Book.thy ===== *)
theory Lease_Book
  imports Core_Types Ordered_Map
begin

text \<open>
  \<^verbatim>\<open>crates/sandbox-core/src/placement.rs\<close>, first half: placement leases. A lease binds
  a sandbox to a worker for a bounded time under an assignment epoch; the epoch grows with
  each assignment and fences every earlier holder. Each operation of \<open>LeaseBook\<close> returns its
  result and the book it leaves behind.
\<close>

definition MAXIMUM_LEASE_MILLIS :: u64 where
  "MAXIMUM_LEASE_MILLIS = 5 * 60 * 1000"

datatype placement_identity =
  PlacementIdentity (pid_tenant: tenant_id) (pid_workspace: workspace_id) (pid_sandbox: sandbox_id)

definition pid_key :: "placement_identity \<Rightarrow> tenant_id \<times> workspace_id \<times> sandbox_id" where
  "pid_key i = (pid_tenant i, pid_workspace i, pid_sandbox i)"

lemma pid_key_inj: "pid_key a = pid_key b \<Longrightarrow> a = b"
  by (cases a; cases b) (simp add: pid_key_def)

text \<open>The derived \<open>Ord\<close>: lexicographic in the order of the fields.\<close>

instantiation placement_identity :: linorder
begin

definition less_eq_placement_identity :: "placement_identity \<Rightarrow> placement_identity \<Rightarrow> bool" where
  "a \<le> b \<longleftrightarrow> pid_key a \<le> pid_key b"

definition less_placement_identity :: "placement_identity \<Rightarrow> placement_identity \<Rightarrow> bool" where
  "a < b \<longleftrightarrow> pid_key a < pid_key b"

instance
  by standard
    (auto simp: less_eq_placement_identity_def less_placement_identity_def intro: pid_key_inj)

end

datatype lease_state = LeaseActive | LeaseFenced | LeaseCompleted | LeaseQuarantined

record placement_lease =
  lease_identity :: placement_identity
  lease_worker_id :: worker_id
  lease_epoch :: assignment_epoch
  lease_expires_unix_ms :: u64
  lease_state :: lease_state
  lease_result_digest :: "string option"

datatype lease_rejection =
  InvalidLifetime | ActiveConflict | StaleFence | Expired | InvalidResult | EpochOverflow

record lease_book =
  leases :: "(placement_identity, placement_lease) btree_map"

definition default_lease_book :: lease_book where
  "default_lease_book = \<lparr>leases = []\<rparr>"

definition lease_get :: "lease_book \<Rightarrow> placement_identity \<Rightarrow> placement_lease option" where
  "lease_get b i = bt_get (leases b) i"

definition put_lease :: "lease_book \<Rightarrow> placement_identity \<Rightarrow> placement_lease \<Rightarrow> lease_book" where
  "put_lease b i l = b\<lparr>leases := bt_insert i l (leases b)\<rparr>"

definition next_epoch ::
  "lease_book \<Rightarrow> placement_identity \<Rightarrow> u64 \<Rightarrow> (u64, lease_rejection) result" where
  "next_epoch b i now =
     (case bt_get (leases b) i of
        Some current \<Rightarrow>
          if lease_state current = LeaseActive \<and> lease_expires_unix_ms current > now
          then Err ActiveConflict
          else ok_or EpochOverflow (checked_add (lease_epoch current) 1)
      | None \<Rightarrow> Ok 1)"

definition assign ::
  "lease_book \<Rightarrow> placement_identity \<Rightarrow> worker_id \<Rightarrow> u64 \<Rightarrow> u64
    \<Rightarrow> (placement_lease, lease_rejection) result \<times> lease_book" where
  "assign b i w now lifetime =
     (if lifetime = 0 \<or> lifetime > MAXIMUM_LEASE_MILLIS then (Err InvalidLifetime, b)
      else case checked_add now lifetime of
        None \<Rightarrow> (Err InvalidLifetime, b)
      | Some expires \<Rightarrow>
          (case and_then (next_epoch b i now) (\<lambda>n. map_err (\<lambda>_. EpochOverflow) (epoch_new n)) of
             Inl e \<Rightarrow> (Err e, b)
           | Inr epoch \<Rightarrow>
               let lease = \<lparr>lease_identity = i, lease_worker_id = w, lease_epoch = epoch,
                            lease_expires_unix_ms = expires, lease_state = LeaseActive,
                            lease_result_digest = None\<rparr>
               in (Ok lease, put_lease b i lease)))"

definition current_mut ::
  "lease_book \<Rightarrow> placement_identity \<Rightarrow> worker_id \<Rightarrow> assignment_epoch
    \<Rightarrow> (placement_lease, lease_rejection) result" where
  "current_mut b i w epoch =
     (case bt_get (leases b) i of
        None \<Rightarrow> Err StaleFence
      | Some lease \<Rightarrow>
          if lease_worker_id lease \<noteq> w \<or> lease_epoch lease \<noteq> epoch \<or> lease_state lease \<noteq> LeaseActive
          then Err StaleFence else Ok lease)"

definition renew ::
  "lease_book \<Rightarrow> placement_identity \<Rightarrow> worker_id \<Rightarrow> assignment_epoch \<Rightarrow> u64 \<Rightarrow> u64
    \<Rightarrow> (u64, lease_rejection) result \<times> lease_book" where
  "renew b i w epoch now lifetime =
     (if lifetime = 0 \<or> lifetime > MAXIMUM_LEASE_MILLIS then (Err InvalidLifetime, b)
      else case current_mut b i w epoch of
        Inl e \<Rightarrow> (Err e, b)
      | Inr lease \<Rightarrow>
          if lease_expires_unix_ms lease \<le> now
          then (Err Expired, put_lease b i (lease\<lparr>lease_state := LeaseFenced\<rparr>))
          else case checked_add now lifetime of
            None \<Rightarrow> (Err InvalidLifetime, b)
          | Some expires \<Rightarrow>
              (Ok expires, put_lease b i (lease\<lparr>lease_expires_unix_ms := expires\<rparr>)))"

definition complete ::
  "lease_book \<Rightarrow> placement_identity \<Rightarrow> worker_id \<Rightarrow> assignment_epoch \<Rightarrow> u64 \<Rightarrow> string
    \<Rightarrow> (unit, lease_rejection) result \<times> lease_book" where
  "complete b i w epoch now digest =
     (if \<not> valid_digest digest then (Err InvalidResult, b)
      else case bt_get (leases b) i of
        None \<Rightarrow> (Err StaleFence, b)
      | Some lease \<Rightarrow>
          if lease_worker_id lease \<noteq> w \<or> lease_epoch lease \<noteq> epoch then (Err StaleFence, b)
          else if lease_state lease = LeaseCompleted
          then (if lease_result_digest lease = Some digest then (Ok (), b) else (Err InvalidResult, b))
          else if lease_state lease \<noteq> LeaseActive then (Err StaleFence, b)
          else if lease_expires_unix_ms lease \<le> now
          then (Err Expired, put_lease b i (lease\<lparr>lease_state := LeaseFenced\<rparr>))
          else (Ok (), put_lease b i
                 (lease\<lparr>lease_state := LeaseCompleted, lease_result_digest := Some digest\<rparr>)))"

definition quarantine ::
  "lease_book \<Rightarrow> placement_identity \<Rightarrow> worker_id \<Rightarrow> assignment_epoch
    \<Rightarrow> (unit, lease_rejection) result \<times> lease_book" where
  "quarantine b i w epoch =
     (case current_mut b i w epoch of
        Inl e \<Rightarrow> (Err e, b)
      | Inr lease \<Rightarrow> (Ok (), put_lease b i (lease\<lparr>lease_state := LeaseQuarantined\<rparr>)))"

definition lease_is_expired :: "u64 \<Rightarrow> placement_lease \<Rightarrow> bool" where
  "lease_is_expired now l \<longleftrightarrow> lease_state l = LeaseActive \<and> lease_expires_unix_ms l \<le> now"

definition fence_lease :: "u64 \<Rightarrow> placement_lease \<Rightarrow> placement_lease" where
  "fence_lease now l = (if lease_is_expired now l then l\<lparr>lease_state := LeaseFenced\<rparr> else l)"

definition fence_expired :: "lease_book \<Rightarrow> u64 \<Rightarrow> placement_lease list \<times> lease_book" where
  "fence_expired b now =
     (map (fence_lease now) (filter (lease_is_expired now) (bt_values (leases b))),
      b\<lparr>leases := bt_map_values (fence_lease now) (leases b)\<rparr>)"

subsection \<open>Invariant\<close>

definition lease_ok :: "placement_identity \<Rightarrow> placement_lease \<Rightarrow> bool" where
  "lease_ok i l \<longleftrightarrow> lease_identity l = i \<and> lease_epoch l \<noteq> 0 \<and>
     (case lease_result_digest l of
        None \<Rightarrow> lease_state l \<noteq> LeaseCompleted
      | Some d \<Rightarrow> lease_state l = LeaseCompleted \<and> valid_digest d)"

definition lease_book_wf :: "lease_book \<Rightarrow> bool" where
  "lease_book_wf b \<longleftrightarrow> bt_wf (leases b) \<and> (\<forall>i l. lease_get b i = Some l \<longrightarrow> lease_ok i l)"

datatype lease_event =
    EvAssign placement_identity worker_id u64 u64
  | EvRenew placement_identity worker_id assignment_epoch u64 u64
  | EvComplete placement_identity worker_id assignment_epoch u64 string
  | EvQuarantine placement_identity worker_id assignment_epoch
  | EvFenceExpired u64

fun lease_apply :: "lease_book \<Rightarrow> lease_event \<Rightarrow> lease_book" where
  "lease_apply b (EvAssign i w now lt) = snd (assign b i w now lt)"
| "lease_apply b (EvRenew i w e now lt) = snd (renew b i w e now lt)"
| "lease_apply b (EvComplete i w e now d) = snd (complete b i w e now d)"
| "lease_apply b (EvQuarantine i w e) = snd (quarantine b i w e)"
| "lease_apply b (EvFenceExpired now) = snd (fence_expired b now)"

definition lease_epoch_of :: "lease_book \<Rightarrow> placement_identity \<Rightarrow> nat" where
  "lease_epoch_of b i = (case lease_get b i of None \<Rightarrow> 0 | Some l \<Rightarrow> unat (lease_epoch l))"

lemma lease_get_put:
  "bt_wf (leases b) \<Longrightarrow> lease_get (put_lease b i l) j = (if j = i then Some l else lease_get b j)"
  by (simp add: lease_get_def put_lease_def bt_get_insert)

lemma bt_wf_put: "bt_wf (leases b) \<Longrightarrow> bt_wf (leases (put_lease b i l))"
  by (simp add: put_lease_def bt_wf_insert)

lemma fence_lease_not_expired: "\<not> lease_is_expired now (fence_lease now l)"
  by (simp add: fence_lease_def lease_is_expired_def)

lemma lease_get_fence:
  "lease_get (snd (fence_expired b now)) i = map_option (fence_lease now) (lease_get b i)"
  by (simp add: lease_get_def fence_expired_def bt_get_map_values)

text \<open>
  Every operation either leaves the book alone or stores one lease under its key; what is
  stored relates to what was there by \<open>lease_succ\<close>. The invariant, the monotone epochs and
  the sticky result all follow from this one description of a step.
\<close>

inductive lease_succ :: "placement_identity \<Rightarrow> placement_lease option \<Rightarrow> placement_lease \<Rightarrow> bool" where
  fresh: "lease_state l = LeaseActive \<Longrightarrow> lease_result_digest l = None \<Longrightarrow> lease_epoch l = 1 \<Longrightarrow>
     lease_identity l = i \<Longrightarrow> lease_succ i None l"
| reassigned: "lease_state l = LeaseActive \<Longrightarrow> lease_result_digest l = None \<Longrightarrow>
     unat (lease_epoch l) = unat (lease_epoch o') + 1 \<Longrightarrow> lease_identity l = i \<Longrightarrow>
     lease_succ i (Some o') l"
| extended: "lease_state o' = LeaseActive \<Longrightarrow>
     lease_succ i (Some o') (o'\<lparr>lease_expires_unix_ms := x\<rparr>)"
| closed: "lease_state o' = LeaseActive \<Longrightarrow> s \<in> {LeaseFenced, LeaseQuarantined} \<Longrightarrow>
     lease_succ i (Some o') (o'\<lparr>lease_state := s\<rparr>)"
| completed: "lease_state o' = LeaseActive \<Longrightarrow> valid_digest d \<Longrightarrow>
     lease_succ i (Some o') (o'\<lparr>lease_state := LeaseCompleted, lease_result_digest := Some d\<rparr>)"

lemma next_epoch_Ok:
  "next_epoch b i now = Ok n \<Longrightarrow>
     unat n = lease_epoch_of b i + 1 \<and>
     (case lease_get b i of None \<Rightarrow> n = 1
      | Some l \<Rightarrow> unat n = unat (lease_epoch l) + 1 \<and>
                  \<not> (lease_state l = LeaseActive \<and> lease_expires_unix_ms l > now))"
  by (auto simp: next_epoch_def lease_epoch_of_def lease_get_def checked_add_eq_Some
      split: option.splits if_splits)

lemma assign_Ok:
  assumes "assign b i w now lt = (Ok l, b')"
  shows "b' = put_lease b i l \<and> lease_succ i (lease_get b i) l \<and>
    lease_worker_id l = w \<and> unat (lease_epoch l) = lease_epoch_of b i + 1 \<and>
    unat (lease_expires_unix_ms l) = unat now + unat lt \<and>
    (\<forall>o'. lease_get b i = Some o' \<longrightarrow> \<not> (lease_state o' = LeaseActive \<and> lease_expires_unix_ms o' > now))"
proof -
  from assms obtain x n where x: "checked_add now lt = Some x" and n: "next_epoch b i now = Ok n" "n \<noteq> 0"
    and l: "l = \<lparr>lease_identity = i, lease_worker_id = w, lease_epoch = n,
      lease_expires_unix_ms = x, lease_state = LeaseActive, lease_result_digest = None\<rparr>"
    and b': "b' = put_lease b i l"
    by (auto simp: assign_def Let_def split: option.splits sum.splits if_splits)
  from next_epoch_Ok [OF n(1)] l x b' show ?thesis
    by (auto simp: checked_add_eq_Some split: option.splits intro: lease_succ.intros)
qed

lemma current_mut_Ok:
  "current_mut b i w e = Ok l \<longleftrightarrow>
     lease_get b i = Some l \<and> lease_worker_id l = w \<and> lease_epoch l = e \<and> lease_state l = LeaseActive"
  by (auto simp: current_mut_def lease_get_def split: option.splits)

definition lease_change :: "lease_book \<Rightarrow> lease_book \<Rightarrow> bool" where
  "lease_change b b' \<longleftrightarrow> b' = b \<or> (\<exists>i l. b' = put_lease b i l \<and> lease_succ i (lease_get b i) l)"

lemma lease_succ_fence:
  "lease_state l = LeaseActive \<Longrightarrow> lease_succ i (Some l) (l\<lparr>lease_state := LeaseFenced\<rparr>)"
  by (rule lease_succ.closed) simp_all

lemma lease_change_refl [simp]: "lease_change b b"
  by (simp add: lease_change_def)

lemma lease_change_put: "lease_succ i (lease_get b i) l \<Longrightarrow> lease_change b (put_lease b i l)"
  by (auto simp: lease_change_def)

lemma assign_Err: "assign b i w now lt = (Err e, b') \<Longrightarrow> b' = b"
  by (auto simp: assign_def Let_def split: option.splits sum.splits if_splits)

lemma assign_change: "lease_change b (snd (assign b i w now lt))"
proof (cases "assign b i w now lt")
  case (Pair r b')
  then show ?thesis
    by (cases r) (auto dest: assign_Err assign_Ok intro: lease_change_put)
qed

lemma renew_change: "lease_change b (snd (renew b i w e now lt))"
  unfolding renew_def
  by (auto simp: current_mut_Ok split: option.splits sum.splits
      intro!: lease_change_put intro: lease_succ.intros)

lemma complete_change: "lease_change b (snd (complete b i w e now d))"
  unfolding complete_def
  by (auto simp: lease_get_def split: option.splits
      intro!: lease_change_put intro: lease_succ.intros)

lemma quarantine_change: "lease_change b (snd (quarantine b i w e))"
  unfolding quarantine_def
  by (auto simp: current_mut_Ok split: sum.splits
      intro!: lease_change_put intro: lease_succ.intros)

lemmas op_change = assign_change renew_change complete_change quarantine_change

text \<open>The per-key form of a step: untouched, or replaced by a successor.\<close>

lemma apply_get:
  assumes "lease_book_wf b" and "lease_get (lease_apply b ev) i = Some l"
  shows "lease_get b i = Some l \<or> lease_succ i (lease_get b i) l"
proof -
  have chg: "lease_get b i = Some l \<or> lease_succ i (lease_get b i) l"
    if "lease_change b b'" "lease_get b' i = Some l" for b'
    using that assms(1) by (auto simp: lease_change_def lease_book_wf_def lease_get_put split: if_splits)
  show ?thesis
  proof (cases ev)
    case (EvFenceExpired now)
    with assms(2) show ?thesis
      by (auto simp: lease_get_fence fence_lease_def lease_is_expired_def lease_succ_fence)
  qed (use assms(2) chg [OF assign_change] chg [OF renew_change] chg [OF complete_change]
      chg [OF quarantine_change] in simp_all)
qed

lemma apply_dom:
  assumes "lease_book_wf b" and "lease_get b i = Some l"
  shows "\<exists>l'. lease_get (lease_apply b ev) i = Some l'"
proof -
  have chg: "\<exists>l'. lease_get b' i = Some l'" if "lease_change b b'" for b'
    using that assms by (auto simp: lease_change_def lease_book_wf_def lease_get_put)
  show ?thesis
  proof (cases ev)
    case (EvFenceExpired now)
    with assms(2) show ?thesis by (auto simp: lease_get_fence)
  qed (use chg [OF assign_change] chg [OF renew_change] chg [OF complete_change]
      chg [OF quarantine_change] in simp_all)
qed

lemma lease_succ_ok: "lease_succ i old l \<Longrightarrow> (\<forall>o'. old = Some o' \<longrightarrow> lease_ok i o') \<Longrightarrow> lease_ok i l"
proof (induction rule: lease_succ.induct)
  case (reassigned l o' i)
  then have "lease_epoch l \<noteq> 0" by (metis add_is_0 one_neq_zero unat_0)
  with reassigned show ?case by (simp add: lease_ok_def)
qed (auto simp: lease_ok_def split: option.splits)

lemma bt_wf_apply: "bt_wf (leases b) \<Longrightarrow> bt_wf (leases (lease_apply b ev))"
proof -
  assume wf: "bt_wf (leases b)"
  have chg: "bt_wf (leases b')" if "lease_change b b'" for b'
    using that wf by (auto simp: lease_change_def bt_wf_put)
  show ?thesis
    by (cases ev) (use wf in \<open>simp_all add: op_change chg fence_expired_def\<close>)
qed

lemma lease_apply_wf: "lease_book_wf b \<Longrightarrow> lease_book_wf (lease_apply b ev)"
proof -
  assume wf: "lease_book_wf b"
  then have "bt_wf (leases (lease_apply b ev))" by (simp add: lease_book_wf_def bt_wf_apply)
  moreover have "lease_ok i l" if "lease_get (lease_apply b ev) i = Some l" for i l
    using apply_get [OF wf that] wf by (auto simp: lease_book_wf_def intro: lease_succ_ok)
  ultimately show ?thesis by (simp add: lease_book_wf_def)
qed

lemma lease_succ_epoch:
  "lease_succ i old l \<Longrightarrow> (case old of None \<Rightarrow> 0 | Some o' \<Rightarrow> unat (lease_epoch o')) \<le> unat (lease_epoch l)"
  by (induction rule: lease_succ.induct) auto

lemma lease_apply_epoch: "lease_book_wf b \<Longrightarrow> lease_epoch_of b i \<le> lease_epoch_of (lease_apply b ev) i"
proof (cases "lease_get b i")
  case None
  then show ?thesis by (simp add: lease_epoch_of_def)
next
  case (Some l)
  assume wf: "lease_book_wf b"
  from apply_dom [OF wf Some] obtain l' where l': "lease_get (lease_apply b ev) i = Some l'" ..
  from apply_get [OF wf l'] Some lease_succ_epoch [of i "Some l" l'] l' show ?thesis
    by (auto simp: lease_epoch_of_def)
qed

lemma default_lease_book_wf: "lease_book_wf default_lease_book"
  by (simp add: default_lease_book_def lease_book_wf_def lease_get_def bt.get_empty)

interpretation lb: epoch_fence "\<lambda>b. b = default_lease_book" "det lease_apply" lease_book_wf lease_epoch_of
  by unfold_locales (auto simp: det_def lease_apply_wf lease_apply_epoch default_lease_book_wf)

subsection \<open>A completed epoch keeps its one result\<close>

definition settled :: "placement_identity \<Rightarrow> worker_id \<Rightarrow> assignment_epoch \<Rightarrow> string \<Rightarrow> lease_book \<Rightarrow> bool" where
  "settled i w e d b \<longleftrightarrow> lease_epoch_of b i > unat e \<or>
     (\<exists>l. lease_get b i = Some l \<and> lease_worker_id l = w \<and> lease_epoch l = e \<and>
          lease_state l = LeaseCompleted \<and> lease_result_digest l = Some d)"

lemma lease_succ_completed:
  "lease_succ i (Some l) l' \<Longrightarrow> lease_state l = LeaseCompleted \<Longrightarrow>
     unat (lease_epoch l') = unat (lease_epoch l) + 1"
  by (cases rule: lease_succ.cases) auto

lemma settled_apply: "lease_book_wf b \<Longrightarrow> settled i w e d b \<Longrightarrow> settled i w e d (lease_apply b ev)"
proof -
  assume wf: "lease_book_wf b" and st: "settled i w e d b"
  note mono = lease_apply_epoch [OF wf, of i ev]
  from st consider "lease_epoch_of b i > unat e"
    | l where "lease_get b i = Some l" "lease_worker_id l = w" "lease_epoch l = e"
        "lease_state l = LeaseCompleted" "lease_result_digest l = Some d"
    by (auto simp: settled_def)
  then show ?thesis
  proof cases
    case 1
    with mono show ?thesis by (simp add: settled_def)
  next
    case 2
    from apply_dom [OF wf 2(1)] obtain l' where l': "lease_get (lease_apply b ev) i = Some l'" ..
    from apply_get [OF wf l'] 2 lease_succ_completed [of i l l'] l' show ?thesis
      by (auto simp: settled_def lease_epoch_of_def)
  qed
qed

lemma settled_run:
  "run (det lease_apply) b evs b' \<Longrightarrow> lease_book_wf b \<Longrightarrow> settled i w e d b \<Longrightarrow> settled i w e d b'"
  by (induction rule: run.induct) (auto simp: det_def lease_apply_wf settled_apply)

lemma complete_Ok_settled:
  "lease_book_wf b \<Longrightarrow> complete b i w e now d = (Ok (), b') \<Longrightarrow> settled i w e d b'"
  by (auto simp: complete_def settled_def lease_get_put lease_book_wf_def
      split: if_splits option.splits) (auto simp: lease_get_def)

lemma settled_complete_Ok:
  "settled i w e d b \<Longrightarrow> fst (complete b i w' e now d') = Ok () \<Longrightarrow> w' = w \<and> d' = d"
  by (auto simp: complete_def settled_def lease_epoch_of_def lease_get_def
      split: if_splits option.splits)

lemma stale_holder:
  assumes "unat e < lease_epoch_of b i"
  shows "current_mut b i w e = Err StaleFence"
    and "complete b i w e now d = (Err (if valid_digest d then StaleFence else InvalidResult), b)"
  using assms
  by (auto simp: current_mut_def complete_def lease_epoch_of_def lease_get_def split: option.splits)

subsection \<open>Properties\<close>

text \<open>
  Leases exclude each other. An assignment succeeds only when the sandbox has no lease
  that is active and unexpired; the new lease names the requesting worker, carries the next
  epoch and expires exactly \<open>lifetime\<close> after now, at most five minutes. The lease of every
  other sandbox is untouched.
\<close>
theorem assign_is_exclusive:
  assumes "lease_book_wf b" and "assign b i w now lt = (Ok l, b')"
  shows "(\<forall>o'. lease_get b i = Some o' \<longrightarrow> lease_state o' = LeaseActive \<longrightarrow> lease_expires_unix_ms o' \<le> now) \<and>
    lease_get b' i = Some l \<and> lease_worker_id l = w \<and> lease_state l = LeaseActive \<and>
    unat (lease_epoch l) = lease_epoch_of b i + 1 \<and>
    unat (lease_expires_unix_ms l) = unat now + unat lt \<and> 0 < unat lt \<and> unat lt \<le> 300000 \<and>
    (\<forall>j. j \<noteq> i \<longrightarrow> lease_get b' j = lease_get b j)"
proof -
  from assms(2) have lt: "lt \<noteq> 0" "lt \<le> MAXIMUM_LEASE_MILLIS"
    and act: "lease_state l = LeaseActive"
    by (auto simp: assign_def Let_def not_less split: option.splits sum.splits if_splits)
  then have "0 < unat lt \<and> unat lt \<le> 300000"
    by (simp add: MAXIMUM_LEASE_MILLIS_def word_le_nat_alt unat_gt_0)
  with act assign_Ok [OF assms(2)] assms(1) show ?thesis
    by (auto simp: lease_get_put lease_book_wf_def not_less)
qed

definition sample_identity :: placement_identity where
  "sample_identity = PlacementIdentity ''tenant'' ''workspace'' ''sandbox''"

definition sample_lease :: placement_lease where
  "sample_lease = \<lparr>lease_identity = sample_identity, lease_worker_id = ''worker-a'', lease_epoch = 1,
     lease_expires_unix_ms = 11000, lease_state = LeaseActive, lease_result_digest = None\<rparr>"

definition sample_book :: lease_book where
  "sample_book = \<lparr>leases = [(sample_identity, sample_lease)]\<rparr>"

lemma assign_sample: "assign default_lease_book sample_identity ''worker-a'' 1000 10000 = (Ok sample_lease, sample_book)"
  by (simp add: assign_def default_lease_book_def next_epoch_def checked_add_def epoch_new_def
      MAXIMUM_LEASE_MILLIS_def put_lease_def sample_lease_def sample_book_def bt_get_def Let_def)

lemma sample_book_wf: "lease_book_wf sample_book"
  using lease_apply_wf [OF default_lease_book_wf, of "EvAssign sample_identity ''worker-a'' 1000 10000"]
  by (simp add: assign_sample)

theorem assign_is_exclusive_witness:
  "lease_book_wf default_lease_book \<and>
   assign default_lease_book sample_identity ''worker-a'' 1000 10000 = (Ok sample_lease, sample_book) \<and>
   unat (lease_epoch sample_lease) = lease_epoch_of default_lease_book sample_identity + 1"
  using default_lease_book_wf assign_sample
    assign_is_exclusive [OF default_lease_book_wf assign_sample] by blast

text \<open>
  C11: a fenced worker stays fenced. Once a sandbox has been reassigned, no holder of an
  earlier epoch can ever renew, quarantine or publish again: whatever operations run in
  between, each such call is rejected and leaves the book as it is.
\<close>
theorem reassigned_worker_is_fenced:
  assumes "lease_book_wf b" and "assign b i w now lt = (Ok l, b1)"
    and "run (det lease_apply) b1 evs b2" and "unat e \<le> lease_epoch_of b i"
  shows "fst (renew b2 i old e t lt') \<in> {Err InvalidLifetime, Err StaleFence} \<and>
    snd (renew b2 i old e t lt') = b2 \<and>
    quarantine b2 i old e = (Err StaleFence, b2) \<and>
    complete b2 i old e t d = (Err (if valid_digest d then StaleFence else InvalidResult), b2)"
proof -
  have wf1: "lease_book_wf b1"
    using lease_apply_wf [OF assms(1), of "EvAssign i w now lt"] assms(2) by simp
  have "lease_epoch_of b1 i = lease_epoch_of b i + 1"
    using assign_Ok [OF assms(2)] assms(1)
    by (auto simp: lease_epoch_of_def lease_get_put lease_book_wf_def)
  then have "unat e < lease_epoch_of b2 i"
    using lb.run_mono [OF assms(3) wf1, of i] assms(4) by simp
  from stale_holder [OF this] show ?thesis by (simp add: renew_def quarantine_def)
qed

definition reassigned_lease :: placement_lease where
  "reassigned_lease = sample_lease\<lparr>lease_worker_id := ''worker-b'', lease_epoch := 2,
     lease_expires_unix_ms := 21000\<rparr>"

definition reassigned_book :: lease_book where
  "reassigned_book = \<lparr>leases = [(sample_identity, reassigned_lease)]\<rparr>"

lemma reassign_sample:
  "assign sample_book sample_identity ''worker-b'' 11000 10000 = (Ok reassigned_lease, reassigned_book)"
  by (simp add: assign_def next_epoch_def checked_add_def epoch_new_def MAXIMUM_LEASE_MILLIS_def
      put_lease_def sample_lease_def sample_book_def bt_get_def Let_def reassigned_book_def reassigned_lease_def)

theorem reassigned_worker_is_fenced_witness:
  "assign sample_book sample_identity ''worker-b'' 11000 10000 = (Ok reassigned_lease, reassigned_book) \<and>
   quarantine reassigned_book sample_identity ''worker-a'' 1 = (Err StaleFence, reassigned_book)"
proof -
  have e: "unat (1 :: u64) \<le> lease_epoch_of sample_book sample_identity"
    by (simp add: lease_epoch_of_def lease_get_def sample_book_def sample_lease_def bt_get_def)
  from reassigned_worker_is_fenced [OF sample_book_wf reassign_sample run_Nil e] reassign_sample
  show ?thesis by blast
qed

text \<open>
  C28: one result per assignment. If a completion is accepted for an epoch, then after any
  sequence of operations another completion accepted for the same sandbox and epoch comes
  from the same worker with the same result digest.
\<close>
theorem one_result_per_epoch:
  assumes "lease_book_wf b" and "complete b i w e now d = (Ok (), b1)"
    and "run (det lease_apply) b1 evs b2" and "fst (complete b2 i w' e now' d') = Ok ()"
  shows "w' = w \<and> d' = d"
proof -
  have "lease_book_wf b1"
    using lease_apply_wf [OF assms(1), of "EvComplete i w e now d"] assms(2) by simp
  with assms(3) complete_Ok_settled [OF assms(1,2)] have "settled i w e d b2"
    by (blast intro: settled_run)
  with assms(4) show ?thesis by (blast dest: settled_complete_Ok)
qed

definition completed_book :: lease_book where
  "completed_book = \<lparr>leases = [(sample_identity, sample_lease\<lparr>lease_state := LeaseCompleted,
     lease_result_digest := Some (sample_digest CHR ''a'')\<rparr>)]\<rparr>"

lemma complete_sample:
  "complete sample_book sample_identity ''worker-a'' 1 2000 (sample_digest CHR ''a'') = (Ok (), completed_book)"
  "fst (complete completed_book sample_identity ''worker-a'' 1 9000 (sample_digest CHR ''a'')) = Ok ()"
  by (simp_all add: complete_def sample_book_def completed_book_def sample_lease_def
      bt_get_def put_lease_def)

theorem one_result_per_epoch_witness:
  "lease_book_wf sample_book \<and>
   complete sample_book sample_identity ''worker-a'' 1 2000 (sample_digest CHR ''a'') = (Ok (), completed_book) \<and>
   fst (complete completed_book sample_identity ''worker-a'' 1 9000 (sample_digest CHR ''a'')) = Ok () \<and>
   (''worker-a'' = ''worker-a'' \<and> sample_digest CHR ''a'' = sample_digest CHR ''a'')"
  by (intro conjI [OF sample_book_wf] conjI [OF complete_sample(1)] conjI [OF complete_sample(2)]
      one_result_per_epoch [OF sample_book_wf complete_sample(1) run_Nil complete_sample(2)])

text \<open>
  The expiry sweep fences exactly what has expired. Afterwards no active lease is past
  its expiry; a lease that was not active and expired is unchanged; and the returned leases
  are, in key order, the ones that were, now fenced.
\<close>
theorem fence_expired_exact:
  assumes "lease_book_wf b" and "fence_expired b now = (fenced, b')"
  shows "(\<forall>i l. lease_get b' i = Some l \<longrightarrow> \<not> lease_is_expired now l) \<and>
    (\<forall>i l. lease_get b i = Some l \<longrightarrow> lease_get b' i =
       Some (if lease_state l = LeaseActive \<and> lease_expires_unix_ms l \<le> now
             then l\<lparr>lease_state := LeaseFenced\<rparr> else l)) \<and>
    sorted_wrt (<) (map lease_identity fenced) \<and>
    set fenced = {l\<lparr>lease_state := LeaseFenced\<rparr> | i l. lease_get b i = Some l \<and> lease_is_expired now l}"
proof -
  have b': "b' = snd (fence_expired b now)" and f: "fenced = fst (fence_expired b now)"
    using assms(2) by simp_all
  have ids: "lease_identity l = i" if "(i, l) \<in> set (leases b)" for i l
    using assms(1) that by (auto simp: lease_book_wf_def lease_get_def bt_get_in_set lease_ok_def)
  have 1: "\<not> lease_is_expired now l" if "lease_get b' i = Some l" for i l
    using that by (auto simp: b' lease_get_fence fence_lease_not_expired)
  have 2: "lease_get b' i = Some (if lease_state l = LeaseActive \<and> lease_expires_unix_ms l \<le> now
             then l\<lparr>lease_state := LeaseFenced\<rparr> else l)" if "lease_get b i = Some l" for i l
    unfolding b' lease_get_fence that fence_lease_def lease_is_expired_def by (rule option.map(2))
  have 3: "map lease_identity fenced = map fst (filter (lease_is_expired now \<circ> snd) (leases b))"
    using ids by (auto simp: f fence_expired_def bt_values_def fence_lease_def filter_map comp_def)
  have "sorted_wrt (<) (map fst (filter (lease_is_expired now \<circ> snd) (leases b)))"
    using assms(1) by (auto simp: lease_book_wf_def bt_wf_def sorted_wrt_map intro: sorted_wrt_filter)
  moreover have "set fenced = {l\<lparr>lease_state := LeaseFenced\<rparr> | i l. lease_get b i = Some l \<and> lease_is_expired now l}"
    using assms(1)
    by (auto simp: f fence_expired_def bt_values_def fence_lease_def lease_get_def lease_book_wf_def
        bt_get_in_set image_iff) force+
  ultimately show ?thesis using 1 2 3 by metis
qed

theorem fence_expired_exact_witness:
  "lease_book_wf sample_book \<and>
   fence_expired sample_book 11000 = ([sample_lease\<lparr>lease_state := LeaseFenced\<rparr>],
     \<lparr>leases = [(sample_identity, sample_lease\<lparr>lease_state := LeaseFenced\<rparr>)]\<rparr>) \<and>
   sorted_wrt (<) (map lease_identity [sample_lease\<lparr>lease_state := LeaseFenced\<rparr>])"
proof -
  have h: "fence_expired sample_book 11000 = ([sample_lease\<lparr>lease_state := LeaseFenced\<rparr>],
     \<lparr>leases = [(sample_identity, sample_lease\<lparr>lease_state := LeaseFenced\<rparr>)]\<rparr>)"
    by (simp add: fence_expired_def sample_book_def sample_lease_def bt_values_def fence_lease_def
        lease_is_expired_def bt_map_values_def)
  show ?thesis
    using sample_book_wf h fence_expired_exact [OF sample_book_wf h] by blast
qed

end
