(* ===== verification/Fair_Queue.thy ===== *)
theory Fair_Queue
  imports Core_Types Ordered_Map
begin

text \<open>
  \<^verbatim>\<open>crates/sandbox-core/src/placement.rs\<close>, second half: \<open>BoundedFairQueue\<close>, a bounded
  queue of work with one FIFO per tenant, served by weighted deficit round robin. Every
  \<open>expect\<close> and every decrement of the counter \<open>total\<close> is a point where the code would panic;
  operations that have one return in \<open>exec\<close>.
\<close>

definition FAIRNESS_QUANTUM :: u32 where
  "FAIRNESS_QUANTUM = 100"

definition usize_max :: nat where
  "usize_max = 2 ^ 64 - 1"

record queue_limits =
  lim_global :: nat
  lim_per_tenant :: nat
  lim_maximum_tenants :: nat

definition limits_is_valid :: "queue_limits \<Rightarrow> bool" where
  "limits_is_valid l \<longleftrightarrow> lim_global l > 0 \<and> lim_global l \<le> 1000000 \<and>
     lim_per_tenant l > 0 \<and> lim_per_tenant l \<le> lim_global l \<and>
     lim_maximum_tenants l > 0 \<and> lim_maximum_tenants l \<le> lim_global l"

record queued_work =
  idempotency_key :: string
  work_tenant :: tenant_id
  work_workspace :: workspace_id
  work_sandbox :: sandbox_id
  deadline_unix_ms :: u64

definition work_is_valid :: "queued_work \<Rightarrow> u64 \<Rightarrow> bool" where
  "work_is_valid w now \<longleftrightarrow> idempotency_key w \<noteq> [] \<and> length (idempotency_key w) \<le> 128 \<and>
     list_all (\<lambda>b. is_ascii_alphanumeric b \<or> b \<in> {CHR ''-'', CHR ''_''}) (idempotency_key w) \<and>
     deadline_unix_ms w > now"

datatype queue_rejection =
    InvalidConfiguration | InvalidRequest | Duplicate | GlobalCapacity
  | TenantCapacity | TenantCardinality | InvalidWeight

record tenant_queue =
  tq_weight :: u8
  tq_deficit :: u32
  tq_work :: "queued_work list"

record fair_queue =
  q_limits :: queue_limits
  q_total :: nat
  q_keys :: "string set"
  q_tenants :: "(tenant_id, tenant_queue) btree_map"
  q_schedule :: "tenant_id list"

definition queue_new :: "queue_limits \<Rightarrow> (fair_queue, queue_rejection) result" where
  "queue_new limits =
     (if \<not> limits_is_valid limits then Err InvalidConfiguration
      else Ok \<lparr>q_limits = limits, q_total = 0, q_keys = {}, q_tenants = [], q_schedule = []\<rparr>)"

definition queue_len :: "fair_queue \<Rightarrow> nat" where
  "queue_len q = q_total q"

definition queue_is_empty :: "fair_queue \<Rightarrow> bool" where
  "queue_is_empty q \<longleftrightarrow> q_total q = 0"

definition put_tenant :: "fair_queue \<Rightarrow> tenant_id \<Rightarrow> tenant_queue \<Rightarrow> fair_queue" where
  "put_tenant q t tq = q\<lparr>q_tenants := bt_insert t tq (q_tenants q)\<rparr>"

definition set_tenant_weight ::
  "fair_queue \<Rightarrow> tenant_id \<Rightarrow> u8 \<Rightarrow> (unit, queue_rejection) result \<times> fair_queue" where
  "set_tenant_weight q t weight =
     (if \<not> (1 \<le> weight \<and> weight \<le> 100) then (Err InvalidWeight, q)
      else case bt_get (q_tenants q) t of
        Some queue \<Rightarrow> (Ok (), put_tenant q t (queue\<lparr>tq_weight := weight\<rparr>))
      | None \<Rightarrow>
          if length (q_tenants q) \<ge> lim_maximum_tenants (q_limits q) then (Err TenantCardinality, q)
          else (Ok (), put_tenant q t \<lparr>tq_weight = weight, tq_deficit = 0, tq_work = []\<rparr>))"

definition enqueue ::
  "fair_queue \<Rightarrow> queued_work \<Rightarrow> u64 \<Rightarrow> ((unit, queue_rejection) result \<times> fair_queue) exec" where
  "enqueue q w now =
     (if \<not> work_is_valid w now then Done (Err InvalidRequest, q)
      else if idempotency_key w \<in> q_keys q then Done (Err Duplicate, q)
      else if q_total q \<ge> lim_global (q_limits q) then Done (Err GlobalCapacity, q)
      else case (if \<not> bt_contains (q_tenants q) (work_tenant w)
                 then set_tenant_weight q (work_tenant w) 1 else (Ok (), q)) of
        (Inl e, q1) \<Rightarrow> Done (Err e, q1)
      | (Inr _, q1) \<Rightarrow>
          (case bt_get (q_tenants q1) (work_tenant w) of
             None \<Rightarrow> Panic
           | Some queue \<Rightarrow>
               if length (tq_work queue) \<ge> lim_per_tenant (q_limits q1)
               then Done (Err TenantCapacity, q1)
               else Done (Ok (), (put_tenant q1 (work_tenant w) (queue\<lparr>tq_work := tq_work queue @ [w]\<rparr>))
                 \<lparr>q_schedule := (if tq_work queue = [] then q_schedule q1 @ [work_tenant w]
                                 else q_schedule q1),
                  q_keys := insert (idempotency_key w) (q_keys q1),
                  q_total := q_total q1 + 1\<rparr>)))"

definition remove_empty_tenant :: "fair_queue \<Rightarrow> tenant_id \<Rightarrow> fair_queue" where
  "remove_empty_tenant q t =
     (if (case bt_get (q_tenants q) t of None \<Rightarrow> False | Some queue \<Rightarrow> tq_work queue = [])
      then q\<lparr>q_tenants := bt_remove t (q_tenants q),
             q_schedule := filter (\<lambda>s. s \<noteq> t) (q_schedule q)\<rparr>
      else q)"

definition cancel :: "fair_queue \<Rightarrow> string \<Rightarrow> (queued_work option \<times> fair_queue) exec" where
  "cancel q key =
     (if key \<notin> q_keys q then Done (None, q)
      else case find (\<lambda>e. list_ex (\<lambda>w. idempotency_key w = key) (tq_work (snd e))) (q_tenants q) of
        None \<Rightarrow> Done (None, q)
      | Some (t, _) \<Rightarrow>
          (case bt_get (q_tenants q) t of
             None \<Rightarrow> Done (None, q)
           | Some queue \<Rightarrow>
               (case List.extract (\<lambda>w. idempotency_key w = key) (tq_work queue) of
                  None \<Rightarrow> Done (None, q)
                | Some (before, removed, after) \<Rightarrow>
                    if q_total q = 0 then Panic
                    else Done (Some removed, remove_empty_tenant
                      ((put_tenant q t (queue\<lparr>tq_work := before @ after\<rparr>))
                        \<lparr>q_keys := q_keys q - {key}, q_total := q_total q - 1\<rparr>) t))))"

fun expire_work ::
  "u64 \<Rightarrow> queued_work list \<Rightarrow> string set \<times> nat \<times> queued_work list \<times> queued_work list
    \<Rightarrow> (string set \<times> nat \<times> queued_work list \<times> queued_work list) exec" where
  "expire_work now [] st = Done st"
| "expire_work now (w # ws) (keys, count, expired, retained) =
     (if deadline_unix_ms w \<le> now
      then (if count = 0 then Panic
            else expire_work now ws (keys - {idempotency_key w}, count - 1, expired @ [w], retained))
      else expire_work now ws (keys, count, expired, retained @ [w]))"

definition expire_tenant ::
  "u64 \<Rightarrow> fair_queue \<times> queued_work list \<Rightarrow> tenant_id \<Rightarrow> (fair_queue \<times> queued_work list) exec" where
  "expire_tenant now st t =
     (case st of (q, expired) \<Rightarrow>
        (case bt_get (q_tenants q) t of
           None \<Rightarrow> Panic
         | Some queue \<Rightarrow>
             exec_bind (expire_work now (tq_work queue) (q_keys q, q_total q, expired, []))
               (\<lambda>(keys, count, expired', retained).
                  Done (remove_empty_tenant
                    ((put_tenant q t (queue\<lparr>tq_work := retained\<rparr>))
                      \<lparr>q_keys := keys, q_total := count\<rparr>) t, expired'))))"

definition expire :: "fair_queue \<Rightarrow> u64 \<Rightarrow> (queued_work list \<times> fair_queue) exec" where
  "expire q now =
     exec_bind (exec_fold (expire_tenant now) (q, []) (bt_keys (q_tenants q)))
       (\<lambda>(q', expired). Done (expired, q'))"

text \<open>The bounded loop of \<open>dequeue\<close>; the first argument is the number of attempts left.\<close>

fun dequeue_loop :: "nat \<Rightarrow> fair_queue \<Rightarrow> (queued_work option \<times> fair_queue) exec" where
  "dequeue_loop 0 q = Done (None, q)"
| "dequeue_loop (Suc n) q =
     (case q_schedule q of
        [] \<Rightarrow> Done (None, q)
      | t # rest \<Rightarrow>
          (case bt_get (q_tenants q) t of
             None \<Rightarrow> Panic
           | Some queue \<Rightarrow>
               let deficit = min (saturating_add (tq_deficit queue) (ucast (tq_weight queue)))
                                 (FAIRNESS_QUANTUM * 2)
               in if deficit < FAIRNESS_QUANTUM
                  then dequeue_loop n ((put_tenant q t (queue\<lparr>tq_deficit := deficit\<rparr>))
                         \<lparr>q_schedule := rest @ [t]\<rparr>)
                  else case tq_work queue of
                    [] \<Rightarrow> Panic
                  | w # ws \<Rightarrow>
                      if q_total q = 0 then Panic
                      else let deficit' = deficit - FAIRNESS_QUANTUM;
                               q1 = (put_tenant q t (queue\<lparr>tq_deficit := deficit', tq_work := ws\<rparr>))
                                      \<lparr>q_keys := q_keys q - {idempotency_key w},
                                       q_total := q_total q - 1\<rparr>
                           in Done (Some w,
                                if ws = [] then q1\<lparr>q_tenants := bt_remove t (q_tenants q1), q_schedule := rest\<rparr>
                                else if deficit' \<ge> FAIRNESS_QUANTUM then q1\<lparr>q_schedule := t # rest\<rparr>
                                else q1\<lparr>q_schedule := rest @ [t]\<rparr>)))"

definition dequeue :: "fair_queue \<Rightarrow> u64 \<Rightarrow> (queued_work option \<times> fair_queue) exec" where
  "dequeue q now =
     exec_bind (expire q now) (\<lambda>(_, q1).
       dequeue_loop (min (length (q_schedule q1) * unat FAIRNESS_QUANTUM) usize_max) q1)"

end
