(* ===== verification/Fair_Queue_Correct.thy ===== *)
theory Fair_Queue_Correct
  imports Fair_Queue Machines "HOL-Library.Multiset"
begin

text \<open>
  Correctness of \<open>BoundedFairQueue\<close>. \<open>backlog\<close> abstracts a queue to one FIFO per tenant;
  \<open>queue_inv\<close> ties the counters, the key set and the schedule to it. Operations that take work
  out (\<open>cancel\<close>, \<open>expire\<close>, \<open>dequeue\<close>) all keep the invariant by the one lemma \<open>inv_shrink\<close>.
\<close>

definition backlog :: "fair_queue \<Rightarrow> tenant_id \<Rightarrow> queued_work list" where
  "backlog q t = (case bt_get (q_tenants q) t of None \<Rightarrow> [] | Some tq \<Rightarrow> tq_work tq)"

definition work_ok :: "tenant_id \<Rightarrow> queued_work \<Rightarrow> bool" where
  "work_ok t w \<longleftrightarrow> work_tenant w = t \<and> idempotency_key w \<noteq> [] \<and> length (idempotency_key w) \<le> 128"

definition tenant_ok :: "queue_limits \<Rightarrow> tenant_id \<Rightarrow> tenant_queue \<Rightarrow> bool" where
  "tenant_ok l t tq \<longleftrightarrow> 1 \<le> unat (tq_weight tq) \<and> unat (tq_weight tq) \<le> 100 \<and>
     unat (tq_deficit tq) < 100 \<and> length (tq_work tq) \<le> lim_per_tenant l \<and>
     distinct (map idempotency_key (tq_work tq)) \<and> (\<forall>w \<in> set (tq_work tq). work_ok t w)"

definition key_set :: "queued_work list \<Rightarrow> string set" where
  "key_set ws = idempotency_key ` set ws"

definition queue_inv :: "fair_queue \<Rightarrow> bool" where
  "queue_inv q \<longleftrightarrow> limits_is_valid (q_limits q) \<and> bt_wf (q_tenants q) \<and>
     length (q_tenants q) \<le> lim_maximum_tenants (q_limits q) \<and>
     (\<forall>t tq. bt_get (q_tenants q) t = Some tq \<longrightarrow> tenant_ok (q_limits q) t tq) \<and>
     distinct (q_schedule q) \<and> set (q_schedule q) = {t. backlog q t \<noteq> []} \<and>
     q_keys q = (\<Union>t. key_set (backlog q t)) \<and>
     (\<forall>t t'. t \<noteq> t' \<longrightarrow> key_set (backlog q t) \<inter> key_set (backlog q t') = {}) \<and>
     q_total q = (\<Sum>t\<in>set (q_schedule q). length (backlog q t)) \<and>
     q_total q \<le> lim_global (q_limits q)"

lemma key_set_simps [simp]:
  "key_set [] = {}" "key_set [w] = {idempotency_key w}" "key_set (ws @ vs) = key_set ws \<union> key_set vs"
  by (simp_all add: key_set_def image_Un)

lemma queue_invD:
  assumes "queue_inv q"
  shows "limits_is_valid (q_limits q)" "bt_wf (q_tenants q)"
    "length (q_tenants q) \<le> lim_maximum_tenants (q_limits q)"
    "bt_get (q_tenants q) t = Some tq \<Longrightarrow> tenant_ok (q_limits q) t tq"
    "distinct (q_schedule q)" "t \<in> set (q_schedule q) \<longleftrightarrow> backlog q t \<noteq> []"
    "q_keys q = (\<Union>t. key_set (backlog q t))"
    "t \<noteq> t' \<Longrightarrow> key_set (backlog q t) \<inter> key_set (backlog q t') = {}"
    "q_total q = (\<Sum>t\<in>set (q_schedule q). length (backlog q t))"
    "q_total q \<le> lim_global (q_limits q)"
  using assms unfolding queue_inv_def by blast+

lemma queue_invI:
  assumes "limits_is_valid (q_limits q)" "bt_wf (q_tenants q)"
    "length (q_tenants q) \<le> lim_maximum_tenants (q_limits q)"
    "\<And>t tq. bt_get (q_tenants q) t = Some tq \<Longrightarrow> tenant_ok (q_limits q) t tq"
    "distinct (q_schedule q)" "\<And>t. t \<in> set (q_schedule q) \<longleftrightarrow> backlog q t \<noteq> []"
    "q_keys q = (\<Union>t. key_set (backlog q t))"
    "\<And>t t'. t \<noteq> t' \<Longrightarrow> key_set (backlog q t) \<inter> key_set (backlog q t') = {}"
    "q_total q = (\<Sum>t\<in>set (q_schedule q). length (backlog q t))"
    "q_total q \<le> lim_global (q_limits q)"
  shows "queue_inv q"
  using assms unfolding queue_inv_def by (intro conjI allI impI set_eqI) simp_all

lemma inv_backlog_ok:
  assumes "queue_inv q"
  shows "distinct (map idempotency_key (backlog q t))" "w \<in> set (backlog q t) \<Longrightarrow> work_ok t w"
  using queue_invD(4) [OF assms, of t]
  by (cases "bt_get (q_tenants q) t"; simp add: backlog_def tenant_ok_def)+

lemma inv_scheduled:
  assumes "queue_inv q" and "t \<in> set (q_schedule q)"
  obtains tq w ws where "bt_get (q_tenants q) t = Some tq" and "tq_work tq = w # ws"
proof -
  from assms have "backlog q t \<noteq> []" by (simp add: queue_invD(6))
  then show thesis using that by (auto simp: backlog_def neq_Nil_conv split: option.splits)
qed

lemma total_ge_backlog:
  assumes "queue_inv q"
  shows "length (backlog q t) \<le> q_total q"
proof (cases "t \<in> set (q_schedule q)")
  case True
  then show ?thesis
    unfolding queue_invD(9) [OF assms] by (intro member_le_sum) simp_all
qed (simp add: queue_invD(6) [OF assms])

subsection \<open>Replacing the work of one tenant by a part of it\<close>

lemma sum_upd:
  fixes f :: "'a \<Rightarrow> nat"
  assumes "finite S" "t \<notin> S \<Longrightarrow> f t = 0" "n \<le> f t" "S' = (if n = 0 then S - {t} else S)"
  shows "(\<Sum>x\<in>S'. (f(t := n)) x) = (\<Sum>x\<in>S. f x) - (f t - n)"
proof (cases "t \<in> S")
  case True
  then have "(\<Sum>x\<in>S'. (f(t := n)) x) = n + (\<Sum>x\<in>S - {t}. (f(t := n)) x)"
    using assms by (auto simp: sum.remove)
  also have "(\<Sum>x\<in>S - {t}. (f(t := n)) x) = (\<Sum>x\<in>S - {t}. f x)"
    by (intro sum.cong) auto
  finally show ?thesis using assms True by (simp add: sum.remove [of S t])
next
  case False
  then have "(\<Sum>x\<in>S. (f(t := n)) x) = (\<Sum>x\<in>S. f x)"
    by (intro sum.cong) auto
  with False assms show ?thesis by simp
qed

lemma UN_point: "(\<Union>s. f s) = f t \<union> (\<Union>s\<in>-{t}. f s)"
  by blast

lemma Diff_part: "A \<inter> B = {} \<Longrightarrow> C \<inter> B = {} \<Longrightarrow> (A \<union> B) \<union> C - B = A \<union> C"
  by blast

lemma bt_length_mono:
  assumes "bt_wf m" "bt_wf n" "dom (bt_get m) \<subseteq> dom (bt_get n)"
  shows "length m \<le> length n"
  using card_mono [OF bt.finite_dom [OF assms(2)] assms(3)] assms(1,2)
  by (simp flip: bt.card_dom)

lemma inv_shrink:
  assumes inv: "queue_inv q" and tq: "bt_get (q_tenants q) t = Some tq"
    and part: "mset (tq_work tq) = mset (kept @ gone)"
    and lim: "q_limits q' = q_limits q" and wf: "bt_wf (q_tenants q')"
    and get: "bt_get (q_tenants q') = (bt_get (q_tenants q))
                (t := if kept = [] then None else Some (tq\<lparr>tq_deficit := d, tq_work := kept\<rparr>))"
    and d: "unat d < 100"
    and keys: "q_keys q' = q_keys q - key_set gone"
    and tot: "q_total q' = q_total q - length gone"
    and sched: "distinct (q_schedule q')"
      "set (q_schedule q') = (if kept = [] then set (q_schedule q) - {t} else set (q_schedule q))"
  shows "queue_inv q' \<and> backlog q' = (backlog q)(t := kept)"
proof -
  have b0: "backlog q t = tq_work tq" using tq by (simp add: backlog_def)
  have bl: "backlog q' = (backlog q)(t := kept)"
    using get by (auto simp: backlog_def fun_eq_iff)
  have ms: "set (tq_work tq) = set kept \<union> set gone" "length (tq_work tq) = length kept + length gone"
    using mset_eq_setD [OF part] mset_eq_length [OF part] by simp_all
  have "distinct (map idempotency_key (kept @ gone))"
    using part inv_backlog_ok(1) [OF inv, of t] b0 by (metis mset_map mset_eq_imp_distinct_iff)
  then have ksplit: "key_set (tq_work tq) = key_set kept \<union> key_set gone" "key_set kept \<inter> key_set gone = {}"
    and dk: "distinct (map idempotency_key kept)"
    using ms by (auto simp: key_set_def)
  have other: "key_set (backlog q s) \<inter> key_set (tq_work tq) = {}" if "s \<noteq> t" for s
    using queue_invD(8) [OF inv that] b0 by simp
  have others: "(\<Union>s\<in>-{t}. key_set (backlog q s)) \<inter> key_set gone = {}"
    using other ksplit(1) by fastforce
  have "queue_inv q'"
  proof (rule queue_invI)
    show "limits_is_valid (q_limits q')" "bt_wf (q_tenants q')" "distinct (q_schedule q')"
      using lim wf sched queue_invD(1) [OF inv] by simp_all
    have "dom (bt_get (q_tenants q')) \<subseteq> dom (bt_get (q_tenants q))"
      using get tq by (auto split: if_splits)
    then show "length (q_tenants q') \<le> lim_maximum_tenants (q_limits q')"
      using bt_length_mono [OF wf queue_invD(2) [OF inv]] queue_invD(3) [OF inv] lim by simp
    show "tenant_ok (q_limits q') s x" if "bt_get (q_tenants q') s = Some x" for s x
      using that get lim queue_invD(4) [OF inv, of s x] queue_invD(4) [OF inv tq] ms d dk
      by (auto simp: tenant_ok_def split: if_splits)
    show "s \<in> set (q_schedule q') \<longleftrightarrow> backlog q' s \<noteq> []" for s
      using sched(2) bl queue_invD(6) [OF inv] ms b0 by auto
    have "q_keys q = key_set (tq_work tq) \<union> (\<Union>s\<in>-{t}. key_set (backlog q s))"
      using queue_invD(7) [OF inv] b0 UN_point [of "\<lambda>s. key_set (backlog q s)" t] by simp
    moreover have "(\<Union>s. key_set (backlog q' s)) = key_set kept \<union> (\<Union>s\<in>-{t}. key_set (backlog q s))"
      using bl UN_point [of "\<lambda>s. key_set (backlog q' s)" t] by simp
    ultimately show "q_keys q' = (\<Union>s. key_set (backlog q' s))"
      using keys ksplit(1) Diff_part [OF ksplit(2) others] by simp
    show "key_set (backlog q' s) \<inter> key_set (backlog q' s') = {}" if "s \<noteq> s'" for s s'
      using queue_invD(8) [OF inv that] that bl other ksplit by auto
    have "(\<Sum>s\<in>set (q_schedule q'). ((\<lambda>s. length (backlog q s))(t := length kept)) s) =
        (\<Sum>s\<in>set (q_schedule q). length (backlog q s)) - (length (backlog q t) - length kept)"
    proof (rule sum_upd)
      show "length (backlog q t) = 0" if "t \<notin> set (q_schedule q)"
        using that queue_invD(6) [OF inv] by simp
    qed (use ms b0 sched(2) in simp_all)
    moreover have "((\<lambda>s. length (backlog q s))(t := length kept)) = (\<lambda>s. length (backlog q' s))"
      by (simp add: bl fun_eq_iff)
    ultimately show "q_total q' = (\<Sum>s\<in>set (q_schedule q'). length (backlog q' s))"
      using tot ms b0 queue_invD(9) [OF inv] by simp
    show "q_total q' \<le> lim_global (q_limits q')"
      using tot lim queue_invD(10) [OF inv] by simp
  qed
  with bl show ?thesis by simp
qed

subsection \<open>Storing a tenant and dropping an idle one\<close>

lemma put_tenant_simps [simp]:
  "q_limits (put_tenant q t tq) = q_limits q" "q_keys (put_tenant q t tq) = q_keys q"
  "q_total (put_tenant q t tq) = q_total q" "q_schedule (put_tenant q t tq) = q_schedule q"
  "q_tenants (put_tenant q t tq) = bt_insert t tq (q_tenants q)"
  by (simp_all add: put_tenant_def)

text \<open>The common tail of \<open>cancel\<close> and \<open>expire\<close>.\<close>

lemma remove_empty_shrink:
  assumes inv: "queue_inv q" and tq: "bt_get (q_tenants q) t = Some tq"
    and part: "mset (tq_work tq) = mset (kept @ gone)"
    and q': "q' = remove_empty_tenant
      ((put_tenant q t (tq\<lparr>tq_work := kept\<rparr>))\<lparr>q_keys := q_keys q - key_set gone,
        q_total := q_total q - length gone\<rparr>) t"
  shows "queue_inv q' \<and> backlog q' = (backlog q)(t := kept) \<and>
    bt_get (q_tenants q') = (bt_get (q_tenants q))
      (t := if kept = [] then None else Some (tq\<lparr>tq_work := kept\<rparr>)) \<and>
    q_schedule q' = filter (\<lambda>s. s \<noteq> t \<or> kept \<noteq> []) (q_schedule q) \<and> q_limits q' = q_limits q"
proof -
  note wf = queue_invD(2) [OF inv]
  have get: "bt_get (q_tenants q') = (bt_get (q_tenants q))
      (t := if kept = [] then None else Some (tq\<lparr>tq_deficit := tq_deficit tq, tq_work := kept\<rparr>))"
    using wf by (simp add: q' remove_empty_tenant_def bt_simps)
  have sch: "q_schedule q' = filter (\<lambda>s. s \<noteq> t \<or> kept \<noteq> []) (q_schedule q)"
    using wf by (simp add: q' remove_empty_tenant_def bt_simps)
  have "queue_inv q' \<and> backlog q' = (backlog q)(t := kept)"
  proof (rule inv_shrink [OF inv tq part _ _ get])
    show "q_limits q' = q_limits q" "bt_wf (q_tenants q')" "q_keys q' = q_keys q - key_set gone"
      "q_total q' = q_total q - length gone"
      using wf by (simp_all add: q' remove_empty_tenant_def bt_simps)
    show "unat (tq_deficit tq) < 100"
      using queue_invD(4) [OF inv tq] by (simp add: tenant_ok_def)
    show "distinct (q_schedule q')"
      "set (q_schedule q') = (if kept = [] then set (q_schedule q) - {t} else set (q_schedule q))"
      using queue_invD(5) [OF inv] by (auto simp: sch)
  qed
  moreover have "q_limits q' = q_limits q" by (simp add: q' remove_empty_tenant_def)
  ultimately show ?thesis using get sch by simp
qed

subsection \<open>Weights and enqueue\<close>

lemma inv_put_idle:
  assumes inv: "queue_inv q" and ok: "tenant_ok (q_limits q) t tq" and work: "tq_work tq = backlog q t"
    and room: "bt_get (q_tenants q) t = None \<Longrightarrow> length (q_tenants q) < lim_maximum_tenants (q_limits q)"
  shows "queue_inv (put_tenant q t tq) \<and> backlog (put_tenant q t tq) = backlog q"
proof -
  note wf = queue_invD(2) [OF inv]
  have bl: "backlog (put_tenant q t tq) = backlog q"
    using wf work by (auto simp: backlog_def bt_simps fun_eq_iff)
  have "queue_inv (put_tenant q t tq)"
  proof (rule queue_invI, unfold bl put_tenant_simps)
    show "length (bt_insert t tq (q_tenants q)) \<le> lim_maximum_tenants (q_limits q)"
      using room queue_invD(3) [OF inv] wf by (auto simp: length_bt_insert)
    show "tenant_ok (q_limits q) s x" if "bt_get (bt_insert t tq (q_tenants q)) s = Some x" for s x
      using that wf ok queue_invD(4) [OF inv] by (auto simp: bt_simps split: if_splits)
  qed (use inv queue_invD [OF inv] in \<open>simp_all add: bt_wf_insert\<close>)
  with bl show ?thesis by simp
qed

lemma set_tenant_weight_inv:
  assumes inv: "queue_inv q" and eq: "set_tenant_weight q t wt = (r, q')"
  shows "queue_inv q' \<and> backlog q' = backlog q \<and> q_keys q' = q_keys q \<and> q_total q' = q_total q \<and>
    q_limits q' = q_limits q \<and> q_schedule q' = q_schedule q \<and> (\<forall>e. r = Err e \<longrightarrow> q' = q) \<and>
    (r = Ok () \<longrightarrow> (\<exists>tq. bt_get (q_tenants q') t = Some tq \<and> tq_weight tq = wt \<and> tq_work tq = backlog q t))"
proof (cases "1 \<le> wt \<and> wt \<le> 100")
  case False
  with eq inv show ?thesis by (auto simp: set_tenant_weight_def)
next
  case True
  then have wt: "1 \<le> unat wt" "unat wt \<le> 100" by (simp_all add: word_le_nat_alt)
  note wf = queue_invD(2) [OF inv]
  show ?thesis
  proof (cases "bt_get (q_tenants q) t")
    case None
    then have "backlog q t = []" by (simp add: backlog_def)
    with None True eq inv wt wf show ?thesis
      using inv_put_idle [OF inv, of t "\<lparr>tq_weight = wt, tq_deficit = 0, tq_work = []\<rparr>"]
      by (auto simp: set_tenant_weight_def tenant_ok_def bt_simps split: if_splits)
  next
    case (Some tq)
    then have "backlog q t = tq_work tq" by (simp add: backlog_def)
    moreover have "tenant_ok (q_limits q) t (tq\<lparr>tq_weight := wt\<rparr>)"
      using queue_invD(4) [OF inv Some] wt by (simp add: tenant_ok_def)
    ultimately show ?thesis
      using inv_put_idle [OF inv, of t "tq\<lparr>tq_weight := wt\<rparr>"] Some True eq wf
      by (auto simp: set_tenant_weight_def bt_simps)
  qed
qed

lemma inv_append:
  assumes inv: "queue_inv q" and tq: "bt_get (q_tenants q) t = Some tq"
    and w: "work_ok t w" "idempotency_key w \<notin> q_keys q"
    and room: "q_total q < lim_global (q_limits q)" "length (tq_work tq) < lim_per_tenant (q_limits q)"
    and q': "q' = (put_tenant q t (tq\<lparr>tq_work := tq_work tq @ [w]\<rparr>))
      \<lparr>q_schedule := (if tq_work tq = [] then q_schedule q @ [t] else q_schedule q),
       q_keys := insert (idempotency_key w) (q_keys q), q_total := q_total q + 1\<rparr>"
  shows "queue_inv q' \<and> backlog q' = (backlog q)(t := backlog q t @ [w])"
proof -
  note wf = queue_invD(2) [OF inv]
  have b0: "backlog q t = tq_work tq" using tq by (simp add: backlog_def)
  have bl: "backlog q' = (backlog q)(t := tq_work tq @ [w])"
    using wf by (auto simp: q' backlog_def bt_simps fun_eq_iff)
  have new: "idempotency_key w \<notin> key_set (backlog q s)" for s
    using w(2) queue_invD(7) [OF inv] by auto
  have "queue_inv q'"
  proof (rule queue_invI)
    show "limits_is_valid (q_limits q')" "bt_wf (q_tenants q')"
      using queue_invD(1) [OF inv] wf by (simp_all add: q' bt_wf_insert)
    show "length (q_tenants q') \<le> lim_maximum_tenants (q_limits q')"
      using queue_invD(3) [OF inv] wf tq by (simp add: q' length_bt_insert)
    show "tenant_ok (q_limits q') s x" if "bt_get (q_tenants q') s = Some x" for s x
      using that wf queue_invD(4) [OF inv, of s x] queue_invD(4) [OF inv tq] new [of t] w(1) room(2) b0
      by (auto simp: q' bt_simps tenant_ok_def key_set_def split: if_splits)
    show "distinct (q_schedule q')"
      using queue_invD(5) [OF inv] queue_invD(6) [OF inv, of t] b0 by (simp add: q')
    show "s \<in> set (q_schedule q') \<longleftrightarrow> backlog q' s \<noteq> []" for s
      using queue_invD(6) [OF inv] b0 bl by (auto simp: q')
    have "(\<Union>s. key_set (backlog q' s)) = insert (idempotency_key w) (\<Union>s. key_set (backlog q s))"
      unfolding UN_point [of "\<lambda>s. key_set (backlog q' s)" t] UN_point [of "\<lambda>s. key_set (backlog q s)" t]
      by (simp add: bl b0 key_set_def)
    then show "q_keys q' = (\<Union>s. key_set (backlog q' s))"
      using queue_invD(7) [OF inv] by (simp add: q')
    show "key_set (backlog q' s) \<inter> key_set (backlog q' s') = {}" if "s \<noteq> s'" for s s'
      using queue_invD(8) [OF inv that] that bl b0 new by auto
    have set': "set (q_schedule q') = insert t (set (q_schedule q))"
      using queue_invD(6) [OF inv, of t] b0 by (auto simp: q')
    have "(\<Sum>s\<in>insert t (set (q_schedule q)). length (backlog q' s)) =
        length (backlog q' t) + (\<Sum>s\<in>set (q_schedule q) - {t}. length (backlog q' s))"
      by (simp add: sum.insert_remove)
    also have "(\<Sum>s\<in>set (q_schedule q) - {t}. length (backlog q' s)) =
        (\<Sum>s\<in>set (q_schedule q) - {t}. length (backlog q s))"
      by (intro sum.cong) (auto simp: bl)
    also have "length (backlog q' t) + \<dots> = Suc (\<Sum>s\<in>insert t (set (q_schedule q)). length (backlog q s))"
      by (simp add: sum.insert_remove bl b0)
    also have "(\<Sum>s\<in>insert t (set (q_schedule q)). length (backlog q s)) = q_total q"
      using queue_invD(6) [OF inv, of t] queue_invD(9) [OF inv]
      by (cases "t \<in> set (q_schedule q)") (simp_all add: insert_absorb)
    finally show "q_total q' = (\<Sum>s\<in>set (q_schedule q'). length (backlog q' s))"
      unfolding set' by (simp add: q')
    show "q_total q' \<le> lim_global (q_limits q')" using room by (simp add: q')
  qed
  with bl b0 show ?thesis by simp
qed

text \<open>
  The six ways \<open>enqueue\<close> ends: it never panics, an error leaves every tenant's backlog as it
  was, and success appends the work to its tenant's backlog.
\<close>

lemma enqueue_cases:
  assumes inv: "queue_inv q"
  obtains e q' where "enqueue q w now = Done (Err e, q')" "q' = q"
  | q' where "enqueue q w now = Done (Ok (), q')" "queue_inv q'" "work_is_valid w now"
      "idempotency_key w \<notin> q_keys q" "q_limits q' = q_limits q"
      "q_keys q' = insert (idempotency_key w) (q_keys q)" "q_total q' = q_total q + 1"
      "backlog q' = (backlog q)(work_tenant w := backlog q (work_tenant w) @ [w])"
proof -
  let ?t = "work_tenant w"
  define r where "r = (if \<not> bt_contains (q_tenants q) ?t then set_tenant_weight q ?t 1 else (Ok (), q))"
  obtain res q1 where r1: "r = (res, q1)" by (cases r)
  show thesis
  proof (cases "work_is_valid w now \<and> idempotency_key w \<notin> q_keys q \<and> q_total q < lim_global (q_limits q)")
    case False
    then have "\<exists>e. enqueue q w now = Done (Err e, q)" by (auto simp: enqueue_def)
    then show ?thesis using that(1) by blast
  next
    case pre: True
    have q1: "queue_inv q1 \<and> backlog q1 = backlog q \<and> q_keys q1 = q_keys q \<and> q_total q1 = q_total q \<and>
      q_limits q1 = q_limits q \<and> (\<forall>e. res = Err e \<longrightarrow> q1 = q) \<and>
      (res = Ok () \<longrightarrow> (\<exists>tq. bt_get (q_tenants q1) ?t = Some tq \<and> tq_work tq = backlog q ?t))"
      using set_tenant_weight_inv [OF inv, of ?t 1 res q1] r1 inv
      by (auto simp: r_def bt_contains_def backlog_def split: if_splits)
    show ?thesis
    proof (cases res)
      case (Inl e)
      with q1 r1 pre show ?thesis
        by (intro that(1) [of e q, OF _ refl]) (simp add: enqueue_def flip: r_def)
    next
      case (Inr u)
      with q1 obtain tq where tq: "bt_get (q_tenants q1) ?t = Some tq" "tq_work tq = backlog q ?t" by auto
      show ?thesis
      proof (cases "length (tq_work tq) < lim_per_tenant (q_limits q)")
        case False
        have "q1 = q"
        proof (rule ccontr)
          assume "q1 \<noteq> q"
          with r1 have "backlog q ?t = []"
            by (auto simp: r_def bt_contains_def backlog_def split: if_splits)
          with False tq queue_invD(1) [OF inv] show False by (simp add: limits_is_valid_def)
        qed
        with False Inr q1 r1 pre tq show ?thesis
          by (intro that(1) [of TenantCapacity q, OF _ refl]) (simp add: enqueue_def flip: r_def)
      next
        case True
        define q' where "q' = (put_tenant q1 ?t (tq\<lparr>tq_work := tq_work tq @ [w]\<rparr>))
          \<lparr>q_schedule := (if tq_work tq = [] then q_schedule q1 @ [?t] else q_schedule q1),
           q_keys := insert (idempotency_key w) (q_keys q1), q_total := q_total q1 + 1\<rparr>"
        have "work_ok ?t w" using pre by (simp add: work_ok_def work_is_valid_def)
        with q1 tq pre True have "queue_inv q' \<and> backlog q' = (backlog q1)(?t := backlog q1 ?t @ [w])"
          by (intro inv_append [OF _ tq(1) _ _ _ _ q'_def]) simp_all
        moreover have "enqueue q w now = Done (Ok (), q')"
          using pre r1 Inr tq True q1 by (simp add: enqueue_def q'_def flip: r_def)
        moreover have "q_limits q' = q_limits q" "q_keys q' = insert (idempotency_key w) (q_keys q)"
          "q_total q' = q_total q + 1" using q1 by (simp_all add: q'_def)
        ultimately show ?thesis using that(2) [of q'] q1 pre by metis
      qed
    qed
  qed
qed

subsection \<open>Cancel\<close>

lemma cancel_absent: "key \<notin> q_keys q \<Longrightarrow> cancel q key = Done (None, q)"
  by (simp add: cancel_def)

lemma find_tenant:
  assumes inv: "queue_inv q" and key: "key \<in> q_keys q"
  obtains t tq where "find (\<lambda>e. list_ex (\<lambda>w. idempotency_key w = key) (tq_work (snd e))) (q_tenants q) = Some (t, tq)"
    and "bt_get (q_tenants q) t = Some tq" and "\<exists>w \<in> set (tq_work tq). idempotency_key w = key"
proof -
  let ?P = "\<lambda>e. list_ex (\<lambda>w. idempotency_key w = key) (tq_work (snd e))"
  from key queue_invD(7) [OF inv] obtain s w where "w \<in> set (backlog q s)" "idempotency_key w = key"
    by (auto simp: key_set_def)
  then obtain tq' where "bt_get (q_tenants q) s = Some tq'" "w \<in> set (tq_work tq')"
    by (cases "bt_get (q_tenants q) s") (auto simp: backlog_def)
  with \<open>idempotency_key w = key\<close> have "\<exists>e \<in> set (q_tenants q). ?P e"
    using queue_invD(2) [OF inv] by (auto simp: bt_get_in_set list_ex_iff intro!: bexI [of _ "(s, tq')"])
  then obtain e where e: "find ?P (q_tenants q) = Some e"
    by (metis find_None_iff option.exhaust)
  then have mem: "e \<in> set (q_tenants q)" and P: "?P e"
    by (auto simp: find_Some_iff)
  show thesis
  proof (rule that [of "fst e" "snd e"])
    show "find ?P (q_tenants q) = Some (fst e, snd e)" using e by simp
    show "bt_get (q_tenants q) (fst e) = Some (snd e)"
      using mem queue_invD(2) [OF inv] by (simp add: bt_get_in_set)
    show "\<exists>w \<in> set (tq_work (snd e)). idempotency_key w = key" using P by (simp add: list_ex_iff)
  qed
qed

lemma cancel_present:
  assumes inv: "queue_inv q" and key: "key \<in> q_keys q"
  obtains t w before after q' where "cancel q key = Done (Some w, q')" "idempotency_key w = key"
    "backlog q t = before @ w # after" "queue_inv q'" "backlog q' = (backlog q)(t := before @ after)"
    "q_keys q' = q_keys q - {key}" "q_total q' = q_total q - 1" "q_limits q' = q_limits q"
proof -
  obtain t tq
    where f: "find (\<lambda>e. list_ex (\<lambda>w. idempotency_key w = key) (tq_work (snd e))) (q_tenants q) = Some (t, tq)"
    and tq: "bt_get (q_tenants q) t = Some tq" and ex: "\<exists>w \<in> set (tq_work tq). idempotency_key w = key" by (rule find_tenant [OF inv key])
  from ex have "List.extract (\<lambda>w. idempotency_key w = key) (tq_work tq) \<noteq> None"
    by (simp add: extract_None_iff)
  then obtain before w after
    where x: "List.extract (\<lambda>w. idempotency_key w = key) (tq_work tq) = Some (before, w, after)"
    by auto
  then have sp: "tq_work tq = before @ w # after" "idempotency_key w = key"
    by (simp_all add: extract_Some_iff)
  have b0: "backlog q t = tq_work tq" using tq by (simp add: backlog_def)
  then have "q_total q \<noteq> 0" using total_ge_backlog [OF inv, of t] sp by auto
  define q' where "q' = remove_empty_tenant
      ((put_tenant q t (tq\<lparr>tq_work := before @ after\<rparr>))\<lparr>q_keys := q_keys q - key_set [w],
        q_total := q_total q - length [w]\<rparr>) t"
  have "cancel q key = Done (Some w, q')"
    using key f tq x sp(2) \<open>q_total q \<noteq> 0\<close> by (simp add: cancel_def q'_def)
  moreover have "mset (tq_work tq) = mset ((before @ after) @ [w])" using sp by simp
  note remove_empty_shrink [OF inv tq this q'_def]
  moreover have "q_keys q' = q_keys q - {key}" "q_total q' = q_total q - 1"
    using sp(2) by (simp_all add: q'_def remove_empty_tenant_def)
  ultimately show thesis using sp b0 by (intro that [of w q' t before after]) simp_all
qed

subsection \<open>Expiry\<close>

abbreviation unexpired :: "u64 \<Rightarrow> queued_work \<Rightarrow> bool" where
  "unexpired now w \<equiv> deadline_unix_ms w > now"

abbreviation is_expired :: "u64 \<Rightarrow> queued_work \<Rightarrow> bool" where
  "is_expired now w \<equiv> deadline_unix_ms w \<le> now"

lemma expire_work_eq:
  "length (filter (is_expired now) ws) \<le> n \<Longrightarrow>
   expire_work now ws (keys, n, out, kept) =
     Done (keys - key_set (filter (is_expired now) ws), n - length (filter (is_expired now) ws),
           out @ filter (is_expired now) ws, kept @ filter (unexpired now) ws)"
proof (induction ws arbitrary: keys n out kept)
  case (Cons w ws)
  have del: "keys - {idempotency_key w} - A = keys - insert (idempotency_key w) A" for A by blast
  show ?case
  proof (cases "is_expired now w")
    case True
    with Cons.prems Cons.IH [of "n - 1" "keys - {idempotency_key w}" "out @ [w]" kept] show ?thesis
      by (auto simp: del key_set_def)
  next
    case False
    then have "unexpired now w" by simp
    with Cons.prems Cons.IH [of n keys out "kept @ [w]"] show ?thesis
      by (simp del: not_le add: not_less [symmetric])
  qed
qed simp

lemma mset_expired: "mset ws = mset (filter (unexpired now) ws @ filter (is_expired now) ws)"
  by (induction ws) auto

lemma expire_tenant_ok:
  assumes inv: "queue_inv q" and tq: "bt_get (q_tenants q) t = Some tq"
  obtains q' where "expire_tenant now (q, out) t = Done (q', out @ filter (is_expired now) (backlog q t))"
    "queue_inv q'" "backlog q' = (backlog q)(t := filter (unexpired now) (backlog q t))"
    "bt_get (q_tenants q') = (bt_get (q_tenants q))
      (t := if filter (unexpired now) (backlog q t) = [] then None
            else Some (tq\<lparr>tq_work := filter (unexpired now) (backlog q t)\<rparr>))"
    "q_schedule q' = filter (\<lambda>s. s \<noteq> t \<or> filter (unexpired now) (backlog q t) \<noteq> []) (q_schedule q)"
    "q_limits q' = q_limits q"
proof -
  have b0: "backlog q t = tq_work tq" using tq by (simp add: backlog_def)
  have le: "length (filter (is_expired now) (tq_work tq)) \<le> q_total q"
    using order_trans [OF length_filter_le total_ge_backlog [OF inv, of t]] b0 by simp
  define q' where "q' = remove_empty_tenant
      ((put_tenant q t (tq\<lparr>tq_work := filter (unexpired now) (tq_work tq)\<rparr>))
        \<lparr>q_keys := q_keys q - key_set (filter (is_expired now) (tq_work tq)),
         q_total := q_total q - length (filter (is_expired now) (tq_work tq))\<rparr>) t"
  have "expire_tenant now (q, out) t = Done (q', out @ filter (is_expired now) (backlog q t))"
    using tq b0 by (simp add: expire_tenant_def expire_work_eq [OF le] q'_def)
  moreover note remove_empty_shrink [OF inv tq mset_expired q'_def]
  ultimately show thesis using b0 by (intro that [of q']) simp_all
qed

lemma expire_fold_ok:
  assumes "queue_inv q" "distinct ts" "\<forall>t \<in> set ts. bt_get (q_tenants q) t \<noteq> None"
  shows "\<exists>q'. exec_fold (expire_tenant now) (q, out) ts =
        Done (q', out @ concat (map (\<lambda>t. filter (is_expired now) (backlog q t)) ts)) \<and> queue_inv q' \<and>
      (\<forall>t. backlog q' t = (if t \<in> set ts then filter (unexpired now) (backlog q t) else backlog q t)) \<and>
      (\<forall>t tq. bt_get (q_tenants q) t = Some tq \<longrightarrow> backlog q' t \<noteq> [] \<longrightarrow>
         bt_get (q_tenants q') t = Some (tq\<lparr>tq_work := backlog q' t\<rparr>)) \<and>
      q_schedule q' = filter (\<lambda>s. s \<notin> set ts \<or> filter (unexpired now) (backlog q s) \<noteq> []) (q_schedule q) \<and>
      q_limits q' = q_limits q"
  using assms
proof (induction ts arbitrary: q out)
  case Nil
  then show ?case by (auto simp: backlog_def)
next
  case (Cons t ts)
  obtain tq where tq: "bt_get (q_tenants q) t = Some tq" using Cons.prems(3) by auto
  obtain q1 where q1: "expire_tenant now (q, out) t = Done (q1, out @ filter (is_expired now) (backlog q t))"
    "queue_inv q1" "backlog q1 = (backlog q)(t := filter (unexpired now) (backlog q t))"
    "bt_get (q_tenants q1) = (bt_get (q_tenants q))
      (t := if filter (unexpired now) (backlog q t) = [] then None
            else Some (tq\<lparr>tq_work := filter (unexpired now) (backlog q t)\<rparr>))"
    "q_schedule q1 = filter (\<lambda>s. s \<noteq> t \<or> filter (unexpired now) (backlog q t) \<noteq> []) (q_schedule q)"
    "q_limits q1 = q_limits q"
    by (rule expire_tenant_ok [OF Cons.prems(1) tq])
  have t: "t \<notin> set ts" "distinct ts" using Cons.prems(2) by auto
  have "\<forall>s \<in> set ts. bt_get (q_tenants q1) s \<noteq> None"
    using Cons.prems(3) q1(4) t by auto
  from Cons.IH [OF q1(2) t(2) this, of "out @ filter (is_expired now) (backlog q t)"]
  obtain q' where q': "exec_fold (expire_tenant now) (q1, out @ filter (is_expired now) (backlog q t)) ts =
        Done (q', (out @ filter (is_expired now) (backlog q t)) @
          concat (map (\<lambda>t. filter (is_expired now) (backlog q1 t)) ts))"
    "queue_inv q'"
    "\<forall>s. backlog q' s = (if s \<in> set ts then filter (unexpired now) (backlog q1 s) else backlog q1 s)"
    "\<forall>s tq. bt_get (q_tenants q1) s = Some tq \<longrightarrow> backlog q' s \<noteq> [] \<longrightarrow>
       bt_get (q_tenants q') s = Some (tq\<lparr>tq_work := backlog q' s\<rparr>)"
    "q_schedule q' = filter (\<lambda>s. s \<notin> set ts \<or> filter (unexpired now) (backlog q1 s) \<noteq> []) (q_schedule q1)"
    "q_limits q' = q_limits q1"
    by blast
  have same: "map (\<lambda>t. filter (is_expired now) (backlog q1 t)) ts = map (\<lambda>t. filter (is_expired now) (backlog q t)) ts"
    using t(1) q1(3) by auto
  have kept: "bt_get (q_tenants q') s = Some (x\<lparr>tq_work := backlog q' s\<rparr>)"
    if "bt_get (q_tenants q) s = Some x" "backlog q' s \<noteq> []" for s x
    using that q'(3,4) q1(3,4) tq t(1) by (cases "s = t") (auto split: if_splits)
  have sch: "q_schedule q' = filter (\<lambda>s. s \<notin> set (t # ts) \<or> filter (unexpired now) (backlog q s) \<noteq> []) (q_schedule q)"
    unfolding q'(5) q1(5) filter_filter using t(1) q1(3) by (intro filter_cong) auto
  have res: "exec_fold (expire_tenant now) (q, out) (t # ts) =
      Done (q', out @ concat (map (\<lambda>t. filter (is_expired now) (backlog q t)) (t # ts)))"
    using q1(1) q'(1) [unfolded same] by simp
  have bl: "backlog q' s = (if s \<in> set (t # ts) then filter (unexpired now) (backlog q s) else backlog q s)" for s
    using q1(3) q'(3) t(1) by simp
  show ?case
    using res q'(2) bl kept sch q1(6) q'(6) by (intro exI [of _ q'] conjI allI impI) simp_all
qed

lemma expire_ok:
  assumes "queue_inv q"
  obtains q' where "expire q now =
      Done (concat (map (\<lambda>t. filter (is_expired now) (backlog q t)) (bt_keys (q_tenants q))), q')"
    "queue_inv q'" "\<And>t. backlog q' t = filter (unexpired now) (backlog q t)"
    "\<And>t tq. bt_get (q_tenants q) t = Some tq \<Longrightarrow> backlog q' t \<noteq> [] \<Longrightarrow>
       bt_get (q_tenants q') t = Some (tq\<lparr>tq_work := backlog q' t\<rparr>)"
    "q_schedule q' = filter (\<lambda>s. filter (unexpired now) (backlog q s) \<noteq> []) (q_schedule q)"
    "q_limits q' = q_limits q"
proof -
  note wf = queue_invD(2) [OF assms]
  have keys: "set (bt_keys (q_tenants q)) = dom (bt_get (q_tenants q))" by (rule bt.keys_dom [OF wf])
  have idle: "backlog q t = []" if "t \<notin> set (bt_keys (q_tenants q))" for t
    using that keys by (simp add: backlog_def domIff)
  have "\<forall>t \<in> set (bt_keys (q_tenants q)). bt_get (q_tenants q) t \<noteq> None" using keys by auto
  from expire_fold_ok [OF assms bt.distinct_keys [OF wf] this, of now "[]"]
  obtain q' where q': "exec_fold (expire_tenant now) (q, []) (bt_keys (q_tenants q)) =
        Done (q', [] @ concat (map (\<lambda>t. filter (is_expired now) (backlog q t)) (bt_keys (q_tenants q))))"
    "queue_inv q'"
    "\<forall>t. backlog q' t = (if t \<in> set (bt_keys (q_tenants q)) then filter (unexpired now) (backlog q t) else backlog q t)"
    "\<forall>t tq. bt_get (q_tenants q) t = Some tq \<longrightarrow> backlog q' t \<noteq> [] \<longrightarrow>
       bt_get (q_tenants q') t = Some (tq\<lparr>tq_work := backlog q' t\<rparr>)"
    "q_schedule q' = filter (\<lambda>s. s \<notin> set (bt_keys (q_tenants q)) \<or> filter (unexpired now) (backlog q s) \<noteq> []) (q_schedule q)"
    "q_limits q' = q_limits q" by blast
  show thesis
  proof (rule that [of q'])
    show "backlog q' t = filter (unexpired now) (backlog q t)" for t
      using q'(3) idle [of t] by simp
    show "q_schedule q' = filter (\<lambda>s. filter (unexpired now) (backlog q s) \<noteq> []) (q_schedule q)"
      unfolding q'(5) using idle queue_invD(6) [OF assms] by (intro filter_cong) auto
  qed (use q' in \<open>simp_all add: expire_def\<close>)
qed

end
