(* ===== verification/Fair_Queue_Service.thy ===== *)
theory Fair_Queue_Service
  imports Fair_Queue_Correct
begin

text \<open>
  Service of \<open>BoundedFairQueue\<close>: the deficit round robin of \<open>dequeue\<close> terminates with work
  whenever unexpired work is queued, no operation panics, and no tenant with work is
  passed over more than a bounded number of times.
\<close>

subsection \<open>One visit of the round robin\<close>

definition deficit_of :: "fair_queue \<Rightarrow> tenant_id \<Rightarrow> nat" where
  "deficit_of q t = (case bt_get (q_tenants q) t of None \<Rightarrow> 0 | Some tq \<Rightarrow> unat (tq_deficit tq))"

definition credited :: "tenant_queue \<Rightarrow> u32" where
  "credited tq = min (saturating_add (tq_deficit tq) (ucast (tq_weight tq))) (FAIRNESS_QUANTUM * 2)"

lemma unat_quantum [simp]: "unat FAIRNESS_QUANTUM = 100" "unat (FAIRNESS_QUANTUM * 2) = 200"
  by (simp_all add: FAIRNESS_QUANTUM_def)

text \<open>Under the invariant neither the saturation nor the cap of twice the quantum takes effect.\<close>

lemma unat_credited:
  assumes "tenant_ok l t tq"
  shows "unat (credited tq) = unat (tq_deficit tq) + unat (tq_weight tq)"
proof -
  have "unat (ucast (tq_weight tq) :: u32) = unat (tq_weight tq)"
    by (rule unat_ucast_widen) simp
  with assms show ?thesis
    by (simp add: credited_def unat_min unat_saturating_add tenant_ok_def)
qed

lemma credited_less: "tenant_ok l t tq \<Longrightarrow>
    credited tq < FAIRNESS_QUANTUM \<longleftrightarrow> unat (tq_deficit tq) + unat (tq_weight tq) < 100"
  by (simp add: word_less_nat_alt unat_credited)

lemma credited_left:
  assumes "tenant_ok l t tq" and "\<not> credited tq < FAIRNESS_QUANTUM"
  shows "unat (credited tq - FAIRNESS_QUANTUM) < 100"
proof -
  have "FAIRNESS_QUANTUM \<le> credited tq" using assms(2) by simp
  then have "unat (credited tq - FAIRNESS_QUANTUM) = unat (credited tq) - 100"
    by (simp add: unat_sub)
  with unat_credited [OF assms(1)] assms(1) show ?thesis by (auto simp: tenant_ok_def)
qed

lemma inv_head:
  assumes "queue_inv q" "q_schedule q = t # rest" "bt_get (q_tenants q) t = Some tq"
  shows "tq_work tq = hd (tq_work tq) # tl (tq_work tq)"
  using queue_invD(6) [OF assms(1), of t] assms(2,3) by (simp add: backlog_def)

definition rotated :: "fair_queue \<Rightarrow> tenant_id \<Rightarrow> tenant_id list \<Rightarrow> tenant_queue \<Rightarrow> fair_queue" where
  "rotated q t rest tq = (put_tenant q t (tq\<lparr>tq_deficit := credited tq\<rparr>))\<lparr>q_schedule := rest @ [t]\<rparr>"

definition served :: "fair_queue \<Rightarrow> tenant_id \<Rightarrow> tenant_id list \<Rightarrow> tenant_queue \<Rightarrow> fair_queue" where
  "served q t rest tq =
     (let q1 = (put_tenant q t (tq\<lparr>tq_deficit := credited tq - FAIRNESS_QUANTUM, tq_work := tl (tq_work tq)\<rparr>))
            \<lparr>q_keys := q_keys q - {idempotency_key (hd (tq_work tq))}, q_total := q_total q - 1\<rparr>
      in if tl (tq_work tq) = [] then q1\<lparr>q_tenants := bt_remove t (q_tenants q1), q_schedule := rest\<rparr>
         else q1\<lparr>q_schedule := rest @ [t]\<rparr>)"

lemma dequeue_loop_visit:
  assumes inv: "queue_inv q" and sch: "q_schedule q = t # rest"
    and tq: "bt_get (q_tenants q) t = Some tq"
  shows "dequeue_loop (Suc n) q =
    (if credited tq < FAIRNESS_QUANTUM then dequeue_loop n (rotated q t rest tq)
     else Done (Some (hd (tq_work tq)), served q t rest tq))"
proof -
  obtain w ws where w: "tq_work tq = w # ws" using inv_head [OF inv sch tq] by blast
  have "q_total q \<noteq> 0"
    using total_ge_backlog [OF inv, of t] tq w by (auto simp: backlog_def)
  moreover have "\<not> FAIRNESS_QUANTUM \<le> credited tq - FAIRNESS_QUANTUM" if "\<not> credited tq < FAIRNESS_QUANTUM"
    using credited_left [OF queue_invD(4) [OF inv tq] that] by (simp add: word_le_nat_alt)
  ultimately show ?thesis
    using sch tq w by (simp add: Let_def rotated_def served_def flip: credited_def)
qed

lemma rotated_inv:
  assumes inv: "queue_inv q" and sch: "q_schedule q = t # rest"
    and tq: "bt_get (q_tenants q) t = Some tq" and low: "credited tq < FAIRNESS_QUANTUM"
  shows "queue_inv (rotated q t rest tq) \<and> backlog (rotated q t rest tq) = backlog q"
proof -
  note wf = queue_invD(2) [OF inv]
  have b0: "backlog q t = tq_work tq" using tq by (simp add: backlog_def)
  have ne: "tq_work tq \<noteq> []" using queue_invD(6) [OF inv, of t] sch b0 by simp
  have "queue_inv (rotated q t rest tq) \<and> backlog (rotated q t rest tq) = (backlog q)(t := tq_work tq)"
  proof (rule inv_shrink [OF inv tq, where kept = "tq_work tq" and gone = "[]" and d = "credited tq"])
    show "unat (credited tq) < 100" using low by (simp add: word_less_nat_alt)
    show "distinct (q_schedule (rotated q t rest tq))"
      using queue_invD(5) [OF inv] sch by (simp add: rotated_def)
  qed (use ne wf sch in \<open>simp_all add: rotated_def bt_simps\<close>)
  with b0 show ?thesis by (simp add: fun_upd_idem)
qed

lemma served_inv:
  assumes inv: "queue_inv q" and sch: "q_schedule q = t # rest"
    and tq: "bt_get (q_tenants q) t = Some tq" and high: "\<not> credited tq < FAIRNESS_QUANTUM"
  shows "queue_inv (served q t rest tq) \<and> backlog (served q t rest tq) = (backlog q)(t := tl (tq_work tq))"
proof -
  note wf = queue_invD(2) [OF inv]
  obtain w ws where w: "tq_work tq = w # ws" using inv_head [OF inv sch tq] by blast
  show ?thesis
  proof (rule inv_shrink [OF inv tq, where kept = "tl (tq_work tq)" and gone = "[w]"
      and d = "credited tq - FAIRNESS_QUANTUM"])
    show "unat (credited tq - FAIRNESS_QUANTUM) < 100"
      by (rule credited_left [OF queue_invD(4) [OF inv tq] high])
    show "distinct (q_schedule (served q t rest tq))"
      using queue_invD(5) [OF inv] sch by (simp add: served_def Let_def)
    show "set (q_schedule (served q t rest tq)) =
        (if tl (tq_work tq) = [] then set (q_schedule q) - {t} else set (q_schedule q))"
      using queue_invD(5) [OF inv] sch by (auto simp: served_def Let_def)
    show "bt_get (q_tenants (served q t rest tq)) = (bt_get (q_tenants q))(t := if tl (tq_work tq) = [] then None
       else Some (tq\<lparr>tq_deficit := credited tq - FAIRNESS_QUANTUM, tq_work := tl (tq_work tq)\<rparr>))"
      using wf by (simp add: served_def Let_def bt_simps)
    show "bt_wf (q_tenants (served q t rest tq))" using wf by (simp add: served_def Let_def bt_simps)
  qed (use w in \<open>simp_all add: served_def Let_def\<close>)
qed

subsection \<open>The loop finds work within its attempts\<close>

definition slack :: "fair_queue \<Rightarrow> nat" where
  "slack q = (\<Sum>t\<in>set (q_schedule q). 99 - deficit_of q t)"

lemma rotated_deficit:
  assumes "queue_inv q" and "bt_get (q_tenants q) t = Some tq"
  shows "deficit_of (rotated q t rest tq) =
    (deficit_of q)(t := unat (tq_deficit tq) + unat (tq_weight tq))"
  using queue_invD(2) [OF assms(1)] unat_credited [OF queue_invD(4) [OF assms]]
  by (auto simp: deficit_of_def rotated_def bt_simps fun_eq_iff)

lemma rotated_slack:
  assumes inv: "queue_inv q" and sch: "q_schedule q = t # rest"
    and tq: "bt_get (q_tenants q) t = Some tq" and low: "credited tq < FAIRNESS_QUANTUM"
  shows "slack (rotated q t rest tq) < slack q"
proof -
  note ok = queue_invD(4) [OF inv tq]
  have tr: "t \<notin> set rest" using queue_invD(5) [OF inv] sch by simp
  have "slack (rotated q t rest tq) =
      (99 - (unat (tq_deficit tq) + unat (tq_weight tq))) + (\<Sum>s\<in>set rest. 99 - deficit_of q s)"
    using tr by (simp add: slack_def rotated_deficit [OF inv tq]) (simp add: rotated_def, rule sum.cong, auto)
  moreover have "slack q = (99 - unat (tq_deficit tq)) + (\<Sum>s\<in>set rest. 99 - deficit_of q s)"
    using tr sch tq by (simp add: slack_def deficit_of_def)
  ultimately show ?thesis
    using ok low by (auto simp: credited_less [OF ok] tenant_ok_def)
qed

lemma dequeue_loop_serves:
  assumes "queue_inv q" "q_schedule q \<noteq> []" "slack q < n"
  shows "\<exists>t w ws q'. dequeue_loop n q = Done (Some w, q') \<and> backlog q t = w # ws \<and>
    queue_inv q' \<and> backlog q' = (backlog q)(t := ws) \<and> q_limits q' = q_limits q"
  using assms
proof (induction n arbitrary: q)
  case (Suc n)
  obtain t rest where sch: "q_schedule q = t # rest" using Suc.prems(2) by (cases "q_schedule q") auto
  obtain tq w ws where tq: "bt_get (q_tenants q) t = Some tq" and w: "tq_work tq = w # ws"
    using inv_scheduled [OF Suc.prems(1), of t] sch by auto
  note visit = dequeue_loop_visit [OF Suc.prems(1) sch tq, of n]
  show ?case
  proof (cases "credited tq < FAIRNESS_QUANTUM")
    case True
    note r = rotated_inv [OF Suc.prems(1) sch tq True]
    have "slack (rotated q t rest tq) < n" "q_schedule (rotated q t rest tq) \<noteq> []"
      using rotated_slack [OF Suc.prems(1) sch tq True] Suc.prems(3) by (simp_all add: rotated_def)
    moreover have "q_limits (rotated q t rest tq) = q_limits q" by (simp add: rotated_def)
    ultimately show ?thesis
      using Suc.IH [of "rotated q t rest tq"] r True visit by simp
  next
    case False
    with served_inv [OF Suc.prems(1) sch tq False] visit w tq show ?thesis
      by (intro exI [of _ t] exI [of _ w] exI [of _ ws] exI [of _ "served q t rest tq"])
        (simp add: backlog_def [of q t], simp add: served_def Let_def)
  qed
qed simp

lemma schedule_length:
  assumes "queue_inv q"
  shows "length (q_schedule q) \<le> lim_maximum_tenants (q_limits q)"
proof -
  have "set (q_schedule q) \<subseteq> dom (bt_get (q_tenants q))"
    using queue_invD(6) [OF assms] by (auto simp: backlog_def split: option.splits)
  then have "length (q_schedule q) \<le> length (bt_keys (q_tenants q))"
    using queue_invD(2,5) [OF assms]
    by (metis bt.card_dom bt.finite_dom card_mono distinct_card)
  with queue_invD(3) [OF assms] show ?thesis by simp
qed

lemma attempts_suffice:
  assumes "queue_inv q" "q_schedule q \<noteq> []"
  shows "slack q < min (length (q_schedule q) * unat FAIRNESS_QUANTUM) usize_max"
proof -
  have "slack q \<le> (\<Sum>t\<in>set (q_schedule q). 99)" unfolding slack_def by (intro sum_mono) simp
  also have "\<dots> = 99 * length (q_schedule q)"
    by (simp add: distinct_card queue_invD(5) [OF assms(1)])
  also have "\<dots> < 100 * length (q_schedule q)" using assms(2) by simp
  finally have lt: "slack q < 100 * length (q_schedule q)" .
  have "length (q_schedule q) \<le> 1000000"
    using schedule_length [OF assms(1)] queue_invD(1) [OF assms(1)] by (simp add: limits_is_valid_def)
  with lt show ?thesis by (simp add: usize_max_def)
qed

text \<open>What \<open>dequeue\<close> does to the backlogs: drop what has expired, then serve one head.\<close>

lemma dequeue_ok:
  assumes inv: "queue_inv q"
  shows "\<exists>r q'. dequeue q now = Done (r, q') \<and> queue_inv q' \<and> q_limits q' = q_limits q \<and>
    (case r of
       None \<Rightarrow> \<forall>t. filter (unexpired now) (backlog q t) = [] \<and> backlog q' t = []
     | Some w \<Rightarrow> filter (unexpired now) (backlog q (work_tenant w)) = w # backlog q' (work_tenant w) \<and>
         (\<forall>t. t \<noteq> work_tenant w \<longrightarrow> backlog q' t = filter (unexpired now) (backlog q t)))"
proof -
  obtain q1 where e: "expire q now =
      Done (concat (map (\<lambda>t. filter (is_expired now) (backlog q t)) (bt_keys (q_tenants q))), q1)"
    and q1: "queue_inv q1" "\<And>t. backlog q1 t = filter (unexpired now) (backlog q t)" "q_limits q1 = q_limits q"
    by (rule expire_ok [OF inv, of now]) blast
  let ?n = "min (length (q_schedule q1) * unat FAIRNESS_QUANTUM) usize_max"
  have d: "dequeue q now = dequeue_loop ?n q1" by (simp add: dequeue_def e)
  show ?thesis
  proof (cases "q_schedule q1 = []")
    case True
    have "backlog q1 t = []" for t using queue_invD(6) [OF q1(1), of t] True by simp
    moreover have "dequeue q now = Done (None, q1)" using d True by simp
    ultimately show ?thesis using q1 by (intro exI [of _ None] exI [of _ q1]) simp
  next
    case False
    from dequeue_loop_serves [OF q1(1) False attempts_suffice [OF q1(1) False]]
    obtain t w ws q' where l: "dequeue_loop ?n q1 = Done (Some w, q')" "backlog q1 t = w # ws"
      "queue_inv q'" "backlog q' = (backlog q1)(t := ws)" "q_limits q' = q_limits q1" by blast
    have "work_tenant w = t" using inv_backlog_ok(2) [OF q1(1), of w t] l(2) by (simp add: work_ok_def)
    with l d q1 show ?thesis by (intro exI [of _ "Some w"] exI [of _ q']) simp
  qed
qed

subsection \<open>The queue as a machine\<close>

datatype queue_event = EvWeight tenant_id u8 | EvEnqueue queued_work u64 | EvCancel string
  | EvExpire u64 | EvDequeue u64

datatype queue_output = OutUnit "(unit, queue_rejection) result" | OutWork "queued_work option"
  | OutList "queued_work list"

fun queue_op :: "fair_queue \<Rightarrow> queue_event \<Rightarrow> (queue_output \<times> fair_queue) exec" where
  "queue_op q (EvWeight t wt) = (case set_tenant_weight q t wt of (r, q') \<Rightarrow> Done (OutUnit r, q'))"
| "queue_op q (EvEnqueue w now) = exec_bind (enqueue q w now) (\<lambda>(r, q'). Done (OutUnit r, q'))"
| "queue_op q (EvCancel key) = exec_bind (cancel q key) (\<lambda>(r, q'). Done (OutWork r, q'))"
| "queue_op q (EvExpire now) = exec_bind (expire q now) (\<lambda>(r, q'). Done (OutList r, q'))"
| "queue_op q (EvDequeue now) = exec_bind (dequeue q now) (\<lambda>(r, q'). Done (OutWork r, q'))"

definition queue_step :: "fair_queue \<Rightarrow> queue_event \<Rightarrow> fair_queue \<Rightarrow> bool" where
  "queue_step q ev q' \<longleftrightarrow> (\<exists>out. queue_op q ev = Done (out, q'))"

lemma queue_op_ok:
  assumes inv: "queue_inv q"
  shows "\<exists>out q'. queue_op q ev = Done (out, q') \<and> queue_inv q' \<and> q_limits q' = q_limits q"
proof (cases ev)
  case (EvWeight t wt)
  obtain r q' where "set_tenant_weight q t wt = (r, q')" by fastforce
  with EvWeight set_tenant_weight_inv [OF inv this] show ?thesis by simp
next
  case (EvEnqueue w now)
  show ?thesis
    by (rule enqueue_cases [OF inv, of w now]) (simp_all add: EvEnqueue inv)
next
  case (EvCancel key)
  show ?thesis
  proof (cases "key \<in> q_keys q")
    case True
    then show ?thesis by (rule cancel_present [OF inv]) (simp add: EvCancel)
  qed (simp add: EvCancel cancel_absent inv)
next
  case (EvExpire now)
  show ?thesis by (rule expire_ok [OF inv, of now]) (simp add: EvExpire)
next
  case (EvDequeue now)
  from dequeue_ok [OF inv, of now] EvDequeue show ?thesis by auto
qed

definition queue_start :: "fair_queue \<Rightarrow> bool" where
  "queue_start q \<longleftrightarrow> (\<exists>limits. queue_new limits = Ok q)"

lemma queue_start_inv: "queue_start q \<Longrightarrow> queue_inv q"
  by (auto simp: queue_start_def queue_new_def queue_inv_def backlog_def bt.get_empty split: if_splits)

interpretation qm: invariant_machine queue_start queue_step queue_inv
proof unfold_locales
  show "queue_inv s" if "queue_start s" for s using that by (rule queue_start_inv)
  show "queue_inv t" if "queue_inv s" "queue_step s e t" for s e t
    using queue_op_ok [OF that(1), of e] that(2) by (auto simp: queue_step_def)
qed

subsection \<open>No tenant starves\<close>

definition position :: "'a \<Rightarrow> 'a list \<Rightarrow> nat" where
  "position t xs = length (takeWhile (\<lambda>s. s \<noteq> t) xs)"

lemma position_simps [simp]:
  "position t (s # xs) = (if s = t then 0 else Suc (position t xs))"
  "t \<in> set xs \<Longrightarrow> position t (xs @ ys) = position t xs"
  "t \<notin> set xs \<Longrightarrow> position t (xs @ [t]) = length xs"
  unfolding position_def
  by (auto simp: takeWhile_append1 takeWhile_append2) (subst takeWhile_append2, auto)

lemma position_less: "t \<in> set xs \<Longrightarrow> position t xs < length xs"
  by (induction xs) auto

lemma position_filter: "P t \<Longrightarrow> t \<in> set xs \<Longrightarrow> position t (filter P xs) \<le> position t xs"
  by (induction xs) auto

text \<open>
  A bound on the visits left before \<open>t\<close> is served: at most \<open>99 - deficit\<close> full rounds, each of
  at most \<open>maximum_tenants\<close> visits, and the tenants ahead of \<open>t\<close> in this one.
\<close>

definition wait :: "fair_queue \<Rightarrow> tenant_id \<Rightarrow> nat" where
  "wait q t = (99 - deficit_of q t) * lim_maximum_tenants (q_limits q) + position t (q_schedule q)"

lemma round_bound: "a \<le> k \<Longrightarrow> r < N \<Longrightarrow> a * N + r < Suc k * N" for a k r N :: nat
  unfolding mult_Suc using mult_le_mono1 [of a k N] by linarith

lemma rotated_wait:
  assumes inv: "queue_inv q" and sch: "q_schedule q = h # rest"
    and tq: "bt_get (q_tenants q) h = Some tq" and low: "credited tq < FAIRNESS_QUANTUM"
    and t: "t \<in> set (q_schedule q)"
  shows "wait (rotated q h rest tq) t < wait q t"
proof (cases "h = t")
  case False
  with t sch show ?thesis
    by (simp add: wait_def rotated_deficit [OF inv tq]) (simp add: rotated_def)
next
  case True
  let ?N = "lim_maximum_tenants (q_limits q)" and ?d = "unat (tq_deficit tq)" and ?w = "unat (tq_weight tq)"
  note ok = queue_invD(4) [OF inv tq]
  have "length rest < ?N" using schedule_length [OF inv] sch by simp
  moreover obtain k where k: "99 - ?d = Suc k" "99 - (?d + ?w) \<le> k"
    using ok low by (cases "99 - ?d") (auto simp: credited_less [OF ok] tenant_ok_def)
  ultimately have "(99 - (?d + ?w)) * ?N + length rest < (99 - ?d) * ?N"
    unfolding k(1) by (intro round_bound)
  moreover have "t \<notin> set rest" using queue_invD(5) [OF inv] sch True by simp
  moreover have "deficit_of (rotated q h rest tq) t = ?d + ?w"
    using True rotated_deficit [OF inv tq] by simp
  moreover have "deficit_of q t = ?d" using True tq by (simp add: deficit_of_def)
  moreover have "q_limits (rotated q h rest tq) = q_limits q" "q_schedule (rotated q h rest tq) = rest @ [h]"
    by (simp_all add: rotated_def)
  ultimately show ?thesis using True sch by (simp add: wait_def)
qed

lemma served_wait:
  assumes inv: "queue_inv q" and sch: "q_schedule q = h # rest" and t: "t \<in> set rest"
  shows "wait (served q h rest tq) t < wait q t"
proof -
  have "h \<noteq> t" using queue_invD(5) [OF inv] sch t by auto
  then have "deficit_of (served q h rest tq) t = deficit_of q t"
    using queue_invD(2) [OF inv] by (simp add: deficit_of_def served_def Let_def bt_simps)
  moreover have "position t (q_schedule (served q h rest tq)) = position t rest"
    using t by (simp add: served_def Let_def)
  moreover have "q_limits (served q h rest tq) = q_limits q" by (simp add: served_def Let_def)
  ultimately show ?thesis using \<open>h \<noteq> t\<close> sch by (simp add: wait_def)
qed

lemma dequeue_loop_wait:
  assumes "queue_inv q" "t \<in> set (q_schedule q)"
    "dequeue_loop n q = Done (Some w, q')" "work_tenant w \<noteq> t"
  shows "wait q' t < wait q t"
  using assms
proof (induction n arbitrary: q)
  case (Suc n)
  note inv = Suc.prems(1)
  obtain h rest where sch: "q_schedule q = h # rest" using Suc.prems(2) by (cases "q_schedule q") auto
  obtain tq where tq: "bt_get (q_tenants q) h = Some tq"
    using inv_scheduled [OF inv, of h] sch by auto
  note visit = dequeue_loop_visit [OF inv sch tq, of n]
  show ?case
  proof (cases "credited tq < FAIRNESS_QUANTUM")
    case True
    have "t \<in> set (q_schedule (rotated q h rest tq))" using Suc.prems(2) sch by (auto simp: rotated_def)
    with Suc.IH [of "rotated q h rest tq"] rotated_inv [OF inv sch tq True] Suc.prems(3,4) visit True
    have "wait q' t < wait (rotated q h rest tq) t" by simp
    with rotated_wait [OF inv sch tq True Suc.prems(2)] show ?thesis by simp
  next
    case False
    then have w: "w = hd (tq_work tq)" "q' = served q h rest tq" using visit Suc.prems(3) by simp_all
    have "hd (tq_work tq) \<in> set (backlog q h)"
      using inv_head [OF inv sch tq] tq by (metis backlog_def list.set_intros(1) option.simps(5))
    then have "work_tenant w = h"
      using inv_backlog_ok(2) [OF inv] w by (simp add: work_ok_def)
    with Suc.prems(2,4) sch have "t \<in> set rest" by auto
    with served_wait [OF inv sch] w show ?thesis by simp
  qed
qed simp

text \<open>Every other operation leaves a tenant that keeps its work at least as close to service.\<close>

definition keeps_place :: "tenant_id \<Rightarrow> fair_queue \<Rightarrow> fair_queue \<Rightarrow> bool" where
  "keeps_place t q q' \<longleftrightarrow> q_limits q' = q_limits q \<and> deficit_of q' t = deficit_of q t \<and>
     (\<exists>P ys. P t \<and> q_schedule q' = filter P (q_schedule q) @ ys)"

lemma keeps_place_wait:
  assumes "keeps_place t q q'" and "t \<in> set (q_schedule q)"
  shows "wait q' t \<le> wait q t"
proof -
  from assms(1) obtain P ys where P: "P t" "q_schedule q' = filter P (q_schedule q) @ ys"
    and eq: "q_limits q' = q_limits q" "deficit_of q' t = deficit_of q t"
    by (auto simp: keeps_place_def)
  have "position t (q_schedule q') = position t (filter P (q_schedule q))"
    using P assms(2) by (simp add: position_simps(2))
  with position_filter [of P t, OF P(1) assms(2)] eq show ?thesis by (simp add: wait_def)
qed

lemma keeps_place_refl [simp]: "keeps_place t q q"
  by (auto simp: keeps_place_def intro!: exI [of _ "\<lambda>_. True"] exI [of _ "[]"])

lemma keeps_placeI:
  assumes "q_limits q' = q_limits q" "deficit_of q' t = deficit_of q t" "P t"
    "q_schedule q' = filter P (q_schedule q) @ ys"
  shows "keeps_place t q q'"
  using assms by (auto simp: keeps_place_def)

lemma deficit_remove_empty:
  assumes "backlog (remove_empty_tenant q h) t \<noteq> []"
  shows "deficit_of (remove_empty_tenant q h) t = deficit_of q t"
  using assms by (auto simp: remove_empty_tenant_def deficit_of_def backlog_def bt_get_remove split: if_splits)

lemma weight_keeps_place:
  assumes inv: "queue_inv q" and t: "backlog q t \<noteq> []" and eq: "set_tenant_weight q s wt = (r, q')"
  shows "keeps_place t q q'"
proof -
  note wf = queue_invD(2) [OF inv]
  have "deficit_of q' t = deficit_of q t"
    using eq wf t by (auto simp: set_tenant_weight_def deficit_of_def backlog_def bt_simps
        split: if_splits option.splits)
  moreover have "q_schedule q' = q_schedule q" "q_limits q' = q_limits q"
    using set_tenant_weight_inv [OF inv eq] by simp_all
  ultimately show ?thesis by (intro keeps_placeI [where P = "\<lambda>_. True" and ys = "[]"]) simp_all
qed

lemma enqueue_keeps_place:
  assumes inv: "queue_inv q" and t: "backlog q t \<noteq> []" and eq: "enqueue q w now = Done (r, q')"
  shows "keeps_place t q q'"
proof (cases "q' = q")
  case False
  let ?s = "work_tenant w"
  obtain res q1 where r1:
    "(if \<not> bt_contains (q_tenants q) ?s then set_tenant_weight q ?s 1 else (Ok (), q)) = (res, q1)"
    by fastforce
  have k1: "keeps_place t q q1" and i1: "queue_inv q1" and b1: "backlog q1 = backlog q"
    and s1: "q_schedule q1 = q_schedule q" and e1: "\<forall>e. res = Err e \<longrightarrow> q1 = q"
    using r1 weight_keeps_place [OF inv t, of ?s 1 res q1] set_tenant_weight_inv [OF inv, of ?s 1 res q1] inv
    by (auto split: if_splits)
  note wf1 = queue_invD(2) [OF i1]
  from eq False e1 r1 obtain queue where queue: "bt_get (q_tenants q1) ?s = Some queue"
    and q': "q' = (put_tenant q1 ?s (queue\<lparr>tq_work := tq_work queue @ [w]\<rparr>))
      \<lparr>q_schedule := (if tq_work queue = [] then q_schedule q1 @ [?s] else q_schedule q1),
       q_keys := insert (idempotency_key w) (q_keys q1), q_total := q_total q1 + 1\<rparr> \<or> q' = q1"
    by (auto simp: enqueue_def split: if_splits sum.splits option.splits)
  have "deficit_of q' t = deficit_of q1 t"
    using q' queue wf1 by (auto simp: deficit_of_def bt_simps)
  moreover have "\<exists>ys. q_schedule q' = q_schedule q1 @ ys" using q' by auto
  moreover have "q_limits q' = q_limits q1" using q' by auto
  ultimately show ?thesis
    using k1 s1 by (auto simp: keeps_place_def intro!: exI [of _ "\<lambda>_. True"])
qed simp

lemma cancel_keeps_place:
  assumes inv: "queue_inv q" and eq: "cancel q key = Done (r, q')" and t: "backlog q' t \<noteq> []"
  shows "keeps_place t q q'"
proof (cases "q' = q")
  case False
  with eq obtain s queue before x after where s: "bt_get (q_tenants q) s = Some queue"
    and q': "q' = remove_empty_tenant ((put_tenant q s (queue\<lparr>tq_work := before @ after\<rparr>))
        \<lparr>q_keys := q_keys q - {key}, q_total := q_total q - 1\<rparr>) s"
    by (auto simp: cancel_def split: if_splits option.splits)
  note wf = queue_invD(2) [OF inv]
  have "deficit_of q' t = deficit_of q t"
    using deficit_remove_empty [OF t [unfolded q']] wf s by (simp add: q') (simp add: deficit_of_def bt_simps)
  moreover have "q_schedule q' = filter (\<lambda>u. u \<noteq> s \<or> before @ after \<noteq> []) (q_schedule q) @ []"
    using wf by (simp add: q' remove_empty_tenant_def bt_simps)
  moreover have "t \<noteq> s \<or> before @ after \<noteq> []"
    using t wf by (auto simp: q' remove_empty_tenant_def bt_simps backlog_def)
  moreover have "q_limits q' = q_limits q" by (simp add: q' remove_empty_tenant_def)
  ultimately show ?thesis
    by (intro keeps_placeI [where P = "\<lambda>u. u \<noteq> s \<or> before @ after \<noteq> []" and ys = "[]"])
qed simp

lemma expire_keeps_place:
  assumes inv: "queue_inv q" and eq: "expire q now = Done (r, q')" and t: "backlog q' t \<noteq> []"
  shows "keeps_place t q q' \<and> queue_inv q'"
proof -
  obtain q1 where e: "expire q now =
      Done (concat (map (\<lambda>t. filter (is_expired now) (backlog q t)) (bt_keys (q_tenants q))), q1)"
    and q1: "queue_inv q1" "\<And>t. backlog q1 t = filter (unexpired now) (backlog q t)"
      "\<And>t tq. bt_get (q_tenants q) t = Some tq \<Longrightarrow> backlog q1 t \<noteq> [] \<Longrightarrow>
         bt_get (q_tenants q1) t = Some (tq\<lparr>tq_work := backlog q1 t\<rparr>)"
      "q_schedule q1 = filter (\<lambda>s. filter (unexpired now) (backlog q s) \<noteq> []) (q_schedule q)"
      "q_limits q1 = q_limits q"
    by (rule expire_ok [OF inv, of now]) blast
  have [simp]: "q1 = q'" using e eq by simp
  from t q1(2) [of t] have "backlog q t \<noteq> []" by auto
  then obtain tq where tq: "bt_get (q_tenants q) t = Some tq"
    by (cases "bt_get (q_tenants q) t") (auto simp: backlog_def)
  have "deficit_of q' t = deficit_of q t" using q1(3) [OF tq] t tq by (simp add: deficit_of_def)
  with q1 t have "keeps_place t q q'"
    by (intro keeps_placeI [where P = "\<lambda>s. filter (unexpired now) (backlog q s) \<noteq> []" and ys = "[]"]) simp_all
  with q1(1) show ?thesis by simp
qed

text \<open>A step in which \<open>t\<close> keeps work queued and is not the tenant that is served.\<close>

definition passed_over :: "tenant_id \<Rightarrow> fair_queue \<Rightarrow> queue_event \<Rightarrow> fair_queue \<Rightarrow> bool" where
  "passed_over t q ev q' \<longleftrightarrow> (\<exists>out. queue_op q ev = Done (out, q') \<and> backlog q' t \<noteq> [] \<and>
     (\<forall>now w. ev = EvDequeue now \<longrightarrow> out = OutWork (Some w) \<longrightarrow> work_tenant w \<noteq> t))"

definition is_dequeue :: "queue_event \<Rightarrow> bool" where
  "is_dequeue ev \<longleftrightarrow> (case ev of EvDequeue _ \<Rightarrow> True | _ \<Rightarrow> False)"

lemma dequeue_passed_over:
  assumes inv: "queue_inv q" and eq: "dequeue q now = Done (r, q')" and t: "backlog q' t \<noteq> []"
    and other: "\<forall>w. r = Some w \<longrightarrow> work_tenant w \<noteq> t"
  shows "wait q' t < wait q t"
proof -
  from eq obtain out q1 where e: "expire q now = Done (out, q1)"
    and l: "dequeue_loop (min (length (q_schedule q1) * unat FAIRNESS_QUANTUM) usize_max) q1 = Done (r, q')"
    by (auto simp: dequeue_def)
  from dequeue_ok [OF inv, of now] eq t other obtain w where w: "r = Some w"
    and b: "backlog q' t = filter (unexpired now) (backlog q t)"
    by (cases r) auto
  obtain q2 where q2: "expire q now =
      Done (concat (map (\<lambda>t. filter (is_expired now) (backlog q t)) (bt_keys (q_tenants q))), q2)"
    "backlog q2 t = filter (unexpired now) (backlog q t)" "backlog q t = [] \<Longrightarrow> backlog q2 t = []"
    by (rule expire_ok [OF inv, of now]) simp
  then have "backlog q1 t \<noteq> []" using e b t by simp
  with expire_keeps_place [OF inv e] have k: "keeps_place t q q1" and i: "queue_inv q1" by simp_all
  have "t \<in> set (q_schedule q1)" "t \<in> set (q_schedule q)"
    using queue_invD(6) [OF i, of t] queue_invD(6) [OF inv, of t] \<open>backlog q1 t \<noteq> []\<close> q2 e by auto
  with dequeue_loop_wait [OF i _ l [unfolded w]] keeps_place_wait [OF k] w other show ?thesis by fastforce
qed

lemma passed_over_wait:
  assumes inv: "queue_inv q" and step: "passed_over t q ev q'" and t: "backlog q t \<noteq> []"
  shows "wait q' t + (if is_dequeue ev then 1 else 0) \<le> wait q t"
proof -
  from step obtain out where op: "queue_op q ev = Done (out, q')" and b: "backlog q' t \<noteq> []"
    and o': "\<forall>now w. ev = EvDequeue now \<longrightarrow> out = OutWork (Some w) \<longrightarrow> work_tenant w \<noteq> t"
    by (auto simp: passed_over_def)
  have sch: "t \<in> set (q_schedule q)" using queue_invD(6) [OF inv, of t] t by simp
  have "(is_dequeue ev \<and> wait q' t < wait q t) \<or> (\<not> is_dequeue ev \<and> keeps_place t q q')"
  proof (cases ev)
    case (EvWeight s wt)
    with op weight_keeps_place [OF inv t] show ?thesis
      by (auto simp: is_dequeue_def split: prod.splits)
  next
    case (EvEnqueue w now)
    with op enqueue_keeps_place [OF inv t] show ?thesis by (auto simp: is_dequeue_def)
  next
    case (EvCancel key)
    with op cancel_keeps_place [OF inv _ b] show ?thesis by (auto simp: is_dequeue_def)
  next
    case (EvExpire now)
    with op expire_keeps_place [OF inv _ b] show ?thesis by (auto simp: is_dequeue_def)
  next
    case (EvDequeue now)
    with op o' dequeue_passed_over [OF inv _ b] show ?thesis by (auto simp: is_dequeue_def)
  qed
  with keeps_place_wait [OF _ sch] show ?thesis by auto
qed

lemma passed_over_run:
  "run (passed_over t) q evs q' \<Longrightarrow> queue_inv q \<Longrightarrow> backlog q t \<noteq> [] \<Longrightarrow>
   wait q' t + length (filter is_dequeue evs) \<le> wait q t"
proof (induction rule: run.induct)
  case (run_Cons q ev q1 evs q')
  have "queue_inv q1" "backlog q1 t \<noteq> []"
    using run_Cons.hyps(1) run_Cons.prems(1) qm.step_inv
    by (auto simp: passed_over_def queue_step_def)
  with run_Cons.IH passed_over_wait [OF run_Cons.prems(1) run_Cons.hyps(1) run_Cons.prems(2)]
  show ?case by auto
qed simp

subsection \<open>Properties\<close>

text \<open>
  C26: every sequence of operations on a fresh queue leaves it consistent, and the next
  operation cannot panic: no \<open>expect\<close> fails, no counter underflows. Consistent means
  that the counter is the number of queued items, the key set is the set of queued keys,
  the schedule lists exactly the tenants with work, once each, and every capacity holds.
\<close>
theorem queue_never_panics:
  assumes "queue_new limits = Ok q0" and "run queue_step q0 evs q"
  shows "queue_inv q \<and> (\<forall>ev. queue_op q ev \<noteq> Panic)"
proof -
  have "queue_inv q" by (rule qm.reachable_inv [OF _ assms(2)]) (use assms(1) in \<open>auto simp: queue_start_def\<close>)
  moreover have "queue_op q ev \<noteq> Panic" for ev using queue_op_ok [OF calculation, of ev] by auto
  ultimately show ?thesis by simp
qed

definition sample_limits :: queue_limits where
  "sample_limits = \<lparr>lim_global = 4, lim_per_tenant = 2, lim_maximum_tenants = 2\<rparr>"

definition sample_queue :: fair_queue where
  "sample_queue = \<lparr>q_limits = sample_limits, q_total = 0, q_keys = {}, q_tenants = [], q_schedule = []\<rparr>"

definition sample_work :: "string \<Rightarrow> string \<Rightarrow> queued_work" where
  "sample_work key t = \<lparr>idempotency_key = key, work_tenant = t, work_workspace = ''w'',
     work_sandbox = ''s'', deadline_unix_ms = 100\<rparr>"

definition one_tenant :: fair_queue where
  "one_tenant = \<lparr>q_limits = sample_limits, q_total = 1, q_keys = {''k''},
     q_tenants = [(''a'', \<lparr>tq_weight = 1, tq_deficit = 0, tq_work = [sample_work ''k'' ''a'']\<rparr>)],
     q_schedule = [''a'']\<rparr>"

definition two_tenants :: fair_queue where
  "two_tenants = \<lparr>q_limits = sample_limits, q_total = 2, q_keys = {''k'', ''l''},
     q_tenants = [(''a'', \<lparr>tq_weight = 1, tq_deficit = 0, tq_work = [sample_work ''k'' ''a'']\<rparr>),
                  (''b'', \<lparr>tq_weight = 1, tq_deficit = 0, tq_work = [sample_work ''l'' ''b'']\<rparr>)],
     q_schedule = [''a'', ''b'']\<rparr>"

lemma queue_new_sample: "queue_new sample_limits = Ok sample_queue"
  by (simp add: queue_new_def limits_is_valid_def sample_limits_def sample_queue_def)

lemma enqueue_sample_1: "enqueue sample_queue (sample_work ''k'' ''a'') 1 = Done (Ok (), one_tenant)"
  by (simp add: enqueue_def work_is_valid_def sample_work_def sample_queue_def sample_limits_def
      set_tenant_weight_def bt_contains_def bt_get_def put_tenant_def one_tenant_def ascii_defs)

lemma enqueue_sample_2: "enqueue one_tenant (sample_work ''l'' ''b'') 1 = Done (Ok (), two_tenants)"
  by (simp add: enqueue_def work_is_valid_def sample_work_def one_tenant_def two_tenants_def sample_limits_def
      set_tenant_weight_def bt_contains_def bt_get_def put_tenant_def ascii_defs insert_commute)

lemma run_sample:
  "run queue_step sample_queue
     [EvEnqueue (sample_work ''k'' ''a'') 1, EvEnqueue (sample_work ''l'' ''b'') 1] two_tenants"
  by (auto simp: run_Cons_iff queue_step_def enqueue_sample_1 enqueue_sample_2)

lemma sample_inv: "queue_inv sample_queue" "queue_inv two_tenants"
proof -
  show 1: "queue_inv sample_queue"
    by (rule queue_start_inv) (use queue_new_sample in \<open>auto simp: queue_start_def\<close>)
  show "queue_inv two_tenants" by (rule qm.run_inv [OF run_sample 1])
qed

theorem queue_never_panics_witness:
  "queue_new sample_limits = Ok sample_queue \<and>
   run queue_step sample_queue
     [EvEnqueue (sample_work ''k'' ''a'') 1, EvEnqueue (sample_work ''l'' ''b'') 1] two_tenants \<and>
   queue_inv two_tenants \<and> queue_op two_tenants (EvDequeue 1) \<noteq> Panic"
  using queue_new_sample run_sample queue_never_panics [OF queue_new_sample run_sample] by blast

text \<open>
  C27: \<open>dequeue\<close> serves work exactly when there is some. It returns nothing only when no
  queued work is unexpired; otherwise it returns the oldest unexpired item of some
  tenant (FIFO within the tenant), removes just that item and whatever had expired, and
  leaves every other tenant's unexpired work in place and in order.
\<close>
theorem dequeue_serves:
  assumes "queue_inv q"
  shows "\<exists>r q'. dequeue q now = Done (r, q') \<and> queue_inv q' \<and>
    (case r of
       None \<Rightarrow> \<forall>t. filter (unexpired now) (backlog q t) = [] \<and> backlog q' t = []
     | Some w \<Rightarrow> filter (unexpired now) (backlog q (work_tenant w)) = w # backlog q' (work_tenant w) \<and>
         (\<forall>t. t \<noteq> work_tenant w \<longrightarrow> backlog q' t = filter (unexpired now) (backlog q t)))"
  using dequeue_ok [OF assms, of now] by blast

theorem dequeue_serves_witness:
  "queue_inv two_tenants \<and> (\<exists>r q'. dequeue two_tenants 1 = Done (r, q') \<and> queue_inv q')"
  using sample_inv(2) dequeue_serves [OF sample_inv(2), of 1] by blast

text \<open>
  C10: no tenant starves. While a tenant keeps work queued, fewer than
  \<open>100 * maximum_tenants\<close> calls of \<open>dequeue\<close> can serve other tenants before it is served,
  whatever else is enqueued, cancelled, expired or reweighted in between.
\<close>
theorem bounded_waiting:
  assumes "queue_inv q" and "backlog q t \<noteq> []" and "run (passed_over t) q evs q'"
  shows "length (filter is_dequeue evs) < 100 * lim_maximum_tenants (q_limits q)"
proof -
  have t: "t \<in> set (q_schedule q)" using assms(2) by (simp add: queue_invD(6) [OF assms(1)])
  then have "position t (q_schedule q) < length (q_schedule q)"
    by (rule position_less)
  then have "position t (q_schedule q) < lim_maximum_tenants (q_limits q)"
    using schedule_length [OF assms(1)] by simp
  then have "wait q t < Suc 99 * lim_maximum_tenants (q_limits q)"
    unfolding wait_def by (intro round_bound) simp
  with passed_over_run [OF assms(3,1,2)] show ?thesis by simp
qed

definition weighted_queue :: "u8 \<Rightarrow> fair_queue" where
  "weighted_queue wt = two_tenants\<lparr>q_tenants :=
     [(''a'', \<lparr>tq_weight = wt, tq_deficit = 0, tq_work = [sample_work ''k'' ''a'']\<rparr>),
      (''b'', \<lparr>tq_weight = 1, tq_deficit = 0, tq_work = [sample_work ''l'' ''b'']\<rparr>)]\<rparr>"

definition after_dequeue :: fair_queue where
  "after_dequeue = \<lparr>q_limits = sample_limits, q_total = 1, q_keys = {''l''},
     q_tenants = [(''b'', \<lparr>tq_weight = 1, tq_deficit = 0, tq_work = [sample_work ''l'' ''b'']\<rparr>)],
     q_schedule = [''b'']\<rparr>"

lemma weight_sample: "set_tenant_weight two_tenants ''a'' 100 = (Ok (), weighted_queue 100)"
  by (simp add: set_tenant_weight_def two_tenants_def weighted_queue_def bt_get_def put_tenant_def)

lemma expire_sample: "expire (weighted_queue wt) 1 = Done ([], weighted_queue wt)"
  by (simp add: expire_def expire_tenant_def weighted_queue_def two_tenants_def bt_keys_def bt_get_def
      sample_work_def put_tenant_def remove_empty_tenant_def word_le_nat_alt)

lemma dequeue_sample: "dequeue (weighted_queue 100) 1 = Done (Some (sample_work ''k'' ''a''), after_dequeue)"
proof -
  have "min (saturating_add 0 (ucast (100 :: u8))) (FAIRNESS_QUANTUM * 2) = FAIRNESS_QUANTUM"
    by (simp add: FAIRNESS_QUANTUM_def saturating_add_def min_def word_le_nat_alt)
  then have loop: "dequeue_loop (Suc n) (weighted_queue 100) = Done (Some (sample_work ''k'' ''a''), after_dequeue)" for n
    by (simp add: weighted_queue_def two_tenants_def bt_get_def Let_def put_tenant_def bt_remove_def
        after_dequeue_def sample_work_def insert_Diff_if)
  have "min (length (q_schedule (weighted_queue 100)) * unat FAIRNESS_QUANTUM) usize_max = Suc 199"
    by (simp add: weighted_queue_def two_tenants_def usize_max_def)
  then have "dequeue (weighted_queue 100) 1 = dequeue_loop (Suc 199) (weighted_queue 100)"
    unfolding dequeue_def expire_sample by simp
  then show ?thesis unfolding loop .
qed

theorem bounded_waiting_witness:
  "queue_inv two_tenants \<and> backlog two_tenants ''b'' \<noteq> [] \<and>
   run (passed_over ''b'') two_tenants [EvWeight ''a'' 100, EvDequeue 1] after_dequeue \<and>
   length (filter is_dequeue [EvWeight ''a'' 100, EvDequeue 1]) < 100 * lim_maximum_tenants (q_limits two_tenants)"
proof -
  have b: "backlog two_tenants ''b'' \<noteq> []" "backlog (weighted_queue 100) ''b'' \<noteq> []" "backlog after_dequeue ''b'' \<noteq> []"
    by (simp_all add: backlog_def two_tenants_def weighted_queue_def after_dequeue_def bt_get_def)
  have "passed_over ''b'' two_tenants (EvWeight ''a'' 100) (weighted_queue 100)"
    "passed_over ''b'' (weighted_queue 100) (EvDequeue 1) after_dequeue"
    using b by (simp_all add: passed_over_def weight_sample dequeue_sample) (simp add: sample_work_def)
  then have r: "run (passed_over ''b'') two_tenants [EvWeight ''a'' 100, EvDequeue 1] after_dequeue"
    by (blast intro: run.intros)
  from sample_inv(2) b(1) r bounded_waiting [OF sample_inv(2) b(1) r] show ?thesis by (intro conjI)
qed

text \<open>
  The expiry sweep returns exactly the expired work, tenant by tenant in key order and
  oldest first within a tenant, and keeps exactly the unexpired work, in order.
\<close>
theorem expire_exact:
  assumes "queue_inv q"
  shows "\<exists>q'. expire q now =
      Done (concat (map (\<lambda>t. filter (is_expired now) (backlog q t)) (bt_keys (q_tenants q))), q') \<and>
    queue_inv q' \<and> (\<forall>t. backlog q' t = filter (unexpired now) (backlog q t)) \<and>
    q_schedule q' = filter (\<lambda>s. backlog q' s \<noteq> []) (q_schedule q)"
  by (rule expire_ok [OF assms, of now]) simp

theorem expire_exact_witness:
  "queue_inv two_tenants \<and> (\<exists>out q'. expire two_tenants 200 = Done (out, q') \<and> queue_inv q')"
  using sample_inv(2) expire_exact [OF sample_inv(2), of 200] by blast

text \<open>
  Admission and withdrawal. \<open>enqueue\<close> never panics; a rejection changes nothing, and
  an accepted item has a valid unused key, goes to the end of its tenant's backlog and
  changes no other. \<open>cancel\<close> of a queued key removes exactly the item with that key, and of
  an unknown key changes nothing.
\<close>
theorem enqueue_cancel_effect:
  assumes "queue_inv q"
  shows "(\<exists>r q'. enqueue q w now = Done (r, q') \<and> queue_inv q' \<and>
      (case r of Inl e \<Rightarrow> q' = q
       | Inr _ \<Rightarrow> work_is_valid w now \<and> idempotency_key w \<notin> q_keys q \<and> queue_len q' = queue_len q + 1 \<and>
           backlog q' = (backlog q)(work_tenant w := backlog q (work_tenant w) @ [w]))) \<and>
    (\<exists>r q'. cancel q key = Done (r, q') \<and> queue_inv q' \<and>
      (case r of None \<Rightarrow> key \<notin> q_keys q \<and> q' = q
       | Some x \<Rightarrow> idempotency_key x = key \<and> queue_len q' = queue_len q - 1 \<and>
           backlog q' = (backlog q)(work_tenant x := remove1 x (backlog q (work_tenant x))) \<and>
           x \<in> set (backlog q (work_tenant x)) \<and> key \<notin> q_keys q'))"
proof (rule conjI, goal_cases)
  case 1
  show ?case
    by (rule enqueue_cases [OF assms, of w now]) (use assms in \<open>simp_all add: queue_len_def\<close>)
next
  case 2
  show ?case
  proof (cases "key \<in> q_keys q")
    case False
    with assms show ?thesis by (simp add: cancel_absent)
  next
    case True
    then obtain t x before after q' where c: "cancel q key = Done (Some x, q')" "idempotency_key x = key"
      "backlog q t = before @ x # after" "queue_inv q'" "backlog q' = (backlog q)(t := before @ after)"
      "q_keys q' = q_keys q - {key}" "q_total q' = q_total q - 1"
      by (rule cancel_present [OF assms]) blast
    have "work_tenant x = t" using inv_backlog_ok(2) [OF assms, of x t] c(3) by (simp add: work_ok_def)
    moreover have "x \<notin> set before"
      using inv_backlog_ok(1) [OF assms, of t] c(3) by auto
    ultimately show ?thesis
      using c by (intro exI [of _ "Some x"] exI [of _ q']) (simp add: queue_len_def remove1_append)
  qed
qed

theorem enqueue_cancel_effect_witness:
  "queue_inv two_tenants \<and> (\<exists>r q'. cancel two_tenants ''k'' = Done (r, q') \<and> queue_inv q')"
  using sample_inv(2) enqueue_cancel_effect [OF sample_inv(2), of "sample_work ''m'' ''a''" 1 "''k''"] by blast

end
