(* ===== verification/Guest_Profile.thy ===== *)
theory Guest_Profile
  imports Core_Types
begin

text \<open>
  \<^verbatim>\<open>crates/sandbox-core/src/guest_profile.rs\<close>, \<^verbatim>\<open>capability.rs\<close> and \<^verbatim>\<open>backend.rs\<close>:
  guest profile identities with their canonical text form, the reviewed profiles, and the
  capabilities a backend reports. The locale \<open>canonical_codec\<close> is the contract of a parser
  and a printer whose texts are unique; other components check a value they were sent by
  printing and reparsing it, and rely on that contract.
\<close>

locale canonical_codec =
  fixes print :: "'a \<Rightarrow> string" and parse :: "string \<Rightarrow> ('a, 'e) result" and valid :: "'a \<Rightarrow> bool"
  assumes parse_print: "valid x \<Longrightarrow> parse (print x) = Ok x"
    and parse_canonical: "parse s = Ok x \<Longrightarrow> valid x \<and> print x = s"
begin

lemma recheck: "parse (print x) = Ok x \<longleftrightarrow> valid x"
  using parse_print parse_canonical by blast

lemma print_inj: "valid x \<Longrightarrow> valid y \<Longrightarrow> print x = print y \<Longrightarrow> x = y"
  using parse_print by (metis sum.inject(2))

lemma parse_inj: "parse s = Ok x \<Longrightarrow> parse t = Ok x \<Longrightarrow> s = t"
  using parse_canonical by blast

end

subsection \<open>Identities\<close>

datatype guest_profile_identity = GuestProfileIdentity (gp_name: string) (gp_version: u32)

definition gp_key :: "guest_profile_identity \<Rightarrow> string \<times> nat" where
  "gp_key i = (gp_name i, unat (gp_version i))"

lemma gp_key_inj: "gp_key a = gp_key b \<Longrightarrow> a = b"
  by (cases a; cases b) (simp add: gp_key_def word_unat_eq_iff)

instantiation guest_profile_identity :: linorder
begin

definition less_eq_guest_profile_identity :: "guest_profile_identity \<Rightarrow> guest_profile_identity \<Rightarrow> bool" where
  "a \<le> b \<longleftrightarrow> gp_key a \<le> gp_key b"

definition less_guest_profile_identity :: "guest_profile_identity \<Rightarrow> guest_profile_identity \<Rightarrow> bool" where
  "a < b \<longleftrightarrow> gp_key a < gp_key b"

instance
  by standard
    (auto simp: less_eq_guest_profile_identity_def less_guest_profile_identity_def intro: gp_key_inj)

end

definition gp_name_byte :: "char \<Rightarrow> bool" where
  "gp_name_byte b \<longleftrightarrow> is_ascii_lowercase b \<or> is_ascii_digit b \<or> b = CHR ''-''"

definition gp_parse :: "string \<Rightarrow> (guest_profile_identity, core_error) result" where
  "gp_parse val =
     (case rsplit_once ''-v'' val of
        None \<Rightarrow> Err (InvalidSpecification ''guest profile identity must end in `-v<version>`'')
      | Some (name, version_text) \<Rightarrow>
          if name = [] \<or> length name > 48 \<or> \<not> list_all gp_name_byte name \<or> \<not> is_ascii_lowercase (hd name)
          then Err (InvalidSpecification ''guest profile name is invalid'')
          else case parse_unsigned (2 ^ 32 - 1) version_text of
            None \<Rightarrow> Err (InvalidSpecification ''guest profile version is invalid'')
          | Some n \<Rightarrow>
              let version = of_nat n :: u32
              in if version = 0 \<or> show_word version \<noteq> version_text
                 then Err (InvalidSpecification ''guest profile version must be positive and canonical'')
                 else Ok (GuestProfileIdentity name version))"

definition gp_canonical :: "guest_profile_identity \<Rightarrow> string" where
  "gp_canonical i = gp_name i @ ''-v'' @ show_word (gp_version i)"

definition gp_valid :: "guest_profile_identity \<Rightarrow> bool" where
  "gp_valid i \<longleftrightarrow> gp_name i \<noteq> [] \<and> length (gp_name i) \<le> 48 \<and> list_all gp_name_byte (gp_name i) \<and>
     is_ascii_lowercase (hd (gp_name i)) \<and> gp_version i \<noteq> 0"

lemma gp_parse_print: "gp_valid i \<Longrightarrow> gp_parse (gp_canonical i) = Ok i"
proof -
  assume v: "gp_valid i"
  have digits: "CHR ''-'' \<notin> set (show_word (gp_version i))"
    using show_nat_digits [of "CHR ''-''"] ascii_sep(1) unfolding show_word_def by blast
  have sp: "rsplit_once ''-v'' (gp_canonical i) = Some (gp_name i, show_word (gp_version i))"
    unfolding gp_canonical_def by (rule rsplit_once_last) (use digits in simp_all)
  have "unat (gp_version i) \<le> 2 ^ 32 - 1" using unat_u32_lt [of "gp_version i"] by simp
  from parse_unsigned_show_nat [OF this]
  have "parse_unsigned (2 ^ 32 - 1) (show_word (gp_version i)) = Some (unat (gp_version i))"
    by (simp add: show_word_def)
  with v sp show ?thesis by (cases i) (simp add: gp_parse_def gp_valid_def Let_def)
qed

lemma gp_parse_canonical: "gp_parse s = Ok i \<Longrightarrow> gp_valid i \<and> gp_canonical i = s"
proof -
  assume ok: "gp_parse s = Ok i"
  then obtain name ver where sp: "rsplit_once ''-v'' s = Some (name, ver)"
    by (auto simp: gp_parse_def split: option.splits)
  from ok sp have "gp_valid i" "gp_name i = name" "show_word (gp_version i) = ver"
    by (auto simp: gp_parse_def gp_valid_def Let_def split: option.splits if_splits)
  with rsplit_once_Some [OF sp] show ?thesis by (simp add: gp_canonical_def)
qed

interpretation gp: canonical_codec gp_canonical gp_parse gp_valid
  by unfold_locales (simp_all add: gp_parse_print gp_parse_canonical)

subsection \<open>Reviewed profiles\<close>

definition STRICT_GUEST_PROFILE :: string where "STRICT_GUEST_PROFILE = ''strict-v1''"
definition ROOT_GUEST_PROFILE :: string where "ROOT_GUEST_PROFILE = ''root-in-sandbox-v1''"
definition OCI_COMPAT_GUEST_PROFILE :: string where "OCI_COMPAT_GUEST_PROFILE = ''oci-compat-v1''"

definition ISOLATED_NAMESPACES :: "string list" where
  "ISOLATED_NAMESPACES = [''pid'', ''network'', ''ipc'', ''uts'', ''mount'']"

definition MASKED_PATHS :: "string list" where
  "MASKED_PATHS = [''/proc/acpi'', ''/proc/asound'', ''/proc/kcore'', ''/proc/keys'',
     ''/proc/latency_stats'', ''/proc/timer_list'', ''/proc/timer_stats'', ''/proc/sched_debug'',
     ''/sys/firmware'']"

definition READONLY_PATHS :: "string list" where
  "READONLY_PATHS = [''/proc/bus'', ''/proc/fs'', ''/proc/irq'', ''/proc/sys'', ''/proc/sysrq-trigger'']"

definition OCI_COMPAT_CAPABILITIES :: "string list" where
  "OCI_COMPAT_CAPABILITIES = [''CAP_CHOWN'', ''CAP_DAC_OVERRIDE'', ''CAP_FOWNER'', ''CAP_FSETID'',
     ''CAP_SETGID'', ''CAP_SETUID'']"

record guest_profile_restrictions =
  gr_uid :: u32
  gr_gid :: u32
  bounding_capabilities :: "string list"
  effective_capabilities :: "string list"
  inheritable_capabilities :: "string list"
  permitted_capabilities :: "string list"
  ambient_capabilities :: "string list"
  no_new_privileges :: bool
  isolated_namespaces :: "string list"
  masked_paths :: "string list"
  readonly_paths :: "string list"
  directfs_enabled :: bool
  host_unix_sockets :: bool
  host_fifos :: bool

record guest_profile =
  profile_identity :: guest_profile_identity
  restrictions :: guest_profile_restrictions

definition reviewed_limits :: "string \<Rightarrow> (u32 \<times> u32 \<times> string list) option" where
  "reviewed_limits canonical =
     (if canonical = STRICT_GUEST_PROFILE then Some (65534, 65534, [])
      else if canonical = ROOT_GUEST_PROFILE then Some (0, 0, [])
      else if canonical = OCI_COMPAT_GUEST_PROFILE then Some (0, 0, OCI_COMPAT_CAPABILITIES)
      else None)"

definition reviewed :: "guest_profile_identity \<Rightarrow> guest_profile option" where
  "reviewed identity =
     (case reviewed_limits (gp_canonical identity) of
        None \<Rightarrow> None
      | Some (uid, gid, capabilities) \<Rightarrow>
          Some \<lparr>profile_identity = identity,
                restrictions = \<lparr>gr_uid = uid, gr_gid = gid, bounding_capabilities = capabilities,
                  effective_capabilities = capabilities, inheritable_capabilities = [],
                  permitted_capabilities = capabilities, ambient_capabilities = [],
                  no_new_privileges = True, isolated_namespaces = ISOLATED_NAMESPACES,
                  masked_paths = MASKED_PATHS, readonly_paths = READONLY_PATHS,
                  directfs_enabled = False, host_unix_sockets = False, host_fifos = False\<rparr>\<rparr>)"

definition reviewed_named :: "string \<Rightarrow> (guest_profile, core_error) result" where
  "reviewed_named val =
     and_then (gp_parse val) (\<lambda>identity.
       ok_or (InvalidSpecification (''guest profile `'' @ val @ ''` is not a reviewed profile''))
         (reviewed identity))"

definition strict_profile :: "guest_profile exec" where
  "strict_profile = (case reviewed_named STRICT_GUEST_PROFILE of Inl _ \<Rightarrow> Panic | Inr p \<Rightarrow> Done p)"

subsection \<open>Backends and their capabilities\<close>

datatype backend_kind = Gvisor | MarcoVm

record backend_descriptor =
  backend_kind :: backend_kind
  implementation :: string
  implementation_version :: string
  state_format_version :: u32
  configuration_digest :: string

datatype snapshot_portability =
  PortNone | SameWorker | SameBackend | CrossWorkerSameBackend | CrossBackend

definition permits_cross_worker :: "snapshot_portability \<Rightarrow> bool" where
  "permits_cross_worker p \<longleftrightarrow> p \<in> {CrossWorkerSameBackend, CrossBackend}"

record network_capabilities =
  http_connect_proxy :: bool
  reverse_http_ingress :: bool
  restricted_tcp :: bool
  transparent_tcp :: bool
  cap_udp :: bool

definition NETWORK_LOOPBACK :: network_capabilities where
  "NETWORK_LOOPBACK = \<lparr>http_connect_proxy = False, reverse_http_ingress = False,
     restricted_tcp = False, transparent_tcp = False, cap_udp = False\<rparr>"

definition NETWORK_USERSPACE :: network_capabilities where
  "NETWORK_USERSPACE = \<lparr>http_connect_proxy = True, reverse_http_ingress = True,
     restricted_tcp = False, transparent_tcp = False, cap_udp = False\<rparr>"

definition NETWORK_PRIVATE :: network_capabilities where
  "NETWORK_PRIVATE = \<lparr>http_connect_proxy = True, reverse_http_ingress = True,
     restricted_tcp = True, transparent_tcp = False, cap_udp = False\<rparr>"

definition default_network_capabilities :: network_capabilities where
  "default_network_capabilities = NETWORK_LOOPBACK"

record backend_capabilities =
  multi_container :: bool
  pause_resume :: bool
  live_snapshot :: bool
  stop_and_snapshot :: bool
  cap_preserves_internal_connections :: bool
  writable_root_filesystems :: bool
  writable_root_snapshots :: bool
  named_volumes :: bool
  artifact_volumes :: bool
  secret_volumes :: bool
  volume_snapshots :: bool
  volume_snapshot_portability :: snapshot_portability
  cap_snapshot_portability :: snapshot_portability
  maximum_containers :: u16
  maximum_writable_root_bytes :: u64
  guest_profiles :: "guest_profile list"
  cap_network :: network_capabilities

definition gvisor_snapshot ::
  "u16 \<Rightarrow> u64 \<Rightarrow> snapshot_portability \<Rightarrow> guest_profile list \<Rightarrow> backend_capabilities" where
  "gvisor_snapshot containers root_bytes portability profiles =
     \<lparr>multi_container = True, pause_resume = True, live_snapshot = True, stop_and_snapshot = True,
      cap_preserves_internal_connections = True, writable_root_filesystems = True,
      writable_root_snapshots = True, named_volumes = True, artifact_volumes = True,
      secret_volumes = True, volume_snapshots = True, volume_snapshot_portability = portability,
      cap_snapshot_portability = portability, maximum_containers = containers,
      maximum_writable_root_bytes = root_bytes, guest_profiles = profiles,
      cap_network = NETWORK_LOOPBACK\<rparr>"

definition with_network :: "backend_capabilities \<Rightarrow> network_capabilities \<Rightarrow> backend_capabilities" where
  "with_network c network = c\<lparr>cap_network := network\<rparr>"

subsection \<open>Properties\<close>

lemma gp_parse_samples:
  "gp_parse STRICT_GUEST_PROFILE = Ok (GuestProfileIdentity ''strict'' 1)"
  "gp_parse ROOT_GUEST_PROFILE = Ok (GuestProfileIdentity ''root-in-sandbox'' 1)"
  "gp_parse OCI_COMPAT_GUEST_PROFILE = Ok (GuestProfileIdentity ''oci-compat'' 1)"
proof -
  have show1: "show_word (1 :: u32) = ''1''"
    by (simp add: show_word_def show_nat.simps digit_char_def char_of_def bit_0)
  have c: "STRICT_GUEST_PROFILE = gp_canonical (GuestProfileIdentity ''strict'' 1)"
    "ROOT_GUEST_PROFILE = gp_canonical (GuestProfileIdentity ''root-in-sandbox'' 1)"
    "OCI_COMPAT_GUEST_PROFILE = gp_canonical (GuestProfileIdentity ''oci-compat'' 1)"
    by (simp_all add: gp_canonical_def show1 STRICT_GUEST_PROFILE_def ROOT_GUEST_PROFILE_def
        OCI_COMPAT_GUEST_PROFILE_def)
  have v: "gp_valid (GuestProfileIdentity ''strict'' 1)"
    "gp_valid (GuestProfileIdentity ''root-in-sandbox'' 1)"
    "gp_valid (GuestProfileIdentity ''oci-compat'' 1)"
    by (simp_all add: gp_valid_def gp_name_byte_def ascii_defs)
  show "gp_parse STRICT_GUEST_PROFILE = Ok (GuestProfileIdentity ''strict'' 1)"
    "gp_parse ROOT_GUEST_PROFILE = Ok (GuestProfileIdentity ''root-in-sandbox'' 1)"
    "gp_parse OCI_COMPAT_GUEST_PROFILE = Ok (GuestProfileIdentity ''oci-compat'' 1)"
    unfolding c by (simp_all add: gp_parse_print v)
qed

text \<open>
  C38: guest profile identities have one text each. Printing and reparsing an identity
  gives it back exactly when its name and version are well formed, and every text that
  parses is the canonical text of what it parses to, so two distinct texts never name
  the same profile.
\<close>
theorem guest_profile_roundtrip:
  "(gp_parse (gp_canonical i) = Ok i \<longleftrightarrow> gp_valid i) \<and>
   (gp_parse s = Ok i \<longrightarrow> gp_valid i \<and> gp_canonical i = s) \<and>
   (gp_parse s = Ok i \<and> gp_parse t = Ok i \<longrightarrow> s = t)"
  using gp.recheck gp.parse_canonical gp.parse_inj by blast

theorem guest_profile_roundtrip_witness:
  "gp_parse STRICT_GUEST_PROFILE = Ok (GuestProfileIdentity ''strict'' 1) \<and>
   gp_canonical (GuestProfileIdentity ''strict'' 1) = STRICT_GUEST_PROFILE"
  using gp_parse_samples(1)
    guest_profile_roundtrip [of "GuestProfileIdentity ''strict'' 1" STRICT_GUEST_PROFILE STRICT_GUEST_PROFILE]
  by blast

lemma reviewed_limits_None_iff:
  "reviewed_limits c = None \<longleftrightarrow> c \<notin> {STRICT_GUEST_PROFILE, ROOT_GUEST_PROFILE, OCI_COMPAT_GUEST_PROFILE}"
  by (simp add: reviewed_limits_def)



lemma strict_profile_exists: "strict_profile \<noteq> Panic"
  using gp_parse_samples(1) gp_parse_canonical [OF gp_parse_samples(1)]
  by (simp add: strict_profile_def reviewed_named_def reviewed_def reviewed_limits_def)

end
