(* ===== verification/Worker_Pool.thy ===== *)
theory Worker_Pool
  imports Guest_Profile
begin

text \<open>
  \<^verbatim>\<open>crates/sandbox-core/src/worker.rs\<close>, \<^verbatim>\<open>work_order.rs\<close> and \<^verbatim>\<open>autoscale.rs\<close>: worker
  resource shapes, the claims of a signed work order, the catalog of worker pools with its
  routing, and the autoscaler's decision function.
\<close>

subsection \<open>Workers\<close>

definition WORKER_RESOURCE_SHAPE_VERSION :: u32 where "WORKER_RESOURCE_SHAPE_VERSION = 1"

datatype worker_state = Starting | Clean | Leased | WorkerRunning | Draining | Cleaning | Quarantined

definition is_ready :: "worker_state \<Rightarrow> bool" where
  "is_ready s \<longleftrightarrow> s = Clean"

record worker_resource_shape =
  shape_schema_version :: u32
  shape_name :: string
  sandbox_cpu_millis :: u32
  sandbox_memory_bytes :: u64
  sandbox_pids :: u32
  sandbox_ephemeral_storage_bytes :: u64
  shape_maximum_services :: u16

record sandbox_resource_demand =
  demand_services :: u16
  demand_cpu_millis :: u64
  demand_memory_bytes :: u64
  demand_pids :: u64
  demand_ephemeral_storage_bytes :: u64

text \<open>\<open>valid_name\<close> of \<open>worker.rs\<close> and \<open>valid_operator_name\<close> of \<open>autoscale.rs\<close> have the same body.\<close>

definition valid_operator_name :: "string \<Rightarrow> bool" where
  "valid_operator_name val \<longleftrightarrow> val \<noteq> [] \<and> length val \<le> 63 \<and>
     list_all (\<lambda>b. is_ascii_lowercase b \<or> is_ascii_digit b \<or> b = CHR ''-'') val \<and>
     (case val of [] \<Rightarrow> False | b # _ \<Rightarrow> is_ascii_alphanumeric b) \<and>
     (case rev val of [] \<Rightarrow> False | b # _ \<Rightarrow> is_ascii_alphanumeric b)"

definition shape_validate :: "worker_resource_shape \<Rightarrow> (unit, core_error) result" where
  "shape_validate s =
     (if shape_schema_version s \<noteq> WORKER_RESOURCE_SHAPE_VERSION \<or>
         \<not> valid_operator_name (shape_name s) \<or>
         sandbox_cpu_millis s = 0 \<or> sandbox_cpu_millis s > 64000 \<or>
         sandbox_memory_bytes s < 64 * 1024 * 1024 \<or>
         sandbox_memory_bytes s > 1024 * 1024 * 1024 * 1024 \<or>
         sandbox_pids s = 0 \<or> sandbox_pids s > 1048576 \<or>
         sandbox_ephemeral_storage_bytes s < 64 * 1024 * 1024 \<or>
         sandbox_ephemeral_storage_bytes s > 16 * 1024 * 1024 * 1024 * 1024 \<or>
         shape_maximum_services s = 0 \<or> shape_maximum_services s > 64
      then Err (InvalidSpecification ''worker resource shape is invalid'') else Ok ())"

definition demand_validate :: "sandbox_resource_demand \<Rightarrow> (unit, core_error) result" where
  "demand_validate d =
     (if demand_services d = 0 \<or> demand_cpu_millis d = 0 \<or> demand_memory_bytes d = 0 \<or> demand_pids d = 0
      then Err (InvalidSpecification ''sandbox resource demand is invalid'') else Ok ())"

definition require_capacity ::
  "worker_resource_shape \<Rightarrow> sandbox_resource_demand \<Rightarrow> (unit, core_error) result" where
  "require_capacity s d =
     and_then (shape_validate s) (\<lambda>_. and_then (demand_validate d) (\<lambda>_.
       if demand_services d > shape_maximum_services s \<or>
          demand_cpu_millis d > ucast (sandbox_cpu_millis s) \<or>
          demand_memory_bytes d > sandbox_memory_bytes s \<or>
          demand_pids d > ucast (sandbox_pids s) \<or>
          demand_ephemeral_storage_bytes d > sandbox_ephemeral_storage_bytes s
       then Err (InvalidSpecification
              (''sandbox demand exceeds worker resource shape `'' @ shape_name s @ ''`''))
       else Ok ()))"

subsection \<open>Work orders\<close>

definition WORK_ORDER_VERSION :: u32 where "WORK_ORDER_VERSION = 4"
definition MAXIMUM_WORK_ORDER_LIFETIME_MILLIS :: u64 where
  "MAXIMUM_WORK_ORDER_LIFETIME_MILLIS = 5 * 60 * 1000"

datatype work_order_operation =
    WoPing | WoStats | WoAdmit | WoRun | WoCreate | WoRestore | WoInspect | WoPause | WoResume
  | WoStop | WoLogs | WoSnapshot

definition requires_sandbox :: "work_order_operation \<Rightarrow> bool" where
  "requires_sandbox op \<longleftrightarrow> op \<notin> {WoPing, WoStats, WoAdmit}"

record resource_ceilings =
  allowed_guest_profiles :: "guest_profile_identity list"
  ceil_maximum_services :: u16
  ceil_maximum_timeout_ms :: u64
  memory_bytes_per_service :: u64
  cpu_per_service_millis :: u32
  pids_per_service :: u32
  ceil_tmpfs_bytes :: u64
  writable_root_bytes_per_service :: u64
  ceil_maximum_volumes :: u16
  ceil_maximum_volume_bytes :: u64
  ceil_maximum_output_bytes :: u64

definition ceilings_validate :: "resource_ceilings \<Rightarrow> (unit, core_error) result" where
  "ceilings_validate c =
     (let profiles = allowed_guest_profiles c in
      if profiles = [] \<or> length profiles > 16 \<or>
         list_ex (\<lambda>index. profiles ! index \<in> set (take index profiles) \<or>
                    gp_parse (gp_canonical (profiles ! index)) \<noteq> Ok (profiles ! index))
           [0..<length profiles] \<or>
         ceil_maximum_services c = 0 \<or> ceil_maximum_services c > 64 \<or>
         ceil_maximum_timeout_ms c = 0 \<or> ceil_maximum_timeout_ms c > 300000 \<or>
         memory_bytes_per_service c = 0 \<or> cpu_per_service_millis c = 0 \<or> pids_per_service c = 0 \<or>
         ceil_tmpfs_bytes c = 0 \<or> writable_root_bytes_per_service c = 0 \<or>
         ceil_maximum_volumes c > 128 \<or> ceil_maximum_volume_bytes c = 0 \<or>
         ceil_maximum_output_bytes c = 0
      then Err (InvalidWorkOrder ''resource ceilings are invalid'') else Ok ())"

record work_order_claims =
  wo_schema_version :: u32
  wo_tenant_id :: tenant_id
  wo_workspace_id :: workspace_id
  wo_subject_id :: subject_id
  wo_request_id :: string
  wo_operation :: work_order_operation
  wo_sandbox_id :: "sandbox_id option"
  wo_assignment_epoch :: assignment_epoch
  wo_issued_unix_millis :: u64
  wo_expires_unix_millis :: u64
  wo_nonce :: string
  wo_operation_digest :: string
  wo_resource_ceilings :: resource_ceilings

record signed_work_order =
  wo_claims :: work_order_claims
  wo_signature :: string

definition bounded_token :: "string \<Rightarrow> nat \<Rightarrow> bool" where
  "bounded_token val maximum \<longleftrightarrow> val \<noteq> [] \<and> length val \<le> maximum \<and>
     list_all (\<lambda>b. is_ascii_alphanumeric b \<or> b \<in> {CHR ''-'', CHR ''_''}) val"

definition claims_validate :: "work_order_claims \<Rightarrow> (unit, core_error) result" where
  "claims_validate c =
     (if wo_schema_version c \<noteq> WORK_ORDER_VERSION
      then Err (InvalidWorkOrder ''unsupported schema version'')
      else if \<not> bounded_token (wo_request_id c) 64 \<or> \<not> bounded_token (wo_nonce c) 96
      then Err (InvalidWorkOrder ''request ID or nonce is invalid'')
      else if requires_sandbox (wo_operation c) \<noteq> (wo_sandbox_id c \<noteq> None)
      then Err (InvalidWorkOrder ''sandbox identity does not match the operation'')
      else if wo_issued_unix_millis c = 0 \<or> wo_expires_unix_millis c \<le> wo_issued_unix_millis c \<or>
              saturating_sub (wo_expires_unix_millis c) (wo_issued_unix_millis c)
                > MAXIMUM_WORK_ORDER_LIFETIME_MILLIS
      then Err (InvalidWorkOrder ''work-order lifetime is invalid'')
      else and_then (map_err (\<lambda>e. InvalidWorkOrder (core_error_display e))
                       (validate_digest ''operation'' (wo_operation_digest c)))
             (\<lambda>_. ceilings_validate (wo_resource_ceilings c)))"

subsection \<open>Pools\<close>

definition WORKER_POOL_CATALOG_VERSION :: u32 where "WORKER_POOL_CATALOG_VERSION = 1"
definition MAXIMUM_WORKER_POOLS :: nat where "MAXIMUM_WORKER_POOLS = 128"

datatype network_feature_tier = TierLoopback | UserspaceEgress | UserspaceIngress
datatype storage_feature_tier = TierEphemeral | TierDirectory | TierPersistent

record worker_pool_key =
  attested_root_cohort :: string
  resource_shape :: string
  key_guest_profile :: guest_profile_identity
  runtime_compatibility_cohort :: string
  network_tier :: network_feature_tier
  storage_tier :: storage_feature_tier

definition pool_key_validate :: "worker_pool_key \<Rightarrow> (unit, core_error) result" where
  "pool_key_validate k =
     (if \<not> valid_operator_name (attested_root_cohort k) \<or> \<not> valid_operator_name (resource_shape k) \<or>
         \<not> valid_operator_name (runtime_compatibility_cohort k) \<or>
         length (gp_canonical (key_guest_profile k)) > 63
      then Err (InvalidSpecification ''worker pool key is invalid'') else Ok ())"

record worker_pool_request =
  req_attested_root_cohort :: string
  req_resource_shape :: string
  req_guest_profile :: guest_profile_identity
  req_runtime_compatibility_cohort :: string
  req_network_tier :: network_feature_tier
  req_storage_tier :: storage_feature_tier

definition as_key :: "worker_pool_request \<Rightarrow> worker_pool_key" where
  "as_key r = \<lparr>attested_root_cohort = req_attested_root_cohort r, resource_shape = req_resource_shape r,
     key_guest_profile = req_guest_profile r,
     runtime_compatibility_cohort = req_runtime_compatibility_cohort r,
     network_tier = req_network_tier r, storage_tier = req_storage_tier r\<rparr>"

record pool_policy =
  minimum_workers :: u32
  maximum_workers :: u32
  warm_headroom :: u32
  maximum_scale_up_per_reconcile :: u32
  maximum_scale_down_per_reconcile :: u32
  idle_before_scale_down_ms :: u64

definition pool_policy_validate :: "pool_policy \<Rightarrow> (unit, core_error) result" where
  "pool_policy_validate p =
     (if maximum_workers p = 0 \<or> maximum_workers p > 100000 \<or>
         minimum_workers p > maximum_workers p \<or> warm_headroom p > maximum_workers p \<or>
         maximum_scale_up_per_reconcile p = 0 \<or> maximum_scale_down_per_reconcile p = 0 \<or>
         idle_before_scale_down_ms p > 30 * 24 * 60 * 60 * 1000
      then Err (InvalidSpecification ''worker pool autoscale policy is invalid'') else Ok ())"

record worker_pool =
  pool_name :: string
  kubernetes_stateful_set :: string
  placement_topology :: string
  pool_resource_ceilings :: resource_ceilings
  pool_key :: worker_pool_key
  pool_policy :: pool_policy
  cold_fallback :: bool

record worker_pool_catalog =
  catalog_schema_version :: u32
  pools :: "worker_pool list"

type_synonym catalog_seen = "string set \<times> string set \<times> worker_pool_key set \<times> nat"

definition catalog_visit :: "catalog_seen \<Rightarrow> worker_pool \<Rightarrow> (catalog_seen, core_error) result" where
  "catalog_visit seen pool =
     (case seen of (names, stateful_sets, keys, fallback_count) \<Rightarrow>
        if \<not> valid_operator_name (pool_name pool) \<or>
           \<not> valid_operator_name (kubernetes_stateful_set pool) \<or>
           \<not> valid_operator_name (placement_topology pool) \<or>
           pool_name pool \<in> names \<or> kubernetes_stateful_set pool \<in> stateful_sets \<or>
           pool_key pool \<in> keys
        then Err (InvalidSpecification ''worker pool catalog contains duplicate or invalid identity'')
        else and_then (pool_key_validate (pool_key pool)) (\<lambda>_.
             and_then (ceilings_validate (pool_resource_ceilings pool)) (\<lambda>_.
             and_then (pool_policy_validate (pool_policy pool)) (\<lambda>_.
               Ok (insert (pool_name pool) names,
                   insert (kubernetes_stateful_set pool) stateful_sets,
                   insert (pool_key pool) keys,
                   if cold_fallback pool then fallback_count + 1 else fallback_count)))))"

definition catalog_validate :: "worker_pool_catalog \<Rightarrow> (unit, core_error) result" where
  "catalog_validate c =
     (if catalog_schema_version c \<noteq> WORKER_POOL_CATALOG_VERSION \<or> pools c = [] \<or>
         length (pools c) > MAXIMUM_WORKER_POOLS
      then Err (InvalidSpecification ''worker pool catalog version or size is invalid'')
      else and_then (try_fold catalog_visit ({}, {}, {}, 0) (pools c))
        (\<lambda>(_, _, _, fallback_count).
           if fallback_count \<noteq> 1
           then Err (InvalidSpecification ''worker pool catalog must contain exactly one cold fallback'')
           else Ok ()))"

definition route ::
  "worker_pool_catalog \<Rightarrow> worker_pool_request \<Rightarrow> (worker_pool, core_error) result exec" where
  "route c request =
     (case and_then (catalog_validate c) (\<lambda>_. pool_key_validate (as_key request)) of
        Inl e \<Rightarrow> Done (Err e)
      | Inr _ \<Rightarrow>
          (case find (\<lambda>pool. pool_key pool = as_key request) (pools c) of
             Some pool \<Rightarrow> Done (Ok pool)
           | None \<Rightarrow>
               (case find cold_fallback (pools c) of
                  Some pool \<Rightarrow> Done (Ok pool)
                | None \<Rightarrow> Panic)))"

definition pool_named :: "worker_pool_catalog \<Rightarrow> string \<Rightarrow> (worker_pool, core_error) result" where
  "pool_named c name =
     and_then (catalog_validate c) (\<lambda>_.
       ok_or (InvalidSpecification ''worker pool is not present in the reviewed catalog'')
         (find (\<lambda>pool. pool_name pool = name) (pools c)))"

datatype service_level_policy = ScaleToZero | RetainedWarm u32

definition service_level_apply ::
  "service_level_policy \<Rightarrow> pool_policy \<Rightarrow> (pool_policy, core_error) result" where
  "service_level_apply level pool =
     and_then (pool_policy_validate pool) (\<lambda>_.
     and_then
       (case level of
          ScaleToZero \<Rightarrow> Ok (pool\<lparr>minimum_workers := 0, warm_headroom := 0\<rparr>)
        | RetainedWarm clean_workers \<Rightarrow>
            if clean_workers = 0 \<or> clean_workers > maximum_workers pool
            then Err (InvalidSpecification ''retained warm service level is invalid'')
            else Ok (pool\<lparr>minimum_workers := max (minimum_workers pool) clean_workers,
                          warm_headroom := clean_workers\<rparr>))
       (\<lambda>pool'. and_then (pool_policy_validate pool') (\<lambda>_. Ok pool')))"

subsection \<open>The autoscaler's decision\<close>

record pool_observation =
  current_workers :: u32
  obs_clean_workers :: u32
  leased_or_active_workers :: u32
  draining_workers :: u32
  queued_assignments :: u32
  quota_workers :: u32
  idle_since_unix_ms :: "u64 option"

definition observation_validate :: "pool_observation \<Rightarrow> (unit, core_error) result" where
  "observation_validate o' =
     and_then (ok_or (InvalidSpecification ''worker pool counters overflow'')
                 (checked_add (obs_clean_workers o') (leased_or_active_workers o')))
       (\<lambda>routable. if routable > current_workers o'
          then Err (InvalidSpecification ''routable worker counters exceed current capacity'') else Ok ())"

record autoscale_decision =
  desired_workers :: u32
  create_workers :: u32
  drain_clean_workers :: u32
  backpressured_assignments :: u32

definition required_workers :: "pool_policy \<Rightarrow> pool_observation \<Rightarrow> u32" where
  "required_workers p o' =
     max (saturating_add (saturating_add (leased_or_active_workers o') (queued_assignments o'))
            (warm_headroom p)) (minimum_workers p)"

definition idle_elapsed :: "pool_policy \<Rightarrow> pool_observation \<Rightarrow> u64 \<Rightarrow> bool" where
  "idle_elapsed p o' now =
     (case idle_since_unix_ms o' of None \<Rightarrow> False
      | Some idle_since \<Rightarrow> saturating_sub now idle_since \<ge> idle_before_scale_down_ms p)"

definition reconcile ::
  "pool_policy \<Rightarrow> pool_observation \<Rightarrow> u64 \<Rightarrow> (autoscale_decision, core_error) result" where
  "reconcile p o' now =
     and_then (pool_policy_validate p) (\<lambda>_. and_then (observation_validate o') (\<lambda>_.
       let effective_maximum = min (maximum_workers p) (quota_workers o');
           required = required_workers p o';
           target = min required effective_maximum;
           backpressured = saturating_sub required effective_maximum
       in if target > current_workers o'
          then let create = min (saturating_sub target (current_workers o')) (maximum_scale_up_per_reconcile p)
               in Ok \<lparr>desired_workers = saturating_add (current_workers o') create, create_workers = create,
                      drain_clean_workers = 0, backpressured_assignments = backpressured\<rparr>
          else if target < current_workers o' \<and> queued_assignments o' = 0 \<and> idle_elapsed p o' now
          then let removable = min (min (saturating_sub (obs_clean_workers o') (warm_headroom p))
                                        (saturating_sub (current_workers o') target))
                                   (maximum_scale_down_per_reconcile p)
               in Ok \<lparr>desired_workers = saturating_sub (current_workers o') removable, create_workers = 0,
                      drain_clean_workers = removable, backpressured_assignments = backpressured\<rparr>
          else Ok \<lparr>desired_workers = current_workers o', create_workers = 0, drain_clean_workers = 0,
                   backpressured_assignments = backpressured\<rparr>))"

end
