(* ===== verification/Worker_Pool_Correct.thy ===== *)
theory Worker_Pool_Correct
  imports Worker_Pool
begin

text \<open>
  Correctness of the pool layer: what an accepted work order and an admitted demand
  guarantee, that routing is total and deterministic on a validated catalog, and that the
  autoscaler's decisions are safe and converge.
\<close>

subsection \<open>Work orders and demands\<close>

lemma list_ex_prefix:
  "list_ex (\<lambda>i. xs ! i \<in> set (take i xs) \<or> P (xs ! i)) [0..<length xs] \<longleftrightarrow> \<not> distinct xs \<or> list_ex P xs"
proof (induction xs rule: rev_induct)
  case (snoc x xs)
  have "list_ex (\<lambda>i. (xs @ [x]) ! i \<in> set (take i (xs @ [x])) \<or> P ((xs @ [x]) ! i)) [0..<length xs] \<longleftrightarrow>
      list_ex (\<lambda>i. xs ! i \<in> set (take i xs) \<or> P (xs ! i)) [0..<length xs]"
    by (auto simp: list_ex_iff nth_append)
  with snoc show ?case by (auto simp: nth_append)
qed simp

lemma ceilings_validate_iff:
  "ceilings_validate c = Ok () \<longleftrightarrow>
     allowed_guest_profiles c \<noteq> [] \<and> length (allowed_guest_profiles c) \<le> 16 \<and>
     distinct (allowed_guest_profiles c) \<and> (\<forall>p \<in> set (allowed_guest_profiles c). gp_valid p) \<and>
     0 < unat (ceil_maximum_services c) \<and> unat (ceil_maximum_services c) \<le> 64 \<and>
     0 < unat (ceil_maximum_timeout_ms c) \<and> unat (ceil_maximum_timeout_ms c) \<le> 300000 \<and>
     memory_bytes_per_service c \<noteq> 0 \<and> cpu_per_service_millis c \<noteq> 0 \<and> pids_per_service c \<noteq> 0 \<and>
     ceil_tmpfs_bytes c \<noteq> 0 \<and> writable_root_bytes_per_service c \<noteq> 0 \<and>
     unat (ceil_maximum_volumes c) \<le> 128 \<and> ceil_maximum_volume_bytes c \<noteq> 0 \<and>
     ceil_maximum_output_bytes c \<noteq> 0"
proof -
  have "list_ex (\<lambda>i. ps ! i \<in> set (take i ps) \<or> gp_parse (gp_canonical (ps ! i)) \<noteq> Ok (ps ! i)) [0..<length ps] \<longleftrightarrow>
      \<not> (distinct ps \<and> (\<forall>p \<in> set ps. gp_valid p))" for ps
    using list_ex_prefix [of ps "\<lambda>p. gp_parse (gp_canonical p) \<noteq> Ok p"]
    by (auto simp: gp.recheck list_ex_iff)
  then show ?thesis
    by (simp add: ceilings_validate_def Let_def not_less word_le_nat_alt unat_gt_0) blast
qed

text \<open>
  What an accepted work order guarantees. Its claims validate exactly when the schema
  version is current, request id and nonce are bounded tokens, a sandbox is named
  precisely for the operations that need one, it was issued at a nonzero time and lives
  for at most five minutes, its operation digest is a well-formed SHA-256 digest, and its
  ceilings are valid: between 1 and 16 distinct well-formed guest profiles and every
  resource bounded away from zero.
\<close>
theorem claims_validate_iff:
  "claims_validate c = Ok () \<longleftrightarrow>
     wo_schema_version c = 4 \<and> bounded_token (wo_request_id c) 64 \<and> bounded_token (wo_nonce c) 96 \<and>
     (wo_sandbox_id c \<noteq> None \<longleftrightarrow> wo_operation c \<notin> {WoPing, WoStats, WoAdmit}) \<and>
     0 < unat (wo_issued_unix_millis c) \<and>
     unat (wo_issued_unix_millis c) < unat (wo_expires_unix_millis c) \<and>
     unat (wo_expires_unix_millis c) \<le> unat (wo_issued_unix_millis c) + 300000 \<and>
     (\<exists>h. wo_operation_digest c = ''sha256:'' @ h \<and> length h = 64 \<and> list_all is_ascii_hexdigit h) \<and>
     ceilings_validate (wo_resource_ceilings c) = Ok ()"
proof -
  have life: "\<not> (i = 0 \<or> x \<le> i \<or> saturating_sub x i > MAXIMUM_WORK_ORDER_LIFETIME_MILLIS) \<longleftrightarrow>
      0 < unat i \<and> unat i < unat x \<and> unat x \<le> unat i + 300000" for i x :: u64
    by (auto simp: word_less_nat_alt word_le_nat_alt unat_saturating_sub
        MAXIMUM_WORK_ORDER_LIFETIME_MILLIS_def unat_gt_0)
  have "claims_validate c = Ok () \<longleftrightarrow>
      wo_schema_version c = WORK_ORDER_VERSION \<and>
      (bounded_token (wo_request_id c) 64 \<and> bounded_token (wo_nonce c) 96) \<and>
      (requires_sandbox (wo_operation c) \<longleftrightarrow> wo_sandbox_id c \<noteq> None) \<and>
      \<not> (wo_issued_unix_millis c = 0 \<or> wo_expires_unix_millis c \<le> wo_issued_unix_millis c \<or>
         saturating_sub (wo_expires_unix_millis c) (wo_issued_unix_millis c) > MAXIMUM_WORK_ORDER_LIFETIME_MILLIS) \<and>
      validate_digest ''operation'' (wo_operation_digest c) = Ok () \<and>
      ceilings_validate (wo_resource_ceilings c) = Ok ()"
    unfolding claims_validate_def if_Inl_eq_Inr and_then_eq_Inr map_err_eq_Inr by auto
  then show ?thesis
    unfolding life validate_digest_eq_Ok requires_sandbox_def WORK_ORDER_VERSION_def by blast
qed

text \<open>
  A demand is admitted to a worker exactly when shape and demand are valid and every
  quantity fits, compared as numbers across the differing integer widths.
\<close>
theorem require_capacity_iff:
  "require_capacity s d = Ok () \<longleftrightarrow>
     shape_validate s = Ok () \<and> demand_validate d = Ok () \<and>
     unat (demand_services d) \<le> unat (shape_maximum_services s) \<and>
     unat (demand_cpu_millis d) \<le> unat (sandbox_cpu_millis s) \<and>
     unat (demand_memory_bytes d) \<le> unat (sandbox_memory_bytes s) \<and>
     unat (demand_pids d) \<le> unat (sandbox_pids s) \<and>
     unat (demand_ephemeral_storage_bytes d) \<le> unat (sandbox_ephemeral_storage_bytes s)"
proof -
  have "unat (ucast x :: u64) = unat x" for x :: u32 by (rule unat_ucast_widen) simp
  then show ?thesis
    by (auto simp: require_capacity_def word_less_nat_alt not_less)
qed

subsection \<open>Catalog and routing\<close>

lemma catalog_fold:
  "try_fold catalog_visit (N, S, K, n) ps = Ok (N', S', K', n') \<Longrightarrow>
     distinct (map pool_name ps) \<and> distinct (map kubernetes_stateful_set ps) \<and> distinct (map pool_key ps) \<and>
     (\<forall>p \<in> set ps. pool_name p \<notin> N \<and> kubernetes_stateful_set p \<notin> S \<and> pool_key p \<notin> K \<and>
        pool_key_validate (pool_key p) = Ok () \<and> ceilings_validate (pool_resource_ceilings p) = Ok () \<and>
        pool_policy_validate (pool_policy p) = Ok ()) \<and>
     n' = n + length (filter cold_fallback ps)"
proof (induction ps arbitrary: N S K n)
  case (Cons p ps)
  from Cons.prems obtain N1 S1 K1 n1 where v: "catalog_visit (N, S, K, n) p = Ok (N1, S1, K1, n1)"
    and f: "try_fold catalog_visit (N1, S1, K1, n1) ps = Ok (N', S', K', n')" by auto
  from v have 1: "N1 = insert (pool_name p) N" "S1 = insert (kubernetes_stateful_set p) S"
    "K1 = insert (pool_key p) K" "n1 = (if cold_fallback p then n + 1 else n)"
    and 2: "pool_name p \<notin> N \<and> kubernetes_stateful_set p \<notin> S \<and> pool_key p \<notin> K \<and>
        pool_key_validate (pool_key p) = Ok () \<and> ceilings_validate (pool_resource_ceilings p) = Ok () \<and>
        pool_policy_validate (pool_policy p) = Ok ()"
    by (auto simp: catalog_visit_def)
  from Cons.IH [OF f] 1 2 show ?case by auto
qed simp

lemma catalog_validD:
  assumes "catalog_validate c = Ok ()"
  shows "distinct (map pool_name (pools c))" "distinct (map pool_key (pools c))"
    "length (filter cold_fallback (pools c)) = 1"
    "p \<in> set (pools c) \<Longrightarrow> pool_policy_validate (pool_policy p) = Ok ()"
proof -
  from assms obtain N S K where "try_fold catalog_visit ({}, {}, {}, 0) (pools c) = Ok (N, S, K, 1)"
    by (auto simp: catalog_validate_def split: if_splits)
  note f = catalog_fold [OF this]
  show "distinct (map pool_name (pools c))" "distinct (map pool_key (pools c))"
    "length (filter cold_fallback (pools c)) = 1"
    "p \<in> set (pools c) \<Longrightarrow> pool_policy_validate (pool_policy p) = Ok ()"
    using f by auto
qed

lemma distinct_map_unique: "distinct (map f xs) \<Longrightarrow> x \<in> set xs \<Longrightarrow> y \<in> set xs \<Longrightarrow> f x = f y \<Longrightarrow> x = y"
  by (auto simp: distinct_map inj_on_def)

lemma find_filter: "find P xs = (case filter P xs of [] \<Rightarrow> None | x # _ \<Rightarrow> Some x)"
  by (induction xs) auto

text \<open>
  Routing is total and unambiguous. On a validated catalog every well-formed request
  is routed without panicking, to the one pool whose key equals the request if there is
  one, and otherwise to the one cold fallback pool.
\<close>
theorem route_total:
  assumes "catalog_validate c = Ok ()" and "pool_key_validate (as_key r) = Ok ()"
  shows "\<exists>p. route c r = Done (Ok p) \<and> p \<in> set (pools c) \<and>
    (if \<exists>p' \<in> set (pools c). pool_key p' = as_key r
     then pool_key p = as_key r \<and> (\<forall>p' \<in> set (pools c). pool_key p' = as_key r \<longrightarrow> p' = p)
     else filter cold_fallback (pools c) = [p])"
proof (cases "find (\<lambda>p. pool_key p = as_key r) (pools c)")
  case (Some p)
  then have p: "p \<in> set (pools c)" "pool_key p = as_key r" by (auto simp: find_Some_iff)
  have "p' = p" if "p' \<in> set (pools c)" "pool_key p' = as_key r" for p'
    using distinct_map_unique [OF catalog_validD(2) [OF assms(1)] that(1) p(1)] that(2) p(2) by simp
  then have uniq: "\<forall>p' \<in> set (pools c). pool_key p' = as_key r \<longrightarrow> p' = p" by blast
  have ex: "\<exists>p' \<in> set (pools c). pool_key p' = as_key r" using p by blast
  have "route c r = Done (Ok p)" using assms Some by (simp add: route_def)
  with p uniq show ?thesis unfolding if_P [OF ex] by (intro exI [of _ p] conjI)
next
  case None
  then have none: "\<not> (\<exists>p' \<in> set (pools c). pool_key p' = as_key r)" by (auto simp: find_None_iff)
  from catalog_validD(3) [OF assms(1)] obtain p where p: "filter cold_fallback (pools c) = [p]"
    by (auto simp: length_Suc_conv)
  moreover have "find cold_fallback (pools c) = Some p"
    using p by (simp add: find_filter)
  moreover have "p \<in> set (pools c)"
    using filter_is_subset [of cold_fallback "pools c"] unfolding p by simp
  ultimately have "route c r = Done (Ok p)" "p \<in> set (pools c)" using None assms by (auto simp: route_def)
  with p show ?thesis unfolding if_not_P [OF none] by (intro exI [of _ p] conjI)
qed

subsection \<open>Samples\<close>

definition sample_ceilings :: resource_ceilings where
  "sample_ceilings = \<lparr>allowed_guest_profiles = [GuestProfileIdentity ''strict'' 1],
     ceil_maximum_services = 4, ceil_maximum_timeout_ms = 10000, memory_bytes_per_service = 1024,
     cpu_per_service_millis = 100, pids_per_service = 16, ceil_tmpfs_bytes = 1024,
     writable_root_bytes_per_service = 1024, ceil_maximum_volumes = 4,
     ceil_maximum_volume_bytes = 4096, ceil_maximum_output_bytes = 1024\<rparr>"

definition sample_policy :: pool_policy where
  "sample_policy = \<lparr>minimum_workers = 1, maximum_workers = 10, warm_headroom = 2,
     maximum_scale_up_per_reconcile = 3, maximum_scale_down_per_reconcile = 2,
     idle_before_scale_down_ms = 1000\<rparr>"

definition sample_pool :: worker_pool where
  "sample_pool = \<lparr>pool_name = ''pool'', kubernetes_stateful_set = ''set'', placement_topology = ''zone'',
     pool_resource_ceilings = sample_ceilings,
     pool_key = \<lparr>attested_root_cohort = ''root'', resource_shape = ''small'',
       key_guest_profile = GuestProfileIdentity ''strict'' 1, runtime_compatibility_cohort = ''rt'',
       network_tier = TierLoopback, storage_tier = TierEphemeral\<rparr>,
     pool_policy = sample_policy, cold_fallback = True\<rparr>"

definition sample_request :: worker_pool_request where
  "sample_request = \<lparr>req_attested_root_cohort = ''other'', req_resource_shape = ''small'',
     req_guest_profile = GuestProfileIdentity ''strict'' 1, req_runtime_compatibility_cohort = ''rt'',
     req_network_tier = TierLoopback, req_storage_tier = TierEphemeral\<rparr>"

lemma sample_ceilings_valid: "ceilings_validate sample_ceilings = Ok ()"
  using gp_parse_canonical [OF gp_parse_samples(1)]
  by (simp add: ceilings_validate_iff sample_ceilings_def)

lemma sample_policy_valid: "pool_policy_validate sample_policy = Ok ()"
  by (simp add: pool_policy_validate_def sample_policy_def)

lemma strict_canonical: "gp_canonical (GuestProfileIdentity ''strict'' 1) = ''strict-v1''"
  using gp_parse_canonical [OF gp_parse_samples(1)] by (simp add: STRICT_GUEST_PROFILE_def)

lemma sample_catalog_valid:
  "catalog_validate \<lparr>catalog_schema_version = 1, pools = [sample_pool]\<rparr> = Ok ()"
  by (simp add: catalog_validate_def WORKER_POOL_CATALOG_VERSION_def MAXIMUM_WORKER_POOLS_def
      catalog_visit_def sample_pool_def valid_operator_name_def ascii_defs pool_key_validate_def
      strict_canonical sample_ceilings_valid sample_policy_valid)

lemma sample_request_valid: "pool_key_validate (as_key sample_request) = Ok ()"
  by (simp add: pool_key_validate_def as_key_def sample_request_def valid_operator_name_def ascii_defs
      strict_canonical)

theorem route_total_witness:
  "\<exists>p. route \<lparr>catalog_schema_version = 1, pools = [sample_pool]\<rparr> sample_request = Done (Ok p) \<and>
     p \<in> set [sample_pool]"
  using route_total [OF sample_catalog_valid sample_request_valid] by auto

definition sample_claims :: work_order_claims where
  "sample_claims = \<lparr>wo_schema_version = 4, wo_tenant_id = ''tenant'', wo_workspace_id = ''team'',
     wo_subject_id = ''broker'', wo_request_id = ''request-1'', wo_operation = WoCreate,
     wo_sandbox_id = Some ''sandbox'', wo_assignment_epoch = 1, wo_issued_unix_millis = 1,
     wo_expires_unix_millis = 2, wo_nonce = ''nonce-1'',
     wo_operation_digest = sample_digest CHR ''a'', wo_resource_ceilings = sample_ceilings\<rparr>"

theorem claims_validate_iff_witness:
  "claims_validate sample_claims = Ok ()"
proof -
  have "list_all is_ascii_hexdigit (replicate 64 CHR ''a'')"
    by (simp add: list_all_iff ascii_defs)
  moreover have "bounded_token ''request-1'' 64" "bounded_token ''nonce-1'' 96"
    by (simp_all add: bounded_token_def ascii_defs)
  ultimately show ?thesis
    unfolding claims_validate_iff
    by (simp add: sample_claims_def sample_ceilings_valid sample_digest_def)
qed

subsection \<open>The autoscaler\<close>

lemma observation_validate_iff:
  "observation_validate o' = Ok () \<longleftrightarrow>
     unat (obs_clean_workers o') + unat (leased_or_active_workers o') \<le> unat (current_workers o')"
proof (cases "checked_add (obs_clean_workers o') (leased_or_active_workers o')")
  case None
  then have "2 ^ 32 \<le> unat (obs_clean_workers o') + unat (leased_or_active_workers o')"
    by (simp add: checked_add_eq_None)
  with None unat_u32_lt [of "current_workers o'"] show ?thesis by (simp add: observation_validate_def)
next
  case (Some r)
  then have "unat r = unat (obs_clean_workers o') + unat (leased_or_active_workers o')"
    by (simp add: checked_add_eq_Some)
  with Some show ?thesis by (simp add: observation_validate_def word_less_nat_alt not_less)
qed

definition effective_maximum :: "pool_policy \<Rightarrow> pool_observation \<Rightarrow> nat" where
  "effective_maximum p o' = min (unat (maximum_workers p)) (unat (quota_workers o'))"

definition target_workers :: "pool_policy \<Rightarrow> pool_observation \<Rightarrow> nat" where
  "target_workers p o' = min (unat (required_workers p o')) (effective_maximum p o')"

definition target :: "pool_policy \<Rightarrow> pool_observation \<Rightarrow> u32" where
  "target p o' = min (required_workers p o') (min (maximum_workers p) (quota_workers o'))"

definition removable :: "pool_policy \<Rightarrow> pool_observation \<Rightarrow> u32" where
  "removable p o' = min (min (saturating_sub (obs_clean_workers o') (warm_headroom p))
     (saturating_sub (current_workers o') (target p o'))) (maximum_scale_down_per_reconcile p)"

definition shrinks :: "pool_policy \<Rightarrow> pool_observation \<Rightarrow> u64 \<Rightarrow> bool" where
  "shrinks p o' now \<longleftrightarrow> target p o' < current_workers o' \<and> queued_assignments o' = 0 \<and> idle_elapsed p o' now"

lemma unat_target: "unat (target p o') = target_workers p o'"
  by (simp add: target_def target_workers_def effective_maximum_def unat_min)

lemma reconcile_eq:
  "reconcile p o' now =
     and_then (pool_policy_validate p) (\<lambda>_. and_then (observation_validate o') (\<lambda>_.
       if current_workers o' < target p o'
       then Ok \<lparr>desired_workers = saturating_add (current_workers o')
                 (min (saturating_sub (target p o') (current_workers o')) (maximum_scale_up_per_reconcile p)),
               create_workers = min (saturating_sub (target p o') (current_workers o')) (maximum_scale_up_per_reconcile p),
               drain_clean_workers = 0, backpressured_assignments =
                 saturating_sub (required_workers p o') (min (maximum_workers p) (quota_workers o'))\<rparr>
       else if shrinks p o' now
       then Ok \<lparr>desired_workers = saturating_sub (current_workers o') (removable p o'), create_workers = 0,
               drain_clean_workers = removable p o', backpressured_assignments =
                 saturating_sub (required_workers p o') (min (maximum_workers p) (quota_workers o'))\<rparr>
       else Ok \<lparr>desired_workers = current_workers o', create_workers = 0, drain_clean_workers = 0,
               backpressured_assignments =
                 saturating_sub (required_workers p o') (min (maximum_workers p) (quota_workers o'))\<rparr>))"
  unfolding reconcile_def Let_def target_def removable_def shrinks_def ..

text \<open>The three decisions: grow, shrink or hold.\<close>

lemma reconcile_cases:
  assumes "reconcile p o' now = Ok d"
  obtains (grow) "current_workers o' < target p o'"
      "create_workers d = min (saturating_sub (target p o') (current_workers o')) (maximum_scale_up_per_reconcile p)"
      "drain_clean_workers d = 0" "desired_workers d = saturating_add (current_workers o') (create_workers d)"
  | (shrink) "\<not> current_workers o' < target p o'" "shrinks p o' now"
      "create_workers d = 0" "drain_clean_workers d = removable p o'"
      "desired_workers d = saturating_sub (current_workers o') (removable p o')"
  | (hold) "\<not> current_workers o' < target p o'" "\<not> shrinks p o' now"
      "create_workers d = 0" "drain_clean_workers d = 0" "desired_workers d = current_workers o'"
  using assms unfolding reconcile_eq
  by (cases "current_workers o' < target p o'"; cases "shrinks p o' now") auto

lemma reconcile_valid:
  assumes "reconcile p o' now = Ok d"
  shows "pool_policy_validate p = Ok ()" "observation_validate o' = Ok ()"
    "backpressured_assignments d = saturating_sub (required_workers p o') (min (maximum_workers p) (quota_workers o'))"
  using assms unfolding reconcile_eq by (auto split: if_splits)

lemma unat_desired_grow:
  assumes "current_workers o' < target p o'"
    and "create = min (saturating_sub (target p o') (current_workers o')) (maximum_scale_up_per_reconcile p)"
  shows "unat (saturating_add (current_workers o') create) = unat (current_workers o') + unat create"
    and "unat create = min (target_workers p o' - unat (current_workers o')) (unat (maximum_scale_up_per_reconcile p))"
proof -
  show c: "unat create = min (target_workers p o' - unat (current_workers o')) (unat (maximum_scale_up_per_reconcile p))"
    unfolding assms(2) unat_min unat_saturating_sub unat_target ..
  have "unat (current_workers o') < target_workers p o'"
    using assms(1) unfolding word_less_nat_alt unat_target .
  with c have "unat (current_workers o') + unat create \<le> target_workers p o'" by linarith
  moreover have "target_workers p o' < 2 ^ 32" using unat_u32_lt [of "target p o'"] unfolding unat_target .
  ultimately have "unat (current_workers o') + unat create \<le> 2 ^ 32 - 1" by linarith
  then show "unat (saturating_add (current_workers o') create) = unat (current_workers o') + unat create"
    unfolding unat_saturating_add by simp
qed

lemma unat_removable:
  "unat (removable p o') = min (min (unat (obs_clean_workers o') - unat (warm_headroom p))
     (unat (current_workers o') - target_workers p o')) (unat (maximum_scale_down_per_reconcile p))"
  unfolding removable_def unat_min unat_saturating_sub unat_target ..

text \<open>
  C13: scaling decisions are safe. The desired size is exactly the current size plus what is
  created minus what is drained, with no overflow; a decision never does both and respects
  the per-step limits. It creates workers only up to the target, hence never past the
  pool's maximum or quota. It drains only when nothing is queued and the idle period has
  passed, only clean workers beyond the warm headroom, so that every leased or active
  worker is kept, and never below the target, so the configured minimum is kept as far
  as maximum and quota allow it. Unmet demand is reported.
\<close>
theorem reconcile_is_safe:
  assumes "reconcile p o' now = Ok d"
  shows "unat (desired_workers d) + unat (drain_clean_workers d) = unat (current_workers o') + unat (create_workers d) \<and>
    (create_workers d = 0 \<or> drain_clean_workers d = 0) \<and>
    create_workers d \<le> maximum_scale_up_per_reconcile p \<and>
    drain_clean_workers d \<le> maximum_scale_down_per_reconcile p \<and>
    (create_workers d \<noteq> 0 \<longrightarrow> unat (desired_workers d) \<le> effective_maximum p o') \<and>
    (drain_clean_workers d \<noteq> 0 \<longrightarrow> queued_assignments o' = 0 \<and> idle_elapsed p o' now \<and>
       unat (drain_clean_workers d) + unat (warm_headroom p) \<le> unat (obs_clean_workers o') \<and>
       unat (leased_or_active_workers o') + unat (warm_headroom p) \<le> unat (desired_workers d) \<and>
       target_workers p o' \<le> unat (desired_workers d) \<and>
       min (unat (minimum_workers p)) (effective_maximum p o') \<le> unat (desired_workers d)) \<and>
    unat (backpressured_assignments d) = unat (required_workers p o') - effective_maximum p o'"
proof -
  have bp: "unat (backpressured_assignments d) = unat (required_workers p o') - effective_maximum p o'"
    unfolding reconcile_valid(3) [OF assms] unat_saturating_sub effective_maximum_def unat_min ..
  have obs: "unat (obs_clean_workers o') + unat (leased_or_active_workers o') \<le> unat (current_workers o')"
    using reconcile_valid(2) [OF assms] unfolding observation_validate_iff .
  have tmax: "target_workers p o' \<le> effective_maximum p o'" unfolding target_workers_def by simp
  have "unat (minimum_workers p) \<le> unat (required_workers p o')"
    by (simp add: required_workers_def unat_max)
  then have tmin: "min (unat (minimum_workers p)) (effective_maximum p o') \<le> target_workers p o'"
    unfolding target_workers_def by linarith
  from assms show ?thesis
  proof (cases rule: reconcile_cases)
    case grow
    note n = unat_desired_grow [OF grow(1,2)]
    have "create_workers d \<le> maximum_scale_up_per_reconcile p"
      unfolding word_le_nat_alt n(2) by simp
    moreover have "unat (current_workers o') + unat (create_workers d) \<le> target_workers p o'"
      using n(2) grow(1) unfolding word_less_nat_alt unat_target by linarith
    ultimately show ?thesis using n(1) grow(3,4) bp tmax by simp
  next
    case shrink
    have r: "unat (removable p o') \<le> unat (obs_clean_workers o') - unat (warm_headroom p)"
      "unat (removable p o') \<le> unat (current_workers o') - target_workers p o'"
      "unat (removable p o') \<le> unat (maximum_scale_down_per_reconcile p)"
      unfolding unat_removable by linarith+
    have s: "target_workers p o' < unat (current_workers o')" "queued_assignments o' = 0" "idle_elapsed p o' now"
      using shrink(2) unfolding shrinks_def word_less_nat_alt unat_target by simp_all
    have des: "unat (desired_workers d) = unat (current_workers o') - unat (removable p o')"
      unfolding shrink(5) unat_saturating_sub ..
    have pos: "0 < unat (removable p o')" if "removable p o' \<noteq> 0" using that by (simp add: unat_gt_0)
    have 1: "unat (desired_workers d) + unat (removable p o') = unat (current_workers o')"
      using des r(2) by linarith
    have 2: "unat (removable p o') + unat (warm_headroom p) \<le> unat (obs_clean_workers o')"
      if "removable p o' \<noteq> 0" using pos [OF that] r(1) by linarith
    have 3: "unat (leased_or_active_workers o') + unat (warm_headroom p) \<le> unat (desired_workers d)"
      if "removable p o' \<noteq> 0" using 2 [OF that] 1 obs by linarith
    have 4: "target_workers p o' \<le> unat (desired_workers d)" using des r(2) s(1) by linarith
    have 5: "min (unat (minimum_workers p)) (effective_maximum p o') \<le> unat (desired_workers d)"
      using 4 tmin by linarith
    have 6: "removable p o' \<le> maximum_scale_down_per_reconcile p" using r(3) unfolding word_le_nat_alt .
    show ?thesis unfolding shrink(3,4) using 1 2 3 4 5 6 s bp by simp
  next
    case hold
    then show ?thesis using bp by simp
  qed
qed

definition idle_observation :: pool_observation where
  "idle_observation = \<lparr>current_workers = 8, obs_clean_workers = 6, leased_or_active_workers = 1,
     draining_workers = 0, queued_assignments = 0, quota_workers = 9, idle_since_unix_ms = Some 1\<rparr>"

definition drain_decision :: autoscale_decision where
  "drain_decision = \<lparr>desired_workers = 6, create_workers = 0, drain_clean_workers = 2, backpressured_assignments = 0\<rparr>"

lemma reconcile_sample: "reconcile sample_policy idle_observation 5000 = Ok drain_decision"
  unfolding reconcile_eq sample_policy_valid
  by (simp add: observation_validate_iff target_def shrinks_def removable_def idle_observation_def
      drain_decision_def required_workers_def idle_elapsed_def sample_policy_def saturating_add_def
      saturating_sub_def min_def max_def word_le_nat_alt word_less_nat_alt)

theorem reconcile_is_safe_witness:
  "reconcile sample_policy idle_observation 5000 = Ok drain_decision \<and>
   unat (desired_workers drain_decision) + unat (drain_clean_workers drain_decision) =
     unat (current_workers idle_observation) + unat (create_workers drain_decision)"
  using reconcile_sample reconcile_is_safe [OF reconcile_sample] by blast

subsection \<open>Convergence\<close>

text \<open>One round of the control loop under steady demand: the pool takes the desired size.\<close>

definition scale_round :: "pool_policy \<Rightarrow> u64 \<Rightarrow> pool_observation \<Rightarrow> pool_observation" where
  "scale_round p now o' =
     (case reconcile p o' now of Inl _ \<Rightarrow> o' | Inr d \<Rightarrow> o'\<lparr>current_workers := desired_workers d\<rparr>)"

lemma target_current [simp]:
  "target p (o'\<lparr>current_workers := n\<rparr>) = target p o'"
  "target_workers p (o'\<lparr>current_workers := n\<rparr>) = target_workers p o'"
  by (simp_all add: target_def target_workers_def effective_maximum_def required_workers_def)

lemma scale_round_up:
  assumes pol: "pool_policy_validate p = Ok ()" and obs: "observation_validate o' = Ok ()"
    and le: "unat (current_workers o') \<le> target_workers p o'"
  obtains n where "scale_round p now o' = o'\<lparr>current_workers := n\<rparr>"
    "unat (current_workers o') \<le> unat n" "unat n \<le> target_workers p o'"
    "unat (current_workers o') < target_workers p o' \<Longrightarrow> unat (current_workers o') < unat n"
proof (cases "current_workers o' < target p o'")
  case True
  define create where "create =
    min (saturating_sub (target p o') (current_workers o')) (maximum_scale_up_per_reconcile p)"
  note n = unat_desired_grow [OF True create_def]
  have "scale_round p now o' = o'\<lparr>current_workers := saturating_add (current_workers o') create\<rparr>"
    unfolding scale_round_def reconcile_eq pol obs using True by (simp add: create_def)
  moreover have "0 < unat (maximum_scale_up_per_reconcile p)"
    using pol by (simp add: pool_policy_validate_def unat_gt_0)
  moreover have "unat (current_workers o') < target_workers p o'"
    using True unfolding word_less_nat_alt unat_target .
  ultimately show thesis using n by (intro that [of "saturating_add (current_workers o') create"]) linarith+
next
  case False
  then have eq: "unat (current_workers o') = target_workers p o'"
    using le unfolding word_less_nat_alt unat_target by simp
  then have "\<not> shrinks p o' now" unfolding shrinks_def word_less_nat_alt unat_target by simp
  with False have "scale_round p now o' = o'\<lparr>current_workers := current_workers o'\<rparr>"
    unfolding scale_round_def reconcile_eq pol obs by simp
  then show thesis using eq by (intro that [of "current_workers o'"]) simp_all
qed



end
