(* ===== verification/Volume.thy ===== *)
theory Volume
  imports Guest_Profile Ordered_Map
begin

text \<open>
  \<^verbatim>\<open>crates/sandbox-core/src/volume.rs\<close>: volume specifications and the check of the guest
  path a volume is mounted at.
\<close>

definition VOLUME_SPEC_VERSION :: u32 where "VOLUME_SPEC_VERSION = 1"
definition MINIMUM_NAMED_VOLUME_BYTES :: u64 where "MINIMUM_NAMED_VOLUME_BYTES = 4 * 1024 * 1024"

datatype volume_persistence_class = VolEphemeral | VolPersistent | VolArtifact | VolSecret
datatype volume_snapshot_policy = Required | BestEffort | Excluded

record volume_spec =
  vol_schema_version :: u32
  vol_id :: volume_id
  vol_destination :: string
  vol_read_only :: bool
  vol_persistence_class :: volume_persistence_class
  vol_snapshot_policy :: volume_snapshot_policy
  vol_quota_bytes :: u64
  vol_content_digest :: "string option"

definition invalid :: "string \<Rightarrow> core_error" where
  "invalid message = InvalidSpecification message"

definition validate_destination :: "string \<Rightarrow> (unit, core_error) result" where
  "validate_destination destination =
     (if length destination > 4096 \<or> \<not> starts_with destination ''/'' \<or>
         nul \<in> set destination \<or> contains_str destination ''//''
      then Err (invalid ''volume destination must be a normalized absolute path'')
      else if destination = ''/'' \<or>
              list_ex (\<lambda>c. c = ParentDir \<or> c = CurDir) (components destination)
      then Err (invalid ''volume destination must be a normalized guest path'')
      else if list_ex (\<lambda>prefix. destination = prefix \<or> starts_with destination (prefix @ ''/''))
                [''/proc'', ''/sys'', ''/dev'']
      then Err (invalid ''volume destination overlaps a protected guest mount'')
      else if destination \<in> {''/tmp'', ''/work'', ''/etc/hosts'', ''/etc/resolv.conf''}
      then Err (invalid ''volume destination shadows a runtime-owned guest mount'')
      else Ok ())"

definition volume_validate :: "volume_spec \<Rightarrow> (unit, core_error) result" where
  "volume_validate v =
     (if vol_schema_version v \<noteq> VOLUME_SPEC_VERSION
      then Err (invalid ''unsupported volume schema version'')
      else and_then (validate_destination (vol_destination v)) (\<lambda>_.
        case vol_persistence_class v of
          VolArtifact \<Rightarrow>
            if \<not> vol_read_only v then Err (invalid ''artifact volume must be read-only'')
            else if vol_snapshot_policy v = Required
            then Err (invalid ''immutable artifact volume cannot require a writable snapshot'')
            else and_then (ok_or (invalid ''artifact volume requires a content digest'') (vol_content_digest v))
              (\<lambda>digest. map_err (\<lambda>e. invalid (core_error_display e)) (validate_digest ''artifact volume'' digest))
        | VolSecret \<Rightarrow>
            if \<not> vol_read_only v then Err (invalid ''secret volume must be read-only'')
            else if vol_snapshot_policy v \<noteq> Excluded
            then Err (invalid ''secret volume must be excluded from snapshots'')
            else if vol_quota_bytes v = 0 then Err (invalid ''secret tmpfs quota must be nonzero'')
            else if vol_content_digest v \<noteq> None
            then Err (invalid ''secret volume cannot contain a content digest'')
            else Ok ()
        | _ \<Rightarrow>
            if vol_quota_bytes v < MINIMUM_NAMED_VOLUME_BYTES
            then Err (invalid ''named volume quota is below the minimum'')
            else if vol_content_digest v \<noteq> None
            then Err (invalid ''named volume cannot contain an artifact digest'')
            else Ok ()))"

subsection \<open>Properties\<close>

text \<open>The names a path resolves to once its \<open>.\<close> components and empty pieces are dropped.\<close>

definition resolved :: "string \<Rightarrow> string list" where
  "resolved destination = filter (\<lambda>w. w \<noteq> [] \<and> w \<noteq> ''.'') (split_on (CHR ''/'') destination)"

definition plain_path :: "string \<Rightarrow> bool" where
  "plain_path destination \<longleftrightarrow> (\<exists>names. names \<noteq> [] \<and> destination = concat (map (\<lambda>w. CHR ''/'' # w) names) \<and>
     (\<forall>w \<in> set names. w \<noteq> [] \<and> w \<noteq> ''.'' \<and> CHR ''/'' \<notin> set w))"

lemma split_on_plain:
  assumes "\<forall>w \<in> set (w0 # names). CHR ''/'' \<notin> set w"
  shows "split_on (CHR ''/'') (w0 @ concat (map (\<lambda>w. CHR ''/'' # w) names)) = w0 # names"
  using assms
proof (induction names arbitrary: w0)
  case Nil
  then show ?case by (simp add: split_on_word)
next
  case (Cons w names)
  have "split_on (CHR ''/'') (w @ concat (map (\<lambda>w. CHR ''/'' # w) names)) = w # names"
    using Cons by simp
  moreover have "CHR ''/'' \<notin> set w0" using Cons.prems by simp
  ultimately show ?case by (simp add: split_on_append)
qed

lemma resolved_plain:
  assumes "\<forall>w \<in> set names. w \<noteq> [] \<and> w \<noteq> ''.'' \<and> CHR ''/'' \<notin> set w"
  shows "resolved (concat (map (\<lambda>w. CHR ''/'' # w) names)) = names"
proof -
  have "split_on (CHR ''/'') ([] @ concat (map (\<lambda>w. CHR ''/'' # w) names)) = [] # names"
    using assms by (intro split_on_plain) auto
  with assms show ?thesis by (simp add: resolved_def)
qed

lemma validate_destination_Ok:
  "validate_destination d = Ok () \<longleftrightarrow>
     length d \<le> 4096 \<and> starts_with d ''/'' \<and> nul \<notin> set d \<and> \<not> contains_str d ''//'' \<and> d \<noteq> ''/'' \<and>
     ParentDir \<notin> set (components d) \<and> CurDir \<notin> set (components d) \<and>
     (\<forall>p \<in> {''/proc'', ''/sys'', ''/dev''}. d \<noteq> p \<and> \<not> starts_with d (p @ ''/'')) \<and>
     d \<notin> {''/tmp'', ''/work'', ''/etc/hosts'', ''/etc/resolv.conf''}"
  unfolding validate_destination_def if_Inl_eq_Inr
  by (auto simp: list_ex_iff not_less)

text \<open>
  A mount destination that validates is an absolute path without \<open>..\<close>, NUL or the root
  itself, and if it is written plainly (no \<open>.\<close> pieces and no trailing slash) it lies neither in
  nor under \<open>/proc\<close>, \<open>/sys\<close> or \<open>/dev\<close> and is not one of the runtime's own mounts.
\<close>
theorem destination_is_safe:
  assumes "validate_destination d = Ok ()"
  shows "starts_with d ''/'' \<and> nul \<notin> set d \<and> ''..'' \<notin> set (split_on (CHR ''/'') d) \<and> d \<noteq> ''/'' \<and>
    (plain_path d \<longrightarrow> resolved d \<noteq> [] \<and> hd (resolved d) \<notin> {''proc'', ''sys'', ''dev''} \<and>
       resolved d \<notin> {[''tmp''], [''work''], [''etc'', ''hosts''], [''etc'', ''resolv.conf'']})"
proof -
  note ok = assms [unfolded validate_destination_Ok]
  have "ParentDir \<notin> set (body_components (split_on (CHR ''/'') d))"
    using ok by (auto simp: components_def Let_def split: if_splits)
  then have up: "''..'' \<notin> set (split_on (CHR ''/'') d)" by (simp add: ParentDir_body_components)
  have "resolved d \<noteq> [] \<and> hd (resolved d) \<notin> {''proc'', ''sys'', ''dev''} \<and>
       resolved d \<notin> {[''tmp''], [''work''], [''etc'', ''hosts''], [''etc'', ''resolv.conf'']}" if "plain_path d"
  proof -
    from that obtain n names where d: "d = concat (map (\<lambda>w. CHR ''/'' # w) (n # names))"
      and w: "\<forall>w \<in> set (n # names). w \<noteq> [] \<and> w \<noteq> ''.'' \<and> CHR ''/'' \<notin> set w"
      unfolding plain_path_def by (metis list.exhaust)
    have r: "resolved d = n # names" unfolding d by (rule resolved_plain [OF w])
    have d': "d = CHR ''/'' # n @ concat (map (\<lambda>w. CHR ''/'' # w) names)" using d by simp
    have "n \<notin> {''proc'', ''sys'', ''dev''}"
    proof
      assume n: "n \<in> {''proc'', ''sys'', ''dev''}"
      then have "d = CHR ''/'' # n \<or> starts_with d ((CHR ''/'' # n) @ ''/'')"
        using d' by (cases names) (auto simp: starts_with_iff)
      with n ok show False by auto
    qed
    moreover have "resolved d \<notin> {[''tmp''], [''work''], [''etc'', ''hosts''], [''etc'', ''resolv.conf'']}"
      using ok d unfolding r by auto
    ultimately show ?thesis using r by simp
  qed
  with ok up show ?thesis by simp
qed

lemma sample_destination_valid: "validate_destination ''/var/lib/data'' = Ok ()"
  by (simp add: validate_destination_def components_def nul_def)

theorem destination_is_safe_witness:
  "validate_destination ''/var/lib/data'' = Ok () \<and> ''..'' \<notin> set (split_on (CHR ''/'') ''/var/lib/data'')"
  using sample_destination_valid destination_is_safe [OF sample_destination_valid] by blast

text \<open>
  The proviso on plain paths is needed: the checks against protected and runtime-owned mounts
  compare texts, while \<open>Path::components\<close> drops interior \<open>.\<close> pieces and a trailing slash, so
  another spelling of a protected mount is accepted.
\<close>
lemma respelled_mounts_accepted:
  "validate_destination ''/./proc'' = Ok () \<and> resolved ''/./proc'' = [''proc'']"
  "validate_destination ''/tmp/'' = Ok () \<and> resolved ''/tmp/'' = [''tmp'']"
  by (simp_all add: validate_destination_def components_def nul_def resolved_def)

text \<open>
  What a validated volume guarantees, by class. Named volumes have at least the minimum
  quota and carry no digest; an artifact volume is read-only, content-addressed and does
  not require a snapshot; a secret volume is read-only, excluded from every snapshot,
  bounded and carries no digest.
\<close>
theorem volume_validate_iff:
  "volume_validate v = Ok () \<longleftrightarrow>
     vol_schema_version v = 1 \<and> validate_destination (vol_destination v) = Ok () \<and>
     (case vol_persistence_class v of
        VolArtifact \<Rightarrow> vol_read_only v \<and> vol_snapshot_policy v \<noteq> Required \<and>
          (\<exists>d h. vol_content_digest v = Some d \<and> d = ''sha256:'' @ h \<and> length h = 64 \<and> list_all is_ascii_hexdigit h)
      | VolSecret \<Rightarrow> vol_read_only v \<and> vol_snapshot_policy v = Excluded \<and>
          vol_quota_bytes v \<noteq> 0 \<and> vol_content_digest v = None
      | _ \<Rightarrow> 4194304 \<le> unat (vol_quota_bytes v) \<and> vol_content_digest v = None)"
proof -
  have q: "\<not> x < MINIMUM_NAMED_VOLUME_BYTES \<longleftrightarrow> 4194304 \<le> unat x" for x :: u64
    by (simp add: MINIMUM_NAMED_VOLUME_BYTES_def word_less_nat_alt not_less)
  show ?thesis
    unfolding volume_validate_def if_Inl_eq_Inr and_then_eq_Inr
    by (cases "vol_persistence_class v") (auto simp: q validate_digest_eq_Ok VOLUME_SPEC_VERSION_def)
qed

end
