(* ===== verification/Specification.thy ===== *)
theory Specification
  imports Volume
begin

text \<open>
  \<^verbatim>\<open>crates/sandbox-core/src/specification.rs\<close>: the sandbox specification and its validation.
  \<open>SandboxSpec::validate\<close> indexes a map of start positions, which panics on an absent key; the
  model returns in \<open>exec\<close> and \<open>spec_validate_returns\<close> shows the index is always present.
\<close>

definition SANDBOX_SPEC_VERSION :: u32 where "SANDBOX_SPEC_VERSION = 2"

record container_image =
  exact_reference :: string
  image_digest :: string
  rootfs_digest :: string

record container_dependency =
  dep_container :: container_id
  requires_healthy :: bool

record network_spec =
  net_internal :: bool

record resource_spec =
  rs_memory_bytes :: u64
  rs_cpu_millis :: u32
  rs_guest_processes :: u32
  rs_host_tasks :: u32
  rs_writable_bytes :: u64
  rs_output_bytes :: u64

record container_spec =
  cs_image :: container_image
  cs_argv :: "string list"
  cs_environment :: "(string, string) btree_map"
  cs_dependencies :: "container_dependency list"
  cs_networks :: "network_id list"
  cs_resources :: resource_spec
  cs_volumes :: "volume_spec list"

record sandbox_spec =
  spec_schema_version :: u32
  spec_digest :: string
  spec_guest_profile :: guest_profile_identity
  spec_containers :: "(container_id, container_spec) btree_map"
  spec_networks :: "(network_id, network_spec) btree_map"
  spec_startup_order :: "container_id list"

definition volume_visit ::
  "container_id \<Rightarrow> string set \<Rightarrow> volume_spec \<Rightarrow> (string set, core_error) result" where
  "volume_visit cid destinations v =
     and_then (volume_validate v) (\<lambda>_.
       if vol_destination v \<in> destinations
       then Err (InvalidSpecification (''container `'' @ cid @ ''` repeats a volume destination''))
       else Ok (insert (vol_destination v) destinations))"

definition container_validate ::
  "sandbox_spec \<Rightarrow> container_id \<times> container_spec \<Rightarrow> (unit, core_error) result" where
  "container_validate s entry =
     (case entry of (cid, c) \<Rightarrow>
        and_then (validate_digest ''image'' (image_digest (cs_image c))) (\<lambda>_.
        and_then (validate_digest ''rootfs'' (rootfs_digest (cs_image c))) (\<lambda>_.
        if exact_reference (cs_image c) = [] \<or> cs_argv c = [] \<or> length (cs_argv c) > 256 \<or>
           length (cs_environment c) > 256
        then Err (InvalidSpecification (''container `'' @ cid @ ''` has invalid image, argv, or environment''))
        else if rs_memory_bytes (cs_resources c) = 0 \<or> rs_cpu_millis (cs_resources c) = 0 \<or>
           rs_guest_processes (cs_resources c) = 0 \<or>
           rs_host_tasks (cs_resources c) < rs_guest_processes (cs_resources c) \<or>
           rs_writable_bytes (cs_resources c) = 0 \<or> rs_output_bytes (cs_resources c) = 0
        then Err (InvalidSpecification (''container `'' @ cid @ ''` has invalid resource limits''))
        else if list_ex (\<lambda>n. \<not> bt_contains (spec_networks s) n) (cs_networks c)
        then Err (InvalidSpecification (''container `'' @ cid @ ''` references an unknown network''))
        else if list_ex (\<lambda>d. dep_container d = cid \<or> \<not> bt_contains (spec_containers s) (dep_container d))
                  (cs_dependencies c)
        then Err (InvalidSpecification (''container `'' @ cid @ ''` has an invalid dependency''))
        else and_then (try_fold (volume_visit cid) {} (cs_volumes c)) (\<lambda>_. Ok ()))))"

text \<open>The map collected from \<open>enumerate()\<close>: a repeated cid keeps its last position.\<close>

fun positions_from :: "nat \<Rightarrow> container_id list \<Rightarrow> (container_id, nat) btree_map \<Rightarrow> (container_id, nat) btree_map" where
  "positions_from i [] m = m"
| "positions_from i (cid # ids) m = positions_from (Suc i) ids (bt_insert cid i m)"

definition index_map :: "('k, 'v) btree_map \<Rightarrow> 'k \<Rightarrow> 'v exec" where
  "index_map m k = (case bt_get m k of None \<Rightarrow> Panic | Some v \<Rightarrow> Done v)"

fun any_late :: "(container_id, nat) btree_map \<Rightarrow> container_id \<Rightarrow> container_dependency list \<Rightarrow> bool exec" where
  "any_late positions cid [] = Done False"
| "any_late positions cid (d # ds) =
     exec_bind (index_map positions (dep_container d)) (\<lambda>p.
     exec_bind (index_map positions cid) (\<lambda>q.
       if p \<ge> q then Done True else any_late positions cid ds))"

fun order_validate ::
  "(container_id, nat) btree_map \<Rightarrow> (container_id \<times> container_spec) list \<Rightarrow> (unit, core_error) result exec" where
  "order_validate positions [] = Done (Ok ())"
| "order_validate positions ((cid, c) # cs) =
     exec_bind (any_late positions cid (cs_dependencies c)) (\<lambda>late.
       if late
       then Done (Err (InvalidSpecification (''container `'' @ cid @ ''` starts before one of its dependencies'')))
       else order_validate positions cs)"

definition spec_validate :: "sandbox_spec \<Rightarrow> (unit, core_error) result exec" where
  "spec_validate s =
     (if spec_schema_version s \<noteq> SANDBOX_SPEC_VERSION
      then Done (Err (InvalidSpecification ''unsupported schema version''))
      else case validate_digest ''spec'' (spec_digest s) of
        Inl e \<Rightarrow> Done (Err e)
      | Inr _ \<Rightarrow>
          if gp_parse (gp_canonical (spec_guest_profile s)) \<noteq> Ok (spec_guest_profile s)
          then Done (Err (InvalidSpecification ''sandbox has an invalid guest profile identity''))
          else if spec_containers s = [] \<or> length (spec_containers s) > 64
          then Done (Err (InvalidSpecification ''sandbox must contain between 1 and 64 containers''))
          else if length (spec_networks s) > 16
          then Done (Err (InvalidSpecification ''sandbox contains more than 16 networks''))
          else if card (set (spec_startup_order s)) \<noteq> length (spec_containers s) \<or>
                  set (spec_startup_order s) \<noteq> set (bt_keys (spec_containers s))
          then Done (Err (InvalidSpecification ''startup order must contain every container exactly once''))
          else case for_each (container_validate s) (spec_containers s) of
            Inl e \<Rightarrow> Done (Err e)
          | Inr _ \<Rightarrow> order_validate (positions_from 0 (spec_startup_order s) []) (spec_containers s))"

subsection \<open>Positions\<close>

lemma bt_wf_positions: "bt_wf m \<Longrightarrow> bt_wf (positions_from i ids m)"
  by (induction i ids m rule: positions_from.induct) (simp_all add: bt_wf_insert)

lemma positions_absent: "bt_wf m \<Longrightarrow> k \<notin> set ids \<Longrightarrow> bt_get (positions_from i ids m) k = bt_get m k"
  by (induction i ids m rule: positions_from.induct) (simp_all add: bt_simps)

lemma positions_present:
  "bt_wf m \<Longrightarrow> k \<in> set ids \<Longrightarrow>
   \<exists>j < length ids. bt_get (positions_from i ids m) k = Some (i + j) \<and> ids ! j = k \<and> (\<forall>l. j < l \<longrightarrow> l < length ids \<longrightarrow> ids ! l \<noteq> k)"
proof (induction i ids m rule: positions_from.induct)
  case (2 i cid ids m)
  show ?case
  proof (cases "k \<in> set ids")
    case True
    with 2 obtain j where "j < length ids" "bt_get (positions_from (Suc i) ids (bt_insert cid i m)) k = Some (Suc i + j)"
      "ids ! j = k" "\<forall>l. j < l \<longrightarrow> l < length ids \<longrightarrow> ids ! l \<noteq> k"
      by (auto simp: bt_wf_insert)
    then show ?thesis by (intro exI [of _ "Suc j"]) (auto simp: nth_Cons split: nat.splits)
  next
    case False
    with 2 have "k = cid" by simp
    with False 2 show ?thesis
      by (intro exI [of _ 0]) (auto simp: positions_absent bt_simps nth_Cons split: nat.splits)
  qed
qed simp

abbreviation start_positions :: "sandbox_spec \<Rightarrow> (container_id, nat) btree_map" where
  "start_positions s \<equiv> positions_from 0 (spec_startup_order s) []"

lemma index_map_Done: "bt_get m k = Some v \<Longrightarrow> index_map m k = Done v"
  by (simp add: index_map_def)

lemma any_late_eq:
  "bt_get m cid = Some q \<Longrightarrow> \<forall>d \<in> set ds. \<exists>p. bt_get m (dep_container d) = Some p \<Longrightarrow>
   any_late m cid ds = Done (list_ex (\<lambda>d. the (bt_get m (dep_container d)) \<ge> q) ds)"
  by (induction ds) (auto simp: index_map_Done)

definition depends_earlier :: "(container_id, nat) btree_map \<Rightarrow> container_id \<times> container_spec \<Rightarrow> bool" where
  "depends_earlier m e \<longleftrightarrow> (\<forall>d \<in> set (cs_dependencies (snd e)).
     the (bt_get m (dep_container d)) < the (bt_get m (fst e)))"

definition known_positions :: "(container_id, nat) btree_map \<Rightarrow> container_id \<times> container_spec \<Rightarrow> bool" where
  "known_positions m e \<longleftrightarrow> bt_get m (fst e) \<noteq> None \<and>
     (\<forall>d \<in> set (cs_dependencies (snd e)). bt_get m (dep_container d) \<noteq> None)"

lemma order_validate_eq:
  "\<forall>e \<in> set cs. known_positions m e \<Longrightarrow>
   \<exists>r. order_validate m cs = Done r \<and> (r = Ok () \<longleftrightarrow> (\<forall>e \<in> set cs. depends_earlier m e))"
proof (induction cs)
  case (Cons e cs)
  obtain cid c where e: "e = (cid, c)" by (cases e)
  from Cons.prems obtain q where q: "bt_get m cid = Some q" by (auto simp: e known_positions_def)
  have "\<forall>d \<in> set (cs_dependencies c). \<exists>p. bt_get m (dep_container d) = Some p"
    using Cons.prems by (auto simp: e known_positions_def)
  from any_late_eq [OF q this]
  have late: "any_late m cid (cs_dependencies c) = Done (\<not> depends_earlier m e)"
    using q by (simp add: e depends_earlier_def list_ex_iff not_less)
  from Cons.IH Cons.prems obtain r where "order_validate m cs = Done r"
    "r = Ok () \<longleftrightarrow> (\<forall>e \<in> set cs. depends_earlier m e)" by auto
  with late show ?case by (simp add: e)
qed simp

subsection \<open>Validation\<close>

lemma volume_visit_Ok:
  "volume_visit cid S v = Ok S' \<longleftrightarrow>
     volume_validate v = Ok () \<and> vol_destination v \<notin> S \<and> S' = insert (vol_destination v) S"
  by (auto simp: volume_visit_def)

lemma container_validate_Ok:
  assumes "container_validate s (cid, c) = Ok ()"
  shows "\<forall>n \<in> set (cs_networks c). bt_contains (spec_networks s) n"
    and "\<forall>d \<in> set (cs_dependencies c). dep_container d \<noteq> cid \<and> bt_contains (spec_containers s) (dep_container d)"
    and "\<forall>v \<in> set (cs_volumes c). volume_validate v = Ok ()"
    and "distinct (map vol_destination (cs_volumes c))"
    and "rs_guest_processes (cs_resources c) \<le> rs_host_tasks (cs_resources c)"
    and "rs_memory_bytes (cs_resources c) \<noteq> 0"
proof -
  from assms obtain seen where f: "try_fold (volume_visit cid) {} (cs_volumes c) = Ok seen"
    by (auto simp: container_validate_def)
  have vols: "(\<forall>v \<in> set vs. volume_validate v = Ok () \<and> vol_destination v \<notin> S) \<and> distinct (map vol_destination vs)"
    if "try_fold (volume_visit cid) S vs = Ok seen" for S vs
    using that
  proof (induction vs arbitrary: S)
    case (Cons v vs)
    from Cons.prems have v: "volume_validate v = Ok ()" "vol_destination v \<notin> S"
      "try_fold (volume_visit cid) (insert (vol_destination v) S) vs = Ok seen"
      by (auto simp: volume_visit_Ok)
    from Cons.IH [OF v(3)] v(1,2) show ?case by auto
  qed simp
  from vols [OF f] show "\<forall>v \<in> set (cs_volumes c). volume_validate v = Ok ()"
    "distinct (map vol_destination (cs_volumes c))" by simp_all
  from assms show "\<forall>n \<in> set (cs_networks c). bt_contains (spec_networks s) n"
    "\<forall>d \<in> set (cs_dependencies c). dep_container d \<noteq> cid \<and> bt_contains (spec_containers s) (dep_container d)"
    "rs_guest_processes (cs_resources c) \<le> rs_host_tasks (cs_resources c)"
    "rs_memory_bytes (cs_resources c) \<noteq> 0"
    by (auto simp: container_validate_def list_ex_iff not_less)
qed

lemma order_known:
  assumes "set (spec_startup_order s) = set (bt_keys (spec_containers s))"
    and "for_each (container_validate s) (spec_containers s) = Ok ()"
    and "e \<in> set (spec_containers s)"
  shows "known_positions (start_positions s) e"
proof -
  have pos: "bt_get (start_positions s) k \<noteq> None" if "k \<in> set (bt_keys (spec_containers s))" for k
    using positions_present [of "[]" k "spec_startup_order s" 0] that assms(1) by auto
  obtain cid c where e: "e = (cid, c)" by (cases e)
  have "container_validate s (cid, c) = Ok ()" using assms(2,3) e by simp
  note deps = container_validate_Ok(2) [OF this]
  have "cid \<in> set (bt_keys (spec_containers s))"
    using assms(3) e by (force simp: bt_keys_def)
  with deps show ?thesis
    unfolding known_positions_def e bt_contains_iff by (simp del: not_None_eq add: pos)
qed

lemma spec_validate_cases:
  "\<exists>r. spec_validate s = Done r \<and>
     (r = Ok () \<longrightarrow> gp_valid (spec_guest_profile s) \<and> spec_containers s \<noteq> [] \<and> length (spec_containers s) \<le> 64 \<and>
        length (spec_networks s) \<le> 16 \<and>
        set (spec_startup_order s) = set (bt_keys (spec_containers s)) \<and>
        (\<forall>e \<in> set (spec_containers s). container_validate s e = Ok () \<and> depends_earlier (start_positions s) e))"
proof (cases "set (spec_startup_order s) = set (bt_keys (spec_containers s)) \<and>
    for_each (container_validate s) (spec_containers s) = Ok ()")
  case True
  then obtain r where "order_validate (start_positions s) (spec_containers s) = Done r"
    "r = Ok () \<longleftrightarrow> (\<forall>e \<in> set (spec_containers s). depends_earlier (start_positions s) e)"
    using order_validate_eq order_known by metis
  with True show ?thesis
    by (auto simp: spec_validate_def gp.recheck not_less split: sum.splits)
next
  case False
  then show ?thesis
    by (auto simp: spec_validate_def split: sum.splits)
qed

subsection \<open>Properties\<close>

definition starts_after :: "sandbox_spec \<Rightarrow> (container_id \<times> container_id) set" where
  "starts_after s = {(dep_container d, cid) | d cid c.
     (cid, c) \<in> set (spec_containers s) \<and> d \<in> set (cs_dependencies c)}"

text \<open>
  Validation always returns; the lookup of start positions never panics, whatever the
  specification.
\<close>
theorem spec_validate_returns: "\<exists>r. spec_validate s = Done r"
  using spec_validate_cases [of s] by blast


definition sample_container :: "container_dependency list \<Rightarrow> container_spec" where
  "sample_container deps = \<lparr>cs_image = \<lparr>exact_reference = ''img'', image_digest = sample_digest CHR ''a'',
       rootfs_digest = sample_digest CHR ''a''\<rparr>,
     cs_argv = [''run''], cs_environment = [], cs_dependencies = deps, cs_networks = [],
     cs_resources = \<lparr>rs_memory_bytes = 1, rs_cpu_millis = 1, rs_guest_processes = 1, rs_host_tasks = 1,
       rs_writable_bytes = 1, rs_output_bytes = 1\<rparr>, cs_volumes = []\<rparr>"

definition sample_spec :: "container_id list \<Rightarrow> sandbox_spec" where
  "sample_spec order = \<lparr>spec_schema_version = 2, spec_digest = sample_digest CHR ''a'',
     spec_guest_profile = GuestProfileIdentity ''strict'' 1,
     spec_containers = [(''a'', sample_container []),
       (''b'', sample_container [\<lparr>dep_container = ''a'', requires_healthy = False\<rparr>])],
     spec_networks = [], spec_startup_order = order\<rparr>"

lemma sample_spec_checks:
  assumes "set order = {''a'', ''b''}"
  shows "spec_validate (sample_spec order) =
    order_validate (positions_from 0 order []) (spec_containers (sample_spec order))"
proof -
  have "is_lower_hex (CHR ''a'')" by (simp add: ascii_defs)
  then show ?thesis
    using assms gp_parse_samples(1) gp_parse_canonical [OF gp_parse_samples(1)]
    by (simp add: spec_validate_def sample_spec_def sample_container_def SANDBOX_SPEC_VERSION_def gp.recheck
        container_validate_def bt_keys_def bt_contains_def bt_get_def)
qed

lemma sample_spec_valid: "spec_validate (sample_spec [''a'', ''b'']) = Done (Ok ())"
  by (subst sample_spec_checks)
    (simp_all add: sample_spec_def sample_container_def index_map_def bt_get_def)


text \<open>
  The error text asks for every container exactly once, but only the sets are compared: an
  order with a repeated container is accepted, and its first start may precede a
  dependency.
\<close>
lemma repeated_start_accepted:
  "spec_validate (sample_spec [''b'', ''a'', ''b'']) = Done (Ok ()) \<and>
   (''a'', ''b'') \<in> starts_after (sample_spec [''b'', ''a'', ''b''])"
proof
  show "spec_validate (sample_spec [''b'', ''a'', ''b'']) = Done (Ok ())"
    by (subst sample_spec_checks)
      (auto simp: sample_spec_def sample_container_def index_map_def bt_get_def)
qed (force simp: starts_after_def sample_spec_def sample_container_def)

end
