(* ===== verification/Snapshot.thy ===== *)
theory Snapshot
  imports Volume Lifecycle Lease_Book
begin

text \<open>
  \<^verbatim>\<open>crates/sandbox-core/src/snapshot.rs\<close> and the snapshot descriptor of \<^verbatim>\<open>volume.rs\<close>: the
  manifest of a captured sandbox, and the check that a target may restore it.
\<close>

definition SNAPSHOT_MANIFEST_VERSION :: u32 where "SNAPSHOT_MANIFEST_VERSION = 4"

datatype snapshot_mode = Live | StopAndMove
datatype artifact_role = RuntimeState | MemoryPages | WritableFilesystem | VolumeData | BackendMetadata

record artifact_descriptor =
  art_digest :: string
  art_size_bytes :: u64
  art_media_type :: string

record snapshot_object =
  obj_name :: string
  obj_role :: artifact_role
  obj_artifact :: artifact_descriptor

record volume_snapshot_descriptor =
  vs_schema_version :: u32
  vs_provider_id :: string
  vs_persistence_class :: volume_persistence_class
  vs_portability :: snapshot_portability
  vs_object_name :: string
  vs_artifact :: artifact_descriptor

record restore_requirements =
  rr_architecture :: string
  rr_operating_system :: string
  rr_minimum_backend_version :: string
  rr_portability :: snapshot_portability
  rr_required_cpu_features :: "string list"
  rr_cpu_features_digest :: string
  rr_preserves_internal_connections :: bool
  rr_guest_profile :: guest_profile_identity

record snapshot_manifest =
  sm_schema_version :: u32
  sm_snapshot_id :: snapshot_id
  sm_tenant_id :: tenant_id
  sm_workspace_id :: workspace_id
  sm_sandbox_id :: sandbox_id
  sm_sandbox_spec_digest :: string
  sm_source_worker :: worker_id
  sm_source_assignment_epoch :: u64
  sm_created_unix_millis :: u64
  sm_captured_from :: lifecycle_state
  sm_restore_state :: lifecycle_state
  sm_mode :: snapshot_mode
  sm_backend :: backend_descriptor
  sm_restore_requirements :: restore_requirements
  sm_containers :: "(container_id, snapshot_object list) btree_map"
  sm_sandbox_objects :: "snapshot_object list"
  sm_volumes :: "(volume_id, volume_snapshot_descriptor) btree_map"

record restore_target =
  rt_tenant_id :: tenant_id
  rt_workspace_id :: workspace_id
  rt_sandbox_id :: sandbox_id
  rt_worker_id :: worker_id
  rt_assignment_epoch :: assignment_epoch
  rt_artifact_portability :: snapshot_portability
  rt_guest_profile :: guest_profile_identity
  rt_fenced_source_epoch :: "assignment_epoch option"

definition object_name_byte :: "char \<Rightarrow> bool" where
  "object_name_byte b \<longleftrightarrow> is_ascii_alphanumeric b \<or> b \<in> {CHR ''.'', CHR ''_'', CHR ''-''}"

definition bad_object_name :: "string \<Rightarrow> bool" where
  "bad_object_name s \<longleftrightarrow> s = [] \<or> length s > 128 \<or> \<not> list_all object_name_byte s"

definition snapshot_digest :: "string \<Rightarrow> string \<Rightarrow> (unit, core_error) result" where
  "snapshot_digest kind digest = map_err (\<lambda>e. InvalidSnapshot (core_error_display e)) (validate_digest kind digest)"

definition volume_snapshot_validate :: "volume_snapshot_descriptor \<Rightarrow> (unit, core_error) result" where
  "volume_snapshot_validate d =
     (if vs_schema_version d = 0
      then Err (InvalidSnapshot ''volume snapshot schema version is invalid'')
      else if vs_persistence_class d \<notin> {VolEphemeral, VolPersistent}
      then Err (InvalidSnapshot ''secret or immutable artifact entered the volume snapshot manifest'')
      else if bad_object_name (vs_provider_id d) \<or> bad_object_name (vs_object_name d)
      then Err (InvalidSnapshot ''volume snapshot provider or object identity is invalid'')
      else and_then (snapshot_digest ''volume snapshot'' (art_digest (vs_artifact d))) (\<lambda>_.
        if art_size_bytes (vs_artifact d) = 0 \<or> art_media_type (vs_artifact d) = []
        then Err (InvalidSnapshot ''volume snapshot object metadata is incomplete'') else Ok ()))"

definition object_visit :: "string set \<Rightarrow> snapshot_object \<Rightarrow> (string set, core_error) result" where
  "object_visit names obj =
     (if bad_object_name (obj_name obj) then Err (InvalidSnapshot ''snapshot object name is invalid'')
      else if obj_name obj \<in> names then Err (InvalidSnapshot ''snapshot object names must be unique'')
      else and_then (snapshot_digest ''snapshot object'' (art_digest (obj_artifact obj))) (\<lambda>_.
        if art_size_bytes (obj_artifact obj) = 0 \<or> art_media_type (obj_artifact obj) = []
        then Err (InvalidSnapshot ''snapshot object metadata is incomplete'')
        else Ok (insert (obj_name obj) names)))"

definition volume_object :: "volume_snapshot_descriptor \<Rightarrow> snapshot_object \<Rightarrow> bool" where
  "volume_object d obj \<longleftrightarrow> obj_name obj = vs_object_name d \<and> obj_role obj = VolumeData \<and>
     obj_artifact obj = vs_artifact d"

definition volume_entry_validate ::
  "snapshot_manifest \<Rightarrow> volume_id \<times> volume_snapshot_descriptor \<Rightarrow> (unit, core_error) result" where
  "volume_entry_validate m e =
     and_then (volume_snapshot_validate (snd e)) (\<lambda>_.
       if length (filter (volume_object (snd e)) (sm_sandbox_objects m)) \<noteq> 1
       then Err (InvalidSnapshot (''volume `'' @ fst e @ ''` does not reference exactly one volume snapshot object''))
       else Ok ())"

definition manifest_objects :: "snapshot_manifest \<Rightarrow> snapshot_object list" where
  "manifest_objects m = concat (bt_values (sm_containers m)) @ sm_sandbox_objects m"

definition snapshot_validate :: "snapshot_manifest \<Rightarrow> (unit, core_error) result" where
  "snapshot_validate m =
     (if sm_schema_version m \<noteq> SNAPSHOT_MANIFEST_VERSION
      then Err (InvalidSnapshot ''unsupported schema version'')
      else if sm_source_assignment_epoch m = 0 \<or> sm_created_unix_millis m = 0
      then Err (InvalidSnapshot ''snapshot provenance is incomplete'')
      else and_then (snapshot_digest ''backend configuration'' (configuration_digest (sm_backend m))) (\<lambda>_.
           and_then (snapshot_digest ''sandbox spec'' (sm_sandbox_spec_digest m)) (\<lambda>_.
           and_then (snapshot_digest ''CPU feature profile'' (rr_cpu_features_digest (sm_restore_requirements m))) (\<lambda>_.
           if gp_parse (gp_canonical (rr_guest_profile (sm_restore_requirements m))) \<noteq>
                Ok (rr_guest_profile (sm_restore_requirements m))
           then Err (InvalidSnapshot ''guest profile identity is invalid'')
           else if sm_captured_from m \<notin> {Running, Paused} \<or> sm_restore_state m \<notin> {Running, Paused}
           then Err (InvalidSnapshot ''snapshot lifecycle state is not restorable'')
           else if rr_operating_system (sm_restore_requirements m) \<noteq> ''linux'' \<or>
                   rr_architecture (sm_restore_requirements m) = [] \<or>
                   rr_minimum_backend_version (sm_restore_requirements m) = []
           then Err (InvalidSnapshot ''restore requirements are incomplete'')
           else and_then (try_fold object_visit {} (manifest_objects m)) (\<lambda>_.
             if sm_containers m = [] \<or> list_ex (\<lambda>objs. objs = []) (bt_values (sm_containers m)) \<or>
                sm_sandbox_objects m = []
             then Err (InvalidSnapshot ''snapshot omitted container or sandbox state'')
             else and_then (for_each (volume_entry_validate m) (sm_volumes m)) (\<lambda>_.
               if length (filter (\<lambda>obj. obj_role obj = VolumeData) (sm_sandbox_objects m)) \<noteq> length (sm_volumes m)
               then Err (InvalidSnapshot ''volume snapshot objects and descriptors do not match'')
               else Ok ()))))))"

definition validate_restore_target :: "snapshot_manifest \<Rightarrow> restore_target \<Rightarrow> (unit, core_error) result" where
  "validate_restore_target m t =
     (if sm_tenant_id m \<noteq> rt_tenant_id t \<or> sm_workspace_id m \<noteq> rt_workspace_id t
      then Err (InvalidSnapshot ''restore target belongs to another tenant scope'')
      else if rr_guest_profile (sm_restore_requirements m) \<noteq> rt_guest_profile t
      then Err (InvalidSnapshot ''restore target does not install the snapshot guest profile'')
      else let moves_worker = sm_source_worker m \<noteq> rt_worker_id t;
               reuses_identity = sm_sandbox_id m = rt_sandbox_id t
      in and_then
        (if moves_worker
         then and_then
           (if sm_mode m = Live
            then and_then (map_err (\<lambda>e. InvalidSnapshot (core_error_display e)) (epoch_new (sm_source_assignment_epoch m)))
              (\<lambda>source_epoch.
                 if rt_fenced_source_epoch t \<noteq> Some source_epoch \<or> rt_assignment_epoch t \<le> source_epoch
                 then Err (InvalidSnapshot
                   ''live cross-worker restore requires an exact fenced source epoch and a newer destination epoch'')
                 else Ok ())
            else Ok ())
           (\<lambda>_. if \<not> reuses_identity
                 then Err (InvalidSnapshot ''cross-worker restore must preserve the sandbox identity'')
                 else if \<not> permits_cross_worker (rr_portability (sm_restore_requirements m)) \<or>
                         \<not> permits_cross_worker (rt_artifact_portability t)
                 then Err (InvalidSnapshot ''snapshot or artifact provider does not permit cross-worker restore'')
                 else if list_ex (\<lambda>v. \<not> permits_cross_worker (vs_portability v)) (bt_values (sm_volumes m))
                 then Err (InvalidSnapshot ''a captured volume does not permit cross-worker restore'')
                 else Ok ())
         else Ok ())
        (\<lambda>_. if reuses_identity \<and> rt_assignment_epoch t \<le> sm_source_assignment_epoch m
              then Err (InvalidSnapshot ''restore must advance the source assignment epoch'')
              else Ok ()))"

subsection \<open>Properties\<close>

lemma object_visit_Ok:
  "object_visit S obj = Ok S' \<longleftrightarrow> \<not> bad_object_name (obj_name obj) \<and> obj_name obj \<notin> S \<and>
     validate_digest ''snapshot object'' (art_digest (obj_artifact obj)) = Ok () \<and>
     art_size_bytes (obj_artifact obj) \<noteq> 0 \<and> art_media_type (obj_artifact obj) \<noteq> [] \<and>
     S' = insert (obj_name obj) S"
  by (auto simp: object_visit_def snapshot_digest_def)

lemma object_fold:
  "try_fold object_visit S objs = Ok S' \<Longrightarrow>
     distinct (map obj_name objs) \<and> (\<forall>obj \<in> set objs. obj_name obj \<notin> S \<and> \<not> bad_object_name (obj_name obj) \<and>
       art_size_bytes (obj_artifact obj) \<noteq> 0)"
proof (induction objs arbitrary: S)
  case (Cons obj objs)
  from Cons.prems have 1: "obj_name obj \<notin> S" "\<not> bad_object_name (obj_name obj)"
    "art_size_bytes (obj_artifact obj) \<noteq> 0" "try_fold object_visit (insert (obj_name obj) S) objs = Ok S'"
    by (auto simp: object_visit_Ok)
  from Cons.IH [OF 1(4)] 1(1-3) show ?case by auto
qed simp

text \<open>
  A validated manifest is complete and restorable. Its provenance is set, it was captured
  from and restores into a running or paused state, every container and the sandbox
  itself have state, all object names are distinct and bounded, every described volume is a
  named volume (no secret or immutable artifact is captured) and refers to a unique
  volume object, and there are as many volume objects as described volumes.
\<close>
theorem validated_snapshot_is_complete:
  assumes "snapshot_validate m = Ok ()"
  shows "sm_source_assignment_epoch m \<noteq> 0 \<and> sm_captured_from m \<in> {Running, Paused} \<and>
    sm_restore_state m \<in> {Running, Paused} \<and> gp_valid (rr_guest_profile (sm_restore_requirements m)) \<and>
    sm_containers m \<noteq> [] \<and> [] \<notin> set (bt_values (sm_containers m)) \<and> sm_sandbox_objects m \<noteq> [] \<and>
    distinct (map obj_name (manifest_objects m)) \<and>
    (\<forall>obj \<in> set (manifest_objects m). \<not> bad_object_name (obj_name obj)) \<and>
    (\<forall>v \<in> set (bt_values (sm_volumes m)). vs_persistence_class v \<in> {VolEphemeral, VolPersistent} \<and>
       (\<exists>!obj. obj \<in> set (sm_sandbox_objects m) \<and> volume_object v obj)) \<and>
    length (filter (\<lambda>obj. obj_role obj = VolumeData) (sm_sandbox_objects m)) = length (sm_volumes m)"
proof -
  from assms obtain S where f: "try_fold object_visit {} (manifest_objects m) = Ok S"
    and v: "\<forall>e \<in> set (sm_volumes m). volume_entry_validate m e = Ok ()"
    and rest: "sm_source_assignment_epoch m \<noteq> 0 \<and> sm_captured_from m \<in> {Running, Paused} \<and>
      sm_restore_state m \<in> {Running, Paused} \<and> gp_valid (rr_guest_profile (sm_restore_requirements m)) \<and>
      sm_containers m \<noteq> [] \<and> [] \<notin> set (bt_values (sm_containers m)) \<and> sm_sandbox_objects m \<noteq> [] \<and>
      length (filter (\<lambda>obj. obj_role obj = VolumeData) (sm_sandbox_objects m)) = length (sm_volumes m)"
    by (auto simp: snapshot_validate_def gp.recheck list_ex_iff)
  note objs = object_fold [OF f]
  have "vs_persistence_class d \<in> {VolEphemeral, VolPersistent} \<and>
      (\<exists>!obj. obj \<in> set (sm_sandbox_objects m) \<and> volume_object d obj)" if "d \<in> set (bt_values (sm_volumes m))" for d
  proof -
    from that obtain i where "(i, d) \<in> set (sm_volumes m)" by (auto simp: bt_values_def)
    with v have "volume_entry_validate m (i, d) = Ok ()" by blast
    then have p: "vs_persistence_class d \<in> {VolEphemeral, VolPersistent}"
      and l: "length (filter (volume_object d) (sm_sandbox_objects m)) = 1"
      by (auto simp: volume_entry_validate_def volume_snapshot_validate_def split: if_splits)
    from l obtain obj where obj: "filter (volume_object d) (sm_sandbox_objects m) = [obj]"
      by (auto simp: length_Suc_conv)
    then have "{x \<in> set (sm_sandbox_objects m). volume_object d x} = {obj}"
      by (metis list.set(1) list.set(2) set_filter)
    then have "x \<in> set (sm_sandbox_objects m) \<and> volume_object d x \<longleftrightarrow> x = obj" for x by blast
    with p show ?thesis by simp
  qed
  with rest objs show ?thesis by blast
qed


definition sample_target :: restore_target where
  "sample_target = \<lparr>rt_tenant_id = ''tenant'', rt_workspace_id = ''workspace'', rt_sandbox_id = ''sandbox'',
     rt_worker_id = ''worker-b'', rt_assignment_epoch = 2, rt_artifact_portability = CrossBackend,
     rt_guest_profile = GuestProfileIdentity ''strict'' 1, rt_fenced_source_epoch = Some 1\<rparr>"

definition sample_object :: "string \<Rightarrow> artifact_role \<Rightarrow> snapshot_object" where
  "sample_object name role = \<lparr>obj_name = name, obj_role = role,
     obj_artifact = \<lparr>art_digest = sample_digest CHR ''a'', art_size_bytes = 1, art_media_type = ''m''\<rparr>\<rparr>"

definition sample_volume :: volume_snapshot_descriptor where
  "sample_volume = \<lparr>vs_schema_version = 1, vs_provider_id = ''p'', vs_persistence_class = VolPersistent,
     vs_portability = CrossBackend, vs_object_name = ''v1'', vs_artifact = obj_artifact (sample_object ''v1'' VolumeData)\<rparr>"

definition sample_manifest :: "snapshot_object list \<Rightarrow> (volume_id, volume_snapshot_descriptor) btree_map \<Rightarrow> snapshot_manifest" where
  "sample_manifest objs vols = \<lparr>sm_schema_version = 4, sm_snapshot_id = ''snap'', sm_tenant_id = ''tenant'',
     sm_workspace_id = ''workspace'', sm_sandbox_id = ''sandbox'', sm_sandbox_spec_digest = sample_digest CHR ''a'',
     sm_source_worker = ''worker-a'', sm_source_assignment_epoch = 1, sm_created_unix_millis = 1,
     sm_captured_from = Running, sm_restore_state = Running, sm_mode = Live,
     sm_backend = \<lparr>backend_kind = Gvisor, implementation = ''runsc'', implementation_version = ''1'',
       state_format_version = 1, configuration_digest = sample_digest CHR ''a''\<rparr>,
     sm_restore_requirements = \<lparr>rr_architecture = ''amd64'', rr_operating_system = ''linux'',
       rr_minimum_backend_version = ''1'', rr_portability = CrossBackend, rr_required_cpu_features = [],
       rr_cpu_features_digest = sample_digest CHR ''a'', rr_preserves_internal_connections = True,
       rr_guest_profile = GuestProfileIdentity ''strict'' 1\<rparr>,
     sm_containers = [(''c'', [sample_object ''c1'' RuntimeState])], sm_sandbox_objects = objs, sm_volumes = vols\<rparr>"

lemma sample_restore: "validate_restore_target (sample_manifest objs []) sample_target = Ok ()"
  by (simp add: validate_restore_target_def sample_manifest_def sample_target_def epoch_new_def
      permits_cross_worker_def bt_values_def Let_def word_le_nat_alt)


lemma sample_manifest_valid:
  "snapshot_validate (sample_manifest [sample_object ''v1'' VolumeData] [(''x'', sample_volume)]) = Ok ()"
  "snapshot_validate (sample_manifest [sample_object ''v1'' VolumeData, sample_object ''v2'' VolumeData]
     [(''x'', sample_volume), (''y'', sample_volume)]) = Ok ()"
proof -
  have "is_lower_hex (CHR ''a'')" by (simp add: ascii_defs)
  note simps = snapshot_validate_def sample_manifest_def sample_volume_def sample_object_def SNAPSHOT_MANIFEST_VERSION_def
    snapshot_digest_def manifest_objects_def bt_values_def object_visit_def bad_object_name_def object_name_byte_def
    ascii_defs volume_entry_validate_def volume_snapshot_validate_def volume_object_def
  show "snapshot_validate (sample_manifest [sample_object ''v1'' VolumeData] [(''x'', sample_volume)]) = Ok ()"
    "snapshot_validate (sample_manifest [sample_object ''v1'' VolumeData, sample_object ''v2'' VolumeData]
     [(''x'', sample_volume), (''y'', sample_volume)]) = Ok ()"
    using \<open>is_lower_hex (CHR ''a'')\<close> gp_parse_samples(1) gp_parse_canonical [OF gp_parse_samples(1)]
    by (simp_all add: simps)
qed

theorem validated_snapshot_is_complete_witness:
  "snapshot_validate (sample_manifest [sample_object ''v1'' VolumeData] [(''x'', sample_volume)]) = Ok () \<and>
   distinct (map obj_name (manifest_objects (sample_manifest [sample_object ''v1'' VolumeData] [(''x'', sample_volume)])))"
  using sample_manifest_valid(1) validated_snapshot_is_complete [OF sample_manifest_valid(1)] by blast

text \<open>
  Counting does not make volumes and volume objects correspond one to one: two volumes may
  describe the same object while another volume object is described by none.
\<close>
lemma orphan_volume_object_accepted:
  "snapshot_validate (sample_manifest [sample_object ''v1'' VolumeData, sample_object ''v2'' VolumeData]
     [(''x'', sample_volume), (''y'', sample_volume)]) = Ok () \<and>
   \<not> volume_object sample_volume (sample_object ''v2'' VolumeData)"
  using sample_manifest_valid(2) by (simp add: volume_object_def sample_volume_def sample_object_def)

text \<open>
  C25: restoring and leasing compose. Once the target of an accepted cross-worker restore
  holds the sandbox's lease, the worker the snapshot was taken on can neither renew,
  quarantine nor publish under its old epoch, whatever the lease book does afterwards.
\<close>
theorem restored_source_is_fenced:
  assumes "validate_restore_target m t = Ok ()" and "sm_source_worker m \<noteq> rt_worker_id t"
    and "i = PlacementIdentity (rt_tenant_id t) (rt_workspace_id t) (rt_sandbox_id t)"
    and "lease_book_wf b" and "lease_get b i = Some l" and "lease_epoch l = rt_assignment_epoch t"
    and "run (det lease_apply) b evs b'"
  shows "current_mut b' i (sm_source_worker m) (sm_source_assignment_epoch m) = Err StaleFence \<and>
    quarantine b' i (sm_source_worker m) (sm_source_assignment_epoch m) = (Err StaleFence, b') \<and>
    complete b' i (sm_source_worker m) (sm_source_assignment_epoch m) now d =
      (Err (if valid_digest d then StaleFence else InvalidResult), b')"
proof -
  have "sm_source_assignment_epoch m < rt_assignment_epoch t"
    using assms(1,2)
    by (auto simp: validate_restore_target_def Let_def not_le split: if_splits)
  then have "unat (sm_source_assignment_epoch m) < lease_epoch_of b i"
    using assms(5,6) by (simp add: lease_epoch_of_def word_less_nat_alt)
  also have "\<dots> \<le> lease_epoch_of b' i" by (rule lb.run_mono [OF assms(7,4)])
  finally show ?thesis using stale_holder by (simp add: quarantine_def)
qed

theorem restored_source_is_fenced_witness:
  "validate_restore_target (sample_manifest [] []) sample_target = Ok () \<and>
   quarantine reassigned_book sample_identity ''worker-a'' 1 = (Err StaleFence, reassigned_book)"
proof -
  have m: "sm_source_worker (sample_manifest [] []) = ''worker-a''"
    "sm_source_assignment_epoch (sample_manifest [] []) = 1" by (simp_all add: sample_manifest_def)
  have 1: "sm_source_worker (sample_manifest [] []) \<noteq> rt_worker_id sample_target"
    by (simp add: m sample_target_def)
  have 2: "sample_identity = PlacementIdentity (rt_tenant_id sample_target) (rt_workspace_id sample_target)
      (rt_sandbox_id sample_target)" by (simp add: sample_identity_def sample_target_def)
  have 3: "lease_book_wf reassigned_book"
    using lease_apply_wf [OF sample_book_wf, of "EvAssign sample_identity ''worker-b'' 11000 10000"]
    by (simp add: reassign_sample)
  have 4: "lease_get reassigned_book sample_identity = Some reassigned_lease"
    by (simp add: lease_get_def reassigned_book_def bt_get_def)
  have 5: "lease_epoch reassigned_lease = rt_assignment_epoch sample_target"
    by (simp add: reassigned_lease_def sample_target_def)
  from sample_restore [of "[]"] restored_source_is_fenced [OF sample_restore [of "[]"] 1 2 3 4 5 run_Nil]
  show ?thesis unfolding m by blast
qed

end
