(* ===== verification/Journal.thy ===== *)
theory Journal
  imports Core_Types
begin

text \<open>
  \<^verbatim>\<open>bins/sandboxd/src/journal\<close> (\<^verbatim>\<open>mod.rs\<close>, \<^verbatim>\<open>reader.rs\<close>, \<^verbatim>\<open>writer.rs\<close>): the write-ahead log
  under the replay cache and the assignment ledger.

  A file is \<open>None\<close> when it does not exist and otherwise its bytes. Every call into the file
  system may fail: an argument \<open>faults\<close> gives the error of each call that does, an append
  that fails may have written any number of bytes, and a replacement may fail before or
  after the rename. How many records arrive within the group-commit window is an argument
  of each round of the writer. Cutting a run off after an append that fails with \<open>n\<close> bytes
  written is also the model of a crash at that point.
\<close>

subsection \<open>Errors\<close>

type_synonym 'c faults = "'c \<Rightarrow> string option"

definition attempt :: "'c faults \<Rightarrow> string \<Rightarrow> 'c \<Rightarrow> (unit, sandbox_error) result" where
  "attempt f path c = (case f c of None \<Rightarrow> Ok () | Some e \<Rightarrow> Err (io_error path e))"

abbreviation no_faults :: "'c faults" where "no_faults \<equiv> \<lambda>_. None"

lemma attempt_no_faults [simp]: "attempt no_faults path c = Ok ()"
  by (simp add: attempt_def)

subsection \<open>Reading and repair\<close>

definition newline :: char where "newline = CHR 0x0A"

definition MAXIMUM_RECORD_BYTES :: nat where "MAXIMUM_RECORD_BYTES = 64 * 1024"

datatype journal_io = RepairOpen | RepairMetadata | RepairSeekEnd | RepairReadLast | RepairSeekStart
  | RepairReadTail | RepairSetLen | RepairSync | ReadOpen | ReadMetadata | ReadToEnd

text \<open>\<open>slice::split_inclusive\<close> at newlines, and \<open>Iterator::rposition\<close> of a newline.\<close>

fun split_inclusive :: "string \<Rightarrow> string list" where
  "split_inclusive [] = []"
| "split_inclusive (c # s) =
     (if c = newline then [c] # split_inclusive s
      else (case split_inclusive s of [] \<Rightarrow> [[c]] | r # rs \<Rightarrow> (c # r) # rs))"

fun rposition :: "string \<Rightarrow> nat option" where
  "rposition [] = None"
| "rposition (c # s) =
     (case rposition s of Some p \<Rightarrow> Some (Suc p) | None \<Rightarrow> if c = newline then Some 0 else None)"

definition recovered_length :: "journal_io faults \<Rightarrow> string \<Rightarrow> string \<Rightarrow> (nat option, sandbox_error) result" where
  "recovered_length f path bytes =
     and_then (attempt f path RepairOpen) (\<lambda>_. and_then (attempt f path RepairMetadata) (\<lambda>_.
       if bytes = [] then Ok None
       else and_then (attempt f path RepairSeekEnd) (\<lambda>_. and_then (attempt f path RepairReadLast) (\<lambda>_.
         if last bytes = newline then Ok None
         else let scan_bytes = min (length bytes) MAXIMUM_RECORD_BYTES;
                  scan_start = length bytes - scan_bytes
         in and_then (attempt f path RepairSeekStart) (\<lambda>_. and_then (attempt f path RepairReadTail) (\<lambda>_.
           case rposition (drop scan_start bytes) of
             Some position \<Rightarrow> Ok (Some (scan_start + position + 1))
           | None \<Rightarrow>
               if scan_start = 0 then Ok (Some 0)
               else Err (Runtime (''journal `'' @ path @ ''` has an oversized torn record''))))))))"

definition repair_bytes :: "journal_io faults \<Rightarrow> string \<Rightarrow> string \<Rightarrow> (unit, sandbox_error) result \<times> string" where
  "repair_bytes f path bytes =
     (case recovered_length f path bytes of
        Inl e \<Rightarrow> (Err e, bytes)
      | Inr None \<Rightarrow> (Ok (), bytes)
      | Inr (Some n) \<Rightarrow>
          (case f RepairSetLen of
             Some e \<Rightarrow> (Err (io_error path e), bytes)
           | None \<Rightarrow> (attempt f path RepairSync, take n bytes)))"

definition repair_torn_tail ::
  "journal_io faults \<Rightarrow> string \<Rightarrow> string option \<Rightarrow> (unit, sandbox_error) result \<times> string option" where
  "repair_torn_tail f path file =
     (case file of None \<Rightarrow> (Ok (), None) | Some bytes \<Rightarrow> map_prod (\<lambda>r. r) Some (repair_bytes f path bytes))"

definition parse_records :: "journal_io faults \<Rightarrow> string \<Rightarrow> u64 \<Rightarrow> nat \<Rightarrow> string \<Rightarrow> (string list, sandbox_error) result" where
  "parse_records f path maximum_file_bytes maximum_records bytes =
     and_then (attempt f path ReadOpen) (\<lambda>_. and_then (attempt f path ReadMetadata) (\<lambda>_.
       if length bytes > unat maximum_file_bytes
       then Err (Runtime (''journal `'' @ path @ ''` exceeds its recovery bound''))
       else and_then (attempt f path ReadToEnd) (\<lambda>_.
         let records = split_inclusive bytes
         in if length records > maximum_records \<or>
               list_ex (\<lambda>r. length r > MAXIMUM_RECORD_BYTES \<or> r = [newline]) records
            then Err (Runtime (''journal `'' @ path @ ''` has invalid recovery bounds''))
            else Ok records)))"

definition read_records ::
  "journal_io faults \<Rightarrow> string \<Rightarrow> u64 \<Rightarrow> nat \<Rightarrow> string option \<Rightarrow>
     (string list, sandbox_error) result \<times> string option" where
  "read_records f path maximum_file_bytes maximum_records file =
     (case file of
        None \<Rightarrow> (Ok [], None)
      | Some bytes \<Rightarrow>
          (case repair_bytes f path bytes of
             (Inl e, bytes') \<Rightarrow> (Err e, Some bytes')
           | (Inr _, bytes') \<Rightarrow> (parse_records f path maximum_file_bytes maximum_records bytes', Some bytes')))"

subsection \<open>The handle and the writer thread\<close>

definition MAXIMUM_REPLACEMENT_BYTES :: nat where "MAXIMUM_REPLACEMENT_BYTES = 64 * 1024 * 1024"
definition MAXIMUM_BATCH_RECORDS :: nat where "MAXIMUM_BATCH_RECORDS = 64"

text \<open>A completion channel is named by a number.\<close>

datatype command = Append string nat | Replace string nat

fun completion :: "command \<Rightarrow> nat" where
  "completion (Append _ c) = c"
| "completion (Replace _ c) = c"

text \<open>
  The client's end: whether the sender is still there, whether the writer still holds the
  receiver, the commands sent and the next completion channel.
\<close>

record durable_journal =
  sender_open :: bool
  writer_alive :: bool
  sent_commands :: "command list"
  next_completion :: nat

definition journal_enqueue ::
  "(nat \<Rightarrow> command) \<Rightarrow> durable_journal \<Rightarrow> (nat, sandbox_error) result \<times> durable_journal" where
  "journal_enqueue command j =
     (if \<not> sender_open j then (Err (Runtime ''journal writer is closed''), j)
      else if \<not> writer_alive j then (Err (Runtime ''journal writer stopped''), j)
      else (Ok (next_completion j),
            j\<lparr>sent_commands := sent_commands j @ [command (next_completion j)],
              next_completion := Suc (next_completion j)\<rparr>))"

definition enqueue_append :: "string \<Rightarrow> durable_journal \<Rightarrow> (nat, sandbox_error) result \<times> durable_journal" where
  "enqueue_append r j =
     (if r = [] \<or> length r > MAXIMUM_RECORD_BYTES \<or> last r \<noteq> newline
      then (Err (Runtime ''journal record is empty, oversized, or unterminated''), j)
      else journal_enqueue (Append r) j)"

definition enqueue_replace :: "string \<Rightarrow> durable_journal \<Rightarrow> (nat, sandbox_error) result \<times> durable_journal" where
  "enqueue_replace contents j =
     (if length contents > MAXIMUM_REPLACEMENT_BYTES \<or> (contents \<noteq> [] \<and> last contents \<noteq> newline)
      then (Err (Runtime ''journal replacement is oversized or unterminated''), j)
      else journal_enqueue (Replace contents) j)"

type_synonym completions = "(nat \<times> (unit, string) result) list"

definition receipt_wait :: "completions \<Rightarrow> nat \<Rightarrow> (unit, sandbox_error) result" where
  "receipt_wait sent receipt =
     (case map_of sent receipt of
        None \<Rightarrow> Err (Runtime ''journal writer stopped'')
      | Some r \<Rightarrow> map_err Runtime r)"

text \<open>
  \<open>append_batch\<close>: with a fault \<open>(n, e)\<close> the calls fail with \<open>e\<close> once \<open>n\<close> more bytes are
  written; if every record fits into \<open>n\<close> it is the final \<open>sync_data\<close> that fails.
\<close>

fun append_batch ::
  "(nat \<times> string) option \<Rightarrow> string \<Rightarrow> (string \<times> nat) list \<Rightarrow> (unit, string) result \<times> string" where
  "append_batch None file [] = (Ok (), file)"
| "append_batch (Some (n, e)) file [] = (Err e, file)"
| "append_batch None file ((r, c) # batch) = append_batch None (file @ r) batch"
| "append_batch (Some (n, e)) file ((r, c) # batch) =
     (if length r \<le> n then append_batch (Some (n - length r, e)) (file @ r) batch
      else (Err e, file @ take n r))"

datatype replace_io = NoParent | TempCreate | TempWrite | TempSync | Persist | OpenParent | SyncParent | Reopen

definition replace_file :: "replace_io faults \<Rightarrow> string \<Rightarrow> string \<Rightarrow> (unit, string) result \<times> string" where
  "replace_file f contents file =
     (case List.find (\<lambda>c. f c \<noteq> None) [NoParent, TempCreate, TempWrite, TempSync, Persist] of
        Some c \<Rightarrow> (Err (the (f c)), file)
      | None \<Rightarrow>
          (case List.find (\<lambda>c. f c \<noteq> None) [OpenParent, SyncParent, Reopen] of
             Some c \<Rightarrow> (Err (the (f c)), contents)
           | None \<Rightarrow> (Ok (), contents)))"

text \<open>One round's environment, and the writer's state with its received commands.\<close>

record round_env =
  arrivals :: nat
  append_fault :: "(nat \<times> string) option"
  replace_faults :: "replace_io faults"

record writer =
  pending :: "command option"
  failure :: "string option"
  disk :: string
  completed :: completions

text \<open>The window: \<open>arrivals\<close> bounds how many receives succeed before the deadline.\<close>

fun gather :: "nat \<Rightarrow> (string \<times> nat) list \<Rightarrow> command list \<Rightarrow> (string \<times> nat) list \<times> command option \<times> command list" where
  "gather 0 batch queue = (batch, None, queue)"
| "gather (Suc n) batch queue =
     (if length batch < MAXIMUM_BATCH_RECORDS
      then (case queue of
              [] \<Rightarrow> (batch, None, [])
            | Append r c # rest \<Rightarrow> gather n (batch @ [(r, c)]) rest
            | Replace s c # rest \<Rightarrow> (batch, Some (Replace s c), rest))
      else (batch, None, queue))"

definition recv :: "writer \<Rightarrow> command list \<Rightarrow> (command \<times> command list) option" where
  "recv w queue =
     (case pending w of
        Some c \<Rightarrow> Some (c, queue)
      | None \<Rightarrow> (case queue of [] \<Rightarrow> None | c # rest \<Rightarrow> Some (c, rest)))"

definition note_failure :: "(unit, string) result \<Rightarrow> string option" where
  "note_failure r = (case r of Inl e \<Rightarrow> Some e | Inr _ \<Rightarrow> None)"

definition serve :: "string \<Rightarrow> round_env \<Rightarrow> command \<Rightarrow> command list \<Rightarrow> writer \<Rightarrow> command list \<times> writer" where
  "serve path env command queue w =
     (case command of
        Append r c \<Rightarrow>
          (case gather (arrivals env) [(r, c)] queue of
             (batch, held, rest) \<Rightarrow>
               (case append_batch (append_fault env) (disk w) batch of
                  (res, file) \<Rightarrow>
                    let result = map_err (\<lambda>e. ''append and sync journal `'' @ path @ ''`: '' @ e) res
                    in (rest, w\<lparr>pending := held, failure := note_failure result, disk := file,
                                completed := completed w @ map (\<lambda>rc. (snd rc, result)) batch\<rparr>)))
      | Replace contents c \<Rightarrow>
          (case replace_file (replace_faults env) contents (disk w) of
             (res, file) \<Rightarrow>
               let result = map_err (\<lambda>e. ''replace and sync journal `'' @ path @ ''`: '' @ e) res
               in (queue, w\<lparr>pending := None, failure := note_failure result, disk := file,
                            completed := completed w @ [(c, result)]\<rparr>)))"

definition writer_round :: "string \<Rightarrow> round_env \<Rightarrow> command list \<times> writer \<Rightarrow> (command list \<times> writer) option" where
  "writer_round path env s =
     (case recv (snd s) (fst s) of
        None \<Rightarrow> None
      | Some (command, queue) \<Rightarrow>
          Some (case failure (snd s) of
                  Some e \<Rightarrow> (queue, (snd s)\<lparr>pending := None,
                                completed := completed (snd s) @ [(completion command, Err e)]\<rparr>)
                | None \<Rightarrow> serve path env command queue (snd s)))"

fun writer_run :: "string \<Rightarrow> round_env list \<Rightarrow> command list \<times> writer \<Rightarrow> command list \<times> writer" where
  "writer_run path [] s = s"
| "writer_run path (env # envs) s =
     (case writer_round path env s of None \<Rightarrow> s | Some s' \<Rightarrow> writer_run path envs s')"

definition writer_start :: "string \<Rightarrow> writer" where
  "writer_start file = \<lparr>pending = None, failure = None, disk = file, completed = []\<rparr>"

subsection \<open>Framing\<close>

text \<open>A record as it is appended: one nonempty line within the bound.\<close>

definition record_ok :: "string \<Rightarrow> bool" where
  "record_ok r \<longleftrightarrow> (\<exists>b. r = b @ [newline] \<and> newline \<notin> set b \<and> b \<noteq> []) \<and> length r \<le> MAXIMUM_RECORD_BYTES"

lemma split_inclusive_line:
  "newline \<notin> set b \<Longrightarrow> split_inclusive (b @ newline # s) = (b @ [newline]) # split_inclusive s"
  by (induction b) auto

lemma split_inclusive_tail: "newline \<notin> set t \<Longrightarrow> split_inclusive t = (if t = [] then [] else [t])"
  by (induction t) auto

lemma split_inclusive_concat: "list_all record_ok rs \<Longrightarrow> split_inclusive (concat rs) = rs"
  by (induction rs) (auto simp: record_ok_def split_inclusive_line)

lemma rposition_None: "rposition s = None \<longleftrightarrow> newline \<notin> set s"
  by (induction s) (auto split: option.splits)

lemma rposition_last: "newline \<notin> set t \<Longrightarrow> rposition (s @ newline # t) = Some (length s)"
  by (induction s) (auto simp: rposition_None [symmetric])

lemma concat_records_end:
  "list_all record_ok rs \<Longrightarrow> rs \<noteq> [] \<Longrightarrow> \<exists>s. concat rs = s @ [newline]"
  by (cases rs rule: rev_cases) (auto simp: record_ok_def)

text \<open>A journal with a torn tail is cut back to its complete records.\<close>

lemma repair_torn:
  assumes rs: "list_all record_ok rs" and t: "newline \<notin> set t" "length t < MAXIMUM_RECORD_BYTES"
  shows "repair_bytes no_faults path (concat rs @ t) = (Ok (), concat rs)"
proof (cases "t = []")
  case True
  then show ?thesis
    using concat_records_end [OF rs] by (cases rs) (auto simp: repair_bytes_def recovered_length_def)
next
  case False
  let ?s = "concat rs @ t"
  let ?start = "length ?s - min (length ?s) MAXIMUM_RECORD_BYTES"
  have "last t \<noteq> newline" using t(1) last_in_set [OF False] by metis
  then have nl: "last ?s \<noteq> newline" using False by simp
  have "recovered_length no_faults path ?s = Ok (Some (length (concat rs)))"
  proof (cases "rs = []")
    case True
    then show ?thesis
      using nl False t rposition_None [THEN iffD2, OF t(1)] by (simp add: recovered_length_def Let_def)
  next
    case nonempty: False
    then obtain s where s: "concat rs = s @ [newline]" using concat_records_end [OF rs] by blast
    have start: "?start \<le> length s" using t(2) by (simp add: s)
    then have "drop ?start ?s = drop ?start s @ newline # t" by (simp add: s)
    then have "rposition (drop ?start ?s) = Some (length s - ?start)"
      using rposition_last [OF t(1), of "drop ?start s"] by simp
    then have "recovered_length no_faults path ?s = Ok (Some (?start + (length s - ?start) + 1))"
      using nl False by (simp add: recovered_length_def Let_def)
    with start show ?thesis by (simp add: s)
  qed
  then show ?thesis by (simp add: repair_bytes_def)
qed

lemma read_records_torn:
  assumes "list_all record_ok rs" and "newline \<notin> set t" and "length t < MAXIMUM_RECORD_BYTES"
    and "length (concat rs) \<le> unat max_bytes" and "length rs \<le> max_records"
  shows "read_records no_faults path max_bytes max_records (Some (concat rs @ t)) = (Ok rs, Some (concat rs))"
proof -
  have "\<not> list_ex (\<lambda>r. length r > MAXIMUM_RECORD_BYTES \<or> r = [newline]) rs"
    using assms(1) by (auto simp: list_ex_iff list_all_iff record_ok_def)
  then show ?thesis
    using assms by (simp add: read_records_def repair_torn parse_records_def split_inclusive_concat)
qed

lemma enqueue_append_record: "record_ok r \<Longrightarrow> enqueue_append r j = journal_enqueue (Append r) j"
  by (auto simp: enqueue_append_def record_ok_def)

lemma enqueue_replace_records:
  assumes "list_all record_ok rs" and "length (concat rs) \<le> MAXIMUM_REPLACEMENT_BYTES"
  shows "enqueue_replace (concat rs) j = journal_enqueue (Replace (concat rs)) j"
proof (cases "rs = []")
  case False
  then obtain s where "concat rs = s @ [newline]" using concat_records_end [OF assms(1)] by blast
  with assms(2) show ?thesis by (simp add: enqueue_replace_def)
qed (simp add: enqueue_replace_def)

text \<open>Any prefix of a journal is some complete records followed by a torn tail.\<close>

lemma take_concat_records:
  "list_all record_ok rs \<Longrightarrow> \<exists>k t. k \<le> length rs \<and> take n (concat rs) = concat (take k rs) @ t \<and>
     newline \<notin> set t \<and> length t < MAXIMUM_RECORD_BYTES"
proof (induction rs arbitrary: n)
  case Nil
  then show ?case by (intro exI [of _ 0] exI [of _ "[]"]) (simp add: MAXIMUM_RECORD_BYTES_def)
next
  case (Cons r rs)
  show ?case
  proof (cases "length r \<le> n")
    case True
    from Cons.prems have "list_all record_ok rs" by simp
    from Cons.IH [OF this, of "n - length r"] obtain k t where "k \<le> length rs" "take (n - length r) (concat rs) = concat (take k rs) @ t"
      "newline \<notin> set t" "length t < MAXIMUM_RECORD_BYTES" by blast
    with True show ?thesis by (intro exI [of _ "Suc k"] exI [of _ t]) simp
  next
    case False
    from Cons.prems obtain b where b: "r = b @ [newline]" "newline \<notin> set b" "length r \<le> MAXIMUM_RECORD_BYTES"
      by (auto simp: record_ok_def)
    with False have "take n (concat (r # rs)) = take n b" by simp
    moreover have "newline \<notin> set (take n b)" using b(2) by (blast dest: in_set_takeD)
    moreover have "length (take n b) < MAXIMUM_RECORD_BYTES" using b by simp
    ultimately show ?thesis by (intro exI [of _ 0] exI [of _ "take n b"]) simp
  qed
qed

subsection \<open>The abstract journal\<close>

text \<open>
  What the journal promises: it is a list of records, an append adds one at the end and a
  replacement exchanges all of them. The writer implements it up to its first failure.
\<close>

fun journal_spec :: "string list \<Rightarrow> command \<Rightarrow> string list" where
  "journal_spec rs (Append r _) = rs @ [r]"
| "journal_spec rs (Replace s _) = split_inclusive s"

fun command_ok :: "command \<Rightarrow> bool" where
  "command_ok (Append r _) = record_ok r"
| "command_ok (Replace s _) = list_all record_ok (split_inclusive s)"

definition held :: "command option \<Rightarrow> command list" where
  "held c = (case c of None \<Rightarrow> [] | Some x \<Rightarrow> [x])"

definition torn :: "string \<Rightarrow> bool" where
  "torn t \<longleftrightarrow> newline \<notin> set t \<and> length t < MAXIMUM_RECORD_BYTES"

definition all_ok :: "completions \<Rightarrow> bool" where
  "all_ok cs \<longleftrightarrow> (\<forall>c \<in> set cs. snd c = Ok ())"

text \<open>
  After the commands \<open>past\<close>: without a failure the file holds exactly the specified
  records and everything was acknowledged; after one it holds, up to a torn tail, the records
  of some prefix of the commands, which includes every acknowledged one.
\<close>

definition disk_ok :: "string list \<Rightarrow> command list \<Rightarrow> writer \<Rightarrow> bool" where
  "disk_ok rs0 past w \<longleftrightarrow>
     (if failure w = None then disk w = concat (foldl journal_spec rs0 past) \<and> all_ok (completed w)
      else \<exists>k j t. j \<le> k \<and> k \<le> length past \<and> torn t \<and>
             disk w = concat (foldl journal_spec rs0 (take k past)) @ t \<and>
             all_ok (take j (completed w)) \<and> (\<forall>c \<in> set (drop j (completed w)). snd c \<noteq> Ok ()))"

definition writer_ok :: "string list \<Rightarrow> command list \<Rightarrow> command list \<times> writer \<Rightarrow> bool" where
  "writer_ok rs0 cmds s \<longleftrightarrow>
     (\<exists>past. cmds = past @ held (pending (snd s)) @ fst s \<and>
        map fst (completed (snd s)) = map completion past \<and> disk_ok rs0 past (snd s))"

definition remaining :: "command list \<times> writer \<Rightarrow> nat" where
  "remaining s = length (held (pending (snd s))) + length (fst s)"

abbreviation appends :: "(string \<times> nat) list \<Rightarrow> command list" where
  "appends batch \<equiv> map (\<lambda>rc. Append (fst rc) (snd rc)) batch"

lemma concat_split_inclusive [simp]: "concat (split_inclusive s) = s"
  by (induction s) (auto split: list.splits)

lemma torn_Nil [simp]: "torn []"
  by (simp add: torn_def MAXIMUM_RECORD_BYTES_def)

lemma gather_queue:
  "gather n batch queue = (b, c, rest) \<Longrightarrow> \<exists>news. b = batch @ news \<and> queue = appends news @ held c @ rest"
proof (induction n batch queue rule: gather.induct)
  case (2 n batch queue)
  show ?case
  proof (cases "length batch < MAXIMUM_BATCH_RECORDS")
    case False
    with 2 show ?thesis by (simp add: held_def)
  next
    case True
    show ?thesis
    proof (cases queue)
      case (Cons a q)
      show ?thesis
      proof (cases a)
        case (Append r d)
        with 2 True Cons obtain news where "b = (batch @ [(r, d)]) @ news" "q = appends news @ held c @ rest"
          by fastforce
        with Append Cons show ?thesis by (intro exI [of _ "(r, d) # news"]) simp
      next
        case (Replace s d)
        with 2 True Cons show ?thesis by (auto simp: held_def)
      qed
    qed (use 2 True in \<open>simp add: held_def\<close>)
  qed
qed (simp add: held_def)

lemma append_batch_None: "append_batch None s batch = (Ok (), s @ concat (map fst batch))"
  by (induction batch arbitrary: s) auto

lemma append_batch_Some:
  "append_batch (Some (n, e)) s batch = (Err e, s @ take n (concat (map fst batch)))"
  by (induction batch arbitrary: n s) auto

lemma journal_spec_appends: "foldl journal_spec rs (appends batch) = rs @ map fst batch"
  by (induction batch arbitrary: rs) auto

lemma command_ok_appends [simp]: "list_all command_ok (appends batch) \<longleftrightarrow> list_all record_ok (map fst batch)"
  by (induction batch) auto

lemma spec_records_ok:
  "list_all record_ok rs \<Longrightarrow> list_all command_ok cmds \<Longrightarrow> list_all record_ok (foldl journal_spec rs cmds)"
proof (induction cmds arbitrary: rs)
  case (Cons c cmds)
  then show ?case by (cases c) auto
qed simp

lemma disk_ok_failedI:
  assumes "failure w = Some e" and "j \<le> k" and "k \<le> length past" and "torn t"
    and "disk w = concat (foldl journal_spec rs0 (take k past)) @ t"
    and "all_ok (take j (completed w))" and "\<forall>c \<in> set (drop j (completed w)). snd c \<noteq> Ok ()"
  shows "disk_ok rs0 past w"
  using assms unfolding disk_ok_def by auto

lemma disk_ok_done:
  assumes "disk_ok rs0 past w" and "failure w = None"
    and "disk w' = concat (foldl journal_spec rs0 (past @ news))" and "failure w' = None"
    and "completed w' = completed w @ cs" and "all_ok cs"
  shows "disk_ok rs0 (past @ news) w'"
  using assms by (auto simp: disk_ok_def all_ok_def)

lemma disk_ok_fail:
  assumes "disk_ok rs0 past w" and "failure w = None" and "length (completed w) = length past"
    and "disk w' = concat (foldl journal_spec rs0 (past @ take k news)) @ t" and "torn t" and "k \<le> length news"
    and "failure w' = Some e" and "completed w' = completed w @ cs" and "\<forall>c \<in> set cs. snd c \<noteq> Ok ()"
  shows "disk_ok rs0 (past @ news) w'"
proof -
  have "take (length past + k) (past @ news) = past @ take k news" by simp
  with assms show ?thesis
    by (intro disk_ok_failedI [of w' e "length past" "length past + k" _ t]) (simp_all add: disk_ok_def)
qed

lemma disk_ok_after_failure:
  assumes "disk_ok rs0 past w" and "failure w = Some e" and "length (completed w) = length past"
    and "disk w' = disk w" and "failure w' = Some e" and "completed w' = completed w @ [(c, Err x)]"
  shows "disk_ok rs0 (past @ [a]) w'"
proof -
  from assms(1,2) obtain k j t where k: "j \<le> k" "k \<le> length past" "torn t"
    "disk w = concat (foldl journal_spec rs0 (take k past)) @ t" "all_ok (take j (completed w))"
    "\<forall>c \<in> set (drop j (completed w)). snd c \<noteq> Ok ()"
    by (auto simp: disk_ok_def)
  with assms(3-6) show ?thesis
    by (intro disk_ok_failedI [of w' e j k _ t]) simp_all
qed

lemma serve_ok:
  assumes d: "disk_ok rs0 past w" "failure w = None" "length (completed w) = length past"
    and m: "map fst (completed w) = map completion past"
    and ok: "list_all command_ok (command # queue)"
    and s: "serve path env command queue w = (queue', w')"
  shows "\<exists>news. command # queue = news @ held (pending w') @ queue' \<and> news \<noteq> [] \<and>
    map fst (completed w') = map completion (past @ news) \<and> disk_ok rs0 (past @ news) w'"
proof (cases command)
  case (Append r c)
  obtain batch h rest where g: "gather (arrivals env) [(r, c)] queue = (batch, h, rest)" by (metis prod_cases3)
  from gather_queue [OF g] obtain news where b: "batch = (r, c) # news" "queue = appends news @ held h @ rest"
    by auto
  obtain res bytes where a: "append_batch (append_fault env) (disk w) batch = (res, bytes)" by (metis surj_pair)
  from s Append g a have w': "queue' = rest" "pending w' = h" "disk w' = bytes"
    "failure w' = note_failure (map_err (\<lambda>e. ''append and sync journal `'' @ path @ ''`: '' @ e) res)"
    "completed w' = completed w @
       map (\<lambda>rc. (snd rc, map_err (\<lambda>e. ''append and sync journal `'' @ path @ ''`: '' @ e) res)) batch"
    by (auto simp: serve_def Let_def)
  have bok: "list_all record_ok (map fst batch)"
    using ok Append by (simp add: b)
  have disk: "disk w = concat (foldl journal_spec rs0 past)" using d by (simp add: disk_ok_def)
  have "disk_ok rs0 (past @ appends batch) w'"
  proof (cases "append_fault env")
    case None
    with a have "res = Ok ()" "bytes = disk w @ concat (map fst batch)" by (simp_all add: append_batch_None)
    with w' disk show ?thesis
      by (intro disk_ok_done [OF d(1,2)]) (auto simp: journal_spec_appends note_failure_def all_ok_def)
  next
    case (Some ne)
    obtain n e where ne: "ne = (n, e)" by (cases ne)
    with a Some have r: "res = Err e" "bytes = disk w @ take n (concat (map fst batch))"
      by (simp_all add: append_batch_Some)
    from take_concat_records [OF bok, of n] obtain k t where k: "k \<le> length batch" "torn t"
      "take n (concat (map fst batch)) = concat (take k (map fst batch)) @ t"
      by (auto simp: torn_def)
    have "disk w' = concat (foldl journal_spec rs0 (past @ take k (appends batch))) @ t"
      using w' r k disk by (simp add: take_map journal_spec_appends)
    then show ?thesis
      by (rule disk_ok_fail [OF d _ k(2) _ _ w'(5)]) (use k r w' in \<open>auto simp: note_failure_def\<close>)
  qed
  moreover have "map fst (completed w') = map completion (past @ appends batch)"
    using w'(5) m by (simp add: comp_def)
  ultimately show ?thesis
    using b w' Append by (intro exI [of _ "appends batch"]) simp
next
  case (Replace contents c)
  obtain res bytes where a: "replace_file (replace_faults env) contents (disk w) = (res, bytes)" by (metis surj_pair)
  from s Replace a have w': "queue' = queue" "pending w' = None" "disk w' = bytes"
    "failure w' = note_failure (map_err (\<lambda>e. ''replace and sync journal `'' @ path @ ''`: '' @ e) res)"
    "completed w' = completed w @ [(c, map_err (\<lambda>e. ''replace and sync journal `'' @ path @ ''`: '' @ e) res)]"
    by (auto simp: serve_def Let_def)
  have disk: "disk w = concat (foldl journal_spec rs0 past)" using d by (simp add: disk_ok_def)
  consider "res = Ok ()" "bytes = contents" | e where "res = Err e" "bytes = contents"
    | e where "res = Err e" "bytes = disk w"
    using a unfolding replace_file_def by (auto split: option.splits)
  then have "disk_ok rs0 (past @ [Replace contents c]) w'"
  proof cases
    case 1
    with w' show ?thesis
      by (intro disk_ok_done [OF d(1,2)]) (auto simp: note_failure_def all_ok_def)
  next
    case 2
    then have "disk w' = concat (foldl journal_spec rs0 (past @ take 1 [Replace contents c])) @ []"
      using w' by simp
    then show ?thesis
      by (rule disk_ok_fail [OF d _ torn_Nil _ _ w'(5)]) (use 2 w' in \<open>auto simp: note_failure_def\<close>)
  next
    case 3
    then have "disk w' = concat (foldl journal_spec rs0 (past @ take 0 [Replace contents c])) @ []"
      using w' disk by simp
    then show ?thesis
      by (rule disk_ok_fail [OF d _ torn_Nil _ _ w'(5)]) (use 3 w' in \<open>auto simp: note_failure_def\<close>)
  qed
  then show ?thesis
    using w' Replace m by (intro exI [of _ "[Replace contents c]"]) (simp add: held_def)
qed

lemma recv_split:
  "recv w queue = Some (c, q) \<Longrightarrow> held (pending w) @ queue = c # q"
  "recv w queue = None \<longleftrightarrow> held (pending w) @ queue = []"
  by (auto simp: recv_def held_def split: option.splits list.splits)

lemma writer_round_ok:
  assumes "writer_ok rs0 cmds s" and "list_all command_ok cmds" and "writer_round path env s = Some s'"
  shows "writer_ok rs0 cmds s' \<and> remaining s' < remaining s"
proof -
  obtain queue w where s: "s = (queue, w)" by (cases s)
  obtain queue' w' where s': "s' = (queue', w')" by (cases s')
  from assms(1) s obtain past where past: "cmds = past @ held (pending w) @ queue"
    "map fst (completed w) = map completion past" "disk_ok rs0 past w"
    by (auto simp: writer_ok_def)
  then have len: "length (completed w) = length past" by (metis length_map)
  from assms(3) s obtain command q where r: "recv w queue = Some (command, q)"
    by (auto simp: writer_round_def split: option.splits)
  note split = recv_split(1) [OF r]
  have "\<exists>news. command # q = news @ held (pending w') @ queue' \<and> news \<noteq> [] \<and>
    map fst (completed w') = map completion (past @ news) \<and> disk_ok rs0 (past @ news) w'"
  proof (cases "failure w")
    case None
    with assms(3) s s' r have "serve path env command q w = (queue', w')" by (simp add: writer_round_def)
    moreover have "list_all command_ok (command # q)" using assms(2) past(1) split by simp
    ultimately show ?thesis using serve_ok [OF past(3) None len past(2)] by blast
  next
    case (Some e)
    with assms(3) s s' r have w': "queue' = q"
      "w' = w\<lparr>pending := None, completed := completed w @ [(completion command, Err e)]\<rparr>"
      by (auto simp: writer_round_def)
    have "disk_ok rs0 (past @ [command]) w'"
      by (rule disk_ok_after_failure [OF past(3) Some len]) (simp_all add: w' Some)
    then show ?thesis using w' past(2) by (intro exI [of _ "[command]"]) (simp add: held_def)
  qed
  then obtain news where news: "command # q = news @ held (pending w') @ queue'" "news \<noteq> []"
    "map fst (completed w') = map completion (past @ news)" "disk_ok rs0 (past @ news) w'" by blast
  have "length (held (pending w) @ queue) = length news + length (held (pending w') @ queue')"
    using split news(1) by (metis length_append)
  with news(2) have "remaining s' < remaining s" by (simp add: remaining_def s s')
  moreover have "writer_ok rs0 cmds s'"
    using past(1) split news by (auto simp: writer_ok_def s' intro!: exI [of _ "past @ news"])
  ultimately show ?thesis by blast
qed

lemma writer_run_ok:
  assumes "writer_ok rs0 cmds s" and "list_all command_ok cmds"
  shows "writer_ok rs0 cmds (writer_run path envs s) \<and> remaining (writer_run path envs s) \<le> remaining s - length envs"
  using assms(1)
proof (induction envs arbitrary: s)
  case (Cons env envs)
  show ?case
  proof (cases "writer_round path env s")
    case None
    then have "remaining s = 0"
      by (auto simp: writer_round_def remaining_def recv_split(2) split: option.splits)
    with None Cons.prems show ?thesis by simp
  next
    case (Some s')
    with Cons.IH [of s'] writer_round_ok [OF Cons.prems assms(2) Some] show ?thesis by auto
  qed
qed simp

lemma writer_start_ok: "writer_ok rs0 cmds (cmds, writer_start (concat rs0))"
  by (simp add: writer_ok_def writer_start_def held_def disk_ok_def all_ok_def)

lemma writer_recovers:
  assumes "list_all record_ok rs0" and "list_all command_ok cmds"
    and "writer_run path envs (cmds, writer_start (concat rs0)) = (queue, w)"
  obtains k t where "map fst (completed w) = map completion (take (length (completed w)) cmds)"
    and "k \<le> length cmds" and "torn t" and "disk w = concat (foldl journal_spec rs0 (take k cmds)) @ t"
    and "list_all record_ok (foldl journal_spec rs0 (take k cmds))"
    and "\<forall>i < length (completed w). snd (completed w ! i) = Ok () \<longrightarrow> i < k"
    and "failure w = None \<longrightarrow> k = length (completed w)"
proof -
  have "writer_ok rs0 cmds (queue, w)"
    using writer_run_ok [OF writer_start_ok assms(2), of rs0 path envs] assms(3) by simp
  then obtain past where past: "cmds = past @ held (pending w) @ queue"
    "map fst (completed w) = map completion past" "disk_ok rs0 past w"
    by (auto simp: writer_ok_def)
  have len: "length (completed w) = length past" using past(2) by (metis length_map)
  obtain k t where k: "k \<le> length past" "torn t" "disk w = concat (foldl journal_spec rs0 (take k past)) @ t"
    "failure w = None \<longrightarrow> k = length past"
    "\<forall>i < length (completed w). snd (completed w ! i) = Ok () \<longrightarrow> i < k"
  proof (cases "failure w")
    case None
    with past(3) len show ?thesis by (intro that [of "length past" "[]"]) (auto simp: disk_ok_def)
  next
    case (Some e)
    with past(3) obtain k j t where j: "j \<le> k" "k \<le> length past" "torn t"
      "disk w = concat (foldl journal_spec rs0 (take k past)) @ t"
      "\<forall>c \<in> set (drop j (completed w)). snd c \<noteq> Ok ()" by (auto simp: disk_ok_def)
    have "i < k" if "i < length (completed w)" "snd (completed w ! i) = Ok ()" for i
    proof (rule ccontr)
      assume "\<not> i < k"
      with j(1) that(1) have "completed w ! i \<in> set (drop j (completed w))"
        by (auto simp: in_set_conv_nth intro!: exI [of _ "i - j"])
      with j(5) that(2) show False by blast
    qed
    with Some j show ?thesis by (intro that [of k t]) auto
  qed
  let ?rs = "foldl journal_spec rs0 (take k cmds)"
  have take: "take k cmds = take k past" using k(1) past(1) by simp
  have 1: "list_all record_ok ?rs"
    using assms(1,2) by (intro spec_records_ok) (auto simp: list_all_iff dest: in_set_takeD)
  have 2: "map fst (completed w) = map completion (take (length (completed w)) cmds)"
    using past(1,2) len by simp
  have 3: "k \<le> length cmds" using k(1) past(1) by simp
  have 4: "disk w = concat ?rs @ t" using k(3) unfolding take .
  have 5: "failure w = None \<longrightarrow> k = length (completed w)" using k(4) len by simp
  show ?thesis by (rule that [OF 2 3 k(2) 4 1 k(5) 5])
qed

text \<open>
  C4: no acknowledged record is lost. Let the writer process any commands, with any grouping
  into batches, any I/O failures and any torn write, and stop at any point. Then reopening the
  file recovers exactly the records that some prefix of the commands specifies, and
  this prefix contains every command that was acknowledged. If nothing failed it is exactly
  the commands that were answered. Answers are given in the order of the commands.
\<close>
theorem acknowledged_records_survive:
  assumes "list_all record_ok rs0" and "list_all command_ok cmds"
    and "writer_run path envs (cmds, writer_start (concat rs0)) = (queue, w)"
  shows "map fst (completed w) = map completion (take (length (completed w)) cmds) \<and>
    (\<exists>k \<le> length cmds.
      (\<forall>i < length (completed w). snd (completed w ! i) = Ok () \<longrightarrow> i < k) \<and>
      (failure w = None \<longrightarrow> k = length (completed w)) \<and>
      (length (concat (foldl journal_spec rs0 (take k cmds))) \<le> unat max_bytes \<longrightarrow>
       length (foldl journal_spec rs0 (take k cmds)) \<le> max_records \<longrightarrow>
       read_records no_faults path max_bytes max_records (Some (disk w)) =
         (Ok (foldl journal_spec rs0 (take k cmds)), Some (concat (foldl journal_spec rs0 (take k cmds))))))"
proof -
  obtain k t where c: "map fst (completed w) = map completion (take (length (completed w)) cmds)"
    and k: "k \<le> length cmds" "torn t" "disk w = concat (foldl journal_spec rs0 (take k cmds)) @ t"
    "list_all record_ok (foldl journal_spec rs0 (take k cmds))"
    "\<forall>i < length (completed w). snd (completed w ! i) = Ok () \<longrightarrow> i < k" "failure w = None \<longrightarrow> k = length (completed w)"
    by (rule writer_recovers [OF assms])
  have r: "length (concat (foldl journal_spec rs0 (take k cmds))) \<le> unat max_bytes \<longrightarrow>
      length (foldl journal_spec rs0 (take k cmds)) \<le> max_records \<longrightarrow>
      read_records no_faults path max_bytes max_records (Some (disk w)) =
        (Ok (foldl journal_spec rs0 (take k cmds)), Some (concat (foldl journal_spec rs0 (take k cmds))))"
    using read_records_torn [OF k(4)] k(2) unfolding k(3) torn_def by (elim conjE) (intro impI)
  show ?thesis by (intro conjI exI [of _ k] c k(1) k(5) k(6) r)
qed

text \<open>
  C24: the writer answers everything. Each round answers at least one command, so after as
  many rounds as there are commands each of them was answered exactly once, in order,
  whether or not writing failed: no waiting client is left without an answer.
\<close>
theorem writer_answers_every_command:
  assumes "list_all record_ok rs0" and "list_all command_ok cmds" and "length cmds \<le> length envs"
    and "writer_run path envs (cmds, writer_start (concat rs0)) = (queue, w)"
  shows "queue = [] \<and> pending w = None \<and> map fst (completed w) = map completion cmds"
proof -
  from writer_run_ok [OF writer_start_ok assms(2), of rs0 path envs] assms(3,4)
  have ok: "writer_ok rs0 cmds (queue, w)" and "remaining (queue, w) \<le> remaining (cmds, writer_start (concat rs0)) - length envs"
    by simp_all
  then have "remaining (queue, w) = 0"
    using assms(3) by (simp add: remaining_def writer_start_def held_def)
  then have "queue = [] \<and> pending w = None" by (auto simp: remaining_def held_def split: option.splits)
  with ok show ?thesis by (auto simp: writer_ok_def held_def)
qed

definition sample_env :: "(nat \<times> string) option \<Rightarrow> round_env" where
  "sample_env f = \<lparr>arrivals = 1, append_fault = f, replace_faults = no_faults\<rparr>"

definition sample_record :: "char \<Rightarrow> string" where "sample_record c = [c, newline]"

definition sample_commands :: "command list" where
  "sample_commands = [Append (sample_record CHR ''a'') 0, Append (sample_record CHR ''b'') 1,
     Replace (sample_record CHR ''c'') 2, Append (sample_record CHR ''d'') 3, Append (sample_record CHR ''e'') 4]"

text \<open>Two appends and a replacement succeed; the last batch is torn within its second record.\<close>

definition sample_writer :: writer where
  "sample_writer = snd (writer_run ''/wal'' [sample_env None, sample_env None, sample_env (Some (3, ''disk''))]
     (sample_commands, writer_start (concat [])))"

lemma sample_record_ok: "c \<noteq> newline \<Longrightarrow> record_ok (sample_record c)"
  by (auto simp: record_ok_def sample_record_def MAXIMUM_RECORD_BYTES_def intro: exI [of _ "[c]"])

lemma sample_commands_ok: "list_all command_ok sample_commands"
proof -
  have "split_inclusive (sample_record CHR ''c'') = [sample_record CHR ''c'']"
    by (simp add: sample_record_def newline_def)
  then show ?thesis by (simp add: sample_commands_def) (simp add: sample_record_ok newline_def)
qed

lemma sample_run:
  "writer_run ''/wal'' [sample_env None, sample_env None, sample_env (Some (3, ''disk''))]
     (sample_commands, writer_start (concat [])) = ([], sample_writer)"
  "disk sample_writer = sample_record CHR ''c'' @ sample_record CHR ''d'' @ ''e''"
  unfolding sample_writer_def
  by (simp_all add: sample_commands_def sample_env_def writer_start_def writer_round_def recv_def serve_def
      replace_file_def note_failure_def Let_def MAXIMUM_BATCH_RECORDS_def sample_record_def eval_nat_numeral)

theorem acknowledged_records_survive_witness:
  "list_all command_ok sample_commands \<and> disk sample_writer = sample_record CHR ''c'' @ sample_record CHR ''d'' @ ''e'' \<and>
   (\<exists>k \<le> length sample_commands. \<forall>i < length (completed sample_writer).
      snd (completed sample_writer ! i) = Ok () \<longrightarrow> i < k)"
proof -
  have "list_all record_ok []" by simp
  from sample_commands_ok sample_run(2) acknowledged_records_survive [OF this sample_commands_ok sample_run(1), of 0 0]
  show ?thesis by blast
qed

theorem writer_answers_every_command_witness:
  "\<exists>w. writer_run ''/wal'' (replicate 5 (sample_env None)) (sample_commands, writer_start (concat [])) = ([], w) \<and>
     map fst (completed w) = map completion sample_commands"
proof -
  obtain queue w where r:
    "writer_run ''/wal'' (replicate 5 (sample_env None)) (sample_commands, writer_start (concat [])) = (queue, w)"
    by (metis surj_pair)
  have 1: "list_all record_ok []" by simp
  have "length sample_commands \<le> length (replicate 5 (sample_env None))" by (simp add: sample_commands_def)
  from r writer_answers_every_command [OF 1 sample_commands_ok this r] show ?thesis by blast
qed

end
