(* ===== verification/Tenancy.thy ===== *)
theory Tenancy
  imports Journal Ordered_Map
begin

text \<open>
  \<^verbatim>\<open>bins/sandboxd/src/authorization/context.rs\<close> and \<^verbatim>\<open>peer.rs\<close>: the tenant scope and sandbox key
  every daemon store is indexed by, the context a request runs in, and the check of a
  connecting peer. The hash \<open>sha256\<close> and the \<open>hex\<close> crate's encoder are parameters.
\<close>

datatype tenant_scope = TenantScope (scope_tenant_id: tenant_id) (scope_workspace_id: workspace_id)

datatype sandbox_key = SandboxKey (key_scope: tenant_scope) (key_sandbox_id: sandbox_id)

definition scope_order :: "tenant_scope \<Rightarrow> string \<times> string" where
  "scope_order s = (scope_tenant_id s, scope_workspace_id s)"

lemma scope_order_inj: "scope_order a = scope_order b \<Longrightarrow> a = b"
  by (cases a; cases b) (simp add: scope_order_def)

instantiation tenant_scope :: linorder
begin

definition less_eq_tenant_scope :: "tenant_scope \<Rightarrow> tenant_scope \<Rightarrow> bool" where
  "a \<le> b \<longleftrightarrow> scope_order a \<le> scope_order b"

definition less_tenant_scope :: "tenant_scope \<Rightarrow> tenant_scope \<Rightarrow> bool" where
  "a < b \<longleftrightarrow> scope_order a < scope_order b"

instance
  by standard (auto simp: less_eq_tenant_scope_def less_tenant_scope_def intro: scope_order_inj)

end

definition sandbox_key_order :: "sandbox_key \<Rightarrow> tenant_scope \<times> string" where
  "sandbox_key_order k = (key_scope k, key_sandbox_id k)"

lemma sandbox_key_order_inj: "sandbox_key_order a = sandbox_key_order b \<Longrightarrow> a = b"
  by (cases a; cases b) (simp add: sandbox_key_order_def)

instantiation sandbox_key :: linorder
begin

definition less_eq_sandbox_key :: "sandbox_key \<Rightarrow> sandbox_key \<Rightarrow> bool" where
  "a \<le> b \<longleftrightarrow> sandbox_key_order a \<le> sandbox_key_order b"

definition less_sandbox_key :: "sandbox_key \<Rightarrow> sandbox_key \<Rightarrow> bool" where
  "a < b \<longleftrightarrow> sandbox_key_order a < sandbox_key_order b"

instance
  by standard (auto simp: less_eq_sandbox_key_def less_sandbox_key_def intro: sandbox_key_order_inj)

end

text \<open>\<open>u64::to_le_bytes\<close>\<close>

fun le_bytes :: "nat \<Rightarrow> nat \<Rightarrow> string" where
  "le_bytes 0 n = []"
| "le_bytes (Suc k) n = char_of (n mod 256) # le_bytes k (n div 256)"

text \<open>The bytes fed to the hash, and the project name: \<open>s\<close> and 23 hexadecimal digits of it.\<close>

definition project_preimage :: "sandbox_key \<Rightarrow> assignment_epoch \<Rightarrow> string" where
  "project_preimage k epoch =
     scope_tenant_id (key_scope k) @ [nul] @ scope_workspace_id (key_scope k) @ [nul] @
     key_sandbox_id k @ [nul] @ le_bytes 8 (unat epoch)"

definition runtime_project ::
  "(string \<Rightarrow> string) \<Rightarrow> (string \<Rightarrow> string) \<Rightarrow> sandbox_key \<Rightarrow> assignment_epoch \<Rightarrow> string" where
  "runtime_project sha256 hex_encode k epoch =
     ''s'' @ take 23 (hex_encode (sha256 (project_preimage k epoch)))"

record verified_tenant =
  vt_scope :: tenant_scope
  vt_subject_id :: subject_id
  vt_assignment_epoch :: assignment_epoch

datatype access_context = Operator tenant_scope subject_id | Tenant verified_tenant

fun context_scope :: "access_context \<Rightarrow> tenant_scope" where
  "context_scope (Operator scope _) = scope"
| "context_scope (Tenant tenant) = vt_scope tenant"

fun context_subject_id :: "access_context \<Rightarrow> subject_id" where
  "context_subject_id (Operator _ subject) = subject"
| "context_subject_id (Tenant tenant) = vt_subject_id tenant"

fun context_assignment_epoch :: "access_context \<Rightarrow> assignment_epoch option" where
  "context_assignment_epoch (Operator _ _) = None"
| "context_assignment_epoch (Tenant tenant) = Some (vt_assignment_epoch tenant)"

fun is_operator :: "access_context \<Rightarrow> bool" where
  "is_operator (Operator _ _) = True"
| "is_operator (Tenant _) = False"

definition context_sandbox_key :: "access_context \<Rightarrow> sandbox_id \<Rightarrow> sandbox_key" where
  "context_sandbox_key c sandbox = SandboxKey (context_scope c) sandbox"

datatype connection_endpoint = OperatorEndpoint | Workload u32

definition authorize_peer :: "u32 \<Rightarrow> connection_endpoint \<Rightarrow> (unit, sandbox_error) result" where
  "authorize_peer peer_uid endpoint =
     (let expected_uid = (case endpoint of OperatorEndpoint \<Rightarrow> 0 | Workload broker_uid \<Rightarrow> broker_uid)
      in if peer_uid \<noteq> expected_uid
         then Err (Runtime ''control peer is not authorized for this endpoint'') else Ok ())"

subsection \<open>Properties\<close>

lemma le_bytes_inj: "le_bytes k m = le_bytes k n \<Longrightarrow> m < 256 ^ k \<Longrightarrow> n < 256 ^ k \<Longrightarrow> m = n"
proof (induction k arbitrary: m n)
  case (Suc k)
  have "(char_of (m mod 256) :: char) = char_of (n mod 256)" using Suc.prems(1) by simp
  then have "(of_char (char_of (m mod 256) :: char) :: nat) = of_char (char_of (n mod 256) :: char)"
    by (rule arg_cong)
  then have "m mod 256 = n mod 256" by simp
  moreover have "m div 256 = n div 256"
    using Suc.IH [of "m div 256" "n div 256"] Suc.prems by (simp add: less_mult_imp_div_less)
  ultimately show ?case by (metis div_mult_mod_eq)
qed simp

definition key_parsed :: "sandbox_key \<Rightarrow> bool" where
  "key_parsed k \<longleftrightarrow> is_ok (parse_tenant_id (scope_tenant_id (key_scope k))) \<and>
     is_ok (parse_workspace_id (scope_workspace_id (key_scope k))) \<and> is_ok (parse_sandbox_id (key_sandbox_id k))"

lemma key_parsed_no_nul:
  "key_parsed k \<Longrightarrow> nul \<notin> set (scope_tenant_id (key_scope k)) \<and>
     nul \<notin> set (scope_workspace_id (key_scope k)) \<and> nul \<notin> set (key_sandbox_id k)"
  by (auto simp: key_parsed_def is_ok_iff parse_tenant_id_def parse_workspace_id_def parse_sandbox_id_def
      dest: identifier_ok_bytes(3))

lemma project_preimage_inj:
  assumes "key_parsed k" and "key_parsed k'" and "project_preimage k e = project_preimage k' e'"
  shows "k = k' \<and> e = e'"
proof -
  obtain t w s where k: "k = SandboxKey (TenantScope t w) s" by (metis sandbox_key.exhaust tenant_scope.exhaust)
  obtain t' w' s' where k': "k' = SandboxKey (TenantScope t' w') s'" by (metis sandbox_key.exhaust tenant_scope.exhaust)
  have n: "nul \<notin> set t" "nul \<notin> set w" "nul \<notin> set s" "nul \<notin> set t'" "nul \<notin> set w'" "nul \<notin> set s'"
    using key_parsed_no_nul [OF assms(1)] key_parsed_no_nul [OF assms(2)] unfolding k k' by simp_all
  from assms(3) have "t @ nul # (w @ nul # s @ nul # le_bytes 8 (unat e)) =
      t' @ nul # (w' @ nul # s' @ nul # le_bytes 8 (unat e'))"
    unfolding project_preimage_def k k' by (simp del: le_bytes.simps)
  note 1 = append_sep_inj [OF n(1,4) this]
  note 2 = append_sep_inj [OF n(2,5) conjunct2 [OF 1]]
  note 3 = append_sep_inj [OF n(3,6) conjunct2 [OF 2]]
  have "unat e = unat e'"
    by (rule le_bytes_inj [OF conjunct2 [OF 3]]) (use unat_u64_lt [of e] unat_u64_lt [of e'] in simp_all)
  then show ?thesis using 1 2 3 unfolding k k' by (simp add: word_unat_eq_iff)
qed

text \<open>
  C37: runtime projects are separated. Two sandboxes of different tenants, workspaces or
  names, and two epochs of one sandbox, never feed the same bytes to the hash: they share a
  runtime project name only if the truncated hash itself collides on different inputs.
\<close>
theorem runtime_projects_are_separated:
  assumes "key_parsed k" and "key_parsed k'" and "(k, e) \<noteq> (k', e')"
    and "runtime_project sha256 hex_encode k e = runtime_project sha256 hex_encode k' e'"
  shows "\<exists>x y. x \<noteq> y \<and> take 23 (hex_encode (sha256 x)) = take 23 (hex_encode (sha256 y)) \<and>
    x = project_preimage k e \<and> y = project_preimage k' e'"
  using assms project_preimage_inj [OF assms(1,2)] by (auto simp: runtime_project_def)

definition sample_key :: "string \<Rightarrow> sandbox_key" where
  "sample_key t = SandboxKey (TenantScope t ''workspace'') ''sandbox''"

lemma sample_key_parsed: "key_parsed (sample_key ''tenant'')" "key_parsed (sample_key ''other'')"
  by (simp_all add: key_parsed_def sample_key_def is_ok_def parse_tenant_id_def parse_workspace_id_def
      parse_sandbox_id_def parse_identifier_def identifier_byte_def ascii_defs)

text \<open>With a constant hash every pair of projects collides, and only for that reason.\<close>

theorem runtime_projects_are_separated_witness:
  "runtime_project (\<lambda>_. []) (\<lambda>_. []) (sample_key ''tenant'') 1 =
     runtime_project (\<lambda>_. []) (\<lambda>_. []) (sample_key ''other'') 1 \<and>
   (\<exists>x y. x \<noteq> y \<and> x = project_preimage (sample_key ''tenant'') 1 \<and> y = project_preimage (sample_key ''other'') 1)"
proof -
  have 1: "(sample_key ''tenant'', 1) \<noteq> (sample_key ''other'', 1 :: u64)" by (simp add: sample_key_def)
  have 2: "runtime_project (\<lambda>_. []) (\<lambda>_. []) (sample_key ''tenant'') 1 =
     runtime_project (\<lambda>_. []) (\<lambda>_. []) (sample_key ''other'') 1" by (simp add: runtime_project_def)
  from 2 runtime_projects_are_separated [OF sample_key_parsed 1 2] show ?thesis by blast
qed

end
