(* ===== verification/Journal_Log.thy ===== *)
theory Journal_Log
  imports Journal
begin

text \<open>
  A store kept in a journal, generically: the file is a list of entries, each written as one
  line by a JSON codec, and the store sends appends of one entry and replacements by a list
  of entries. The replay cache and the assignment ledger are two such stores. \<open>rep\<close> gives
  the record an entry is written as.
\<close>

datatype 'e log_command = AddEntry 'e nat | SetEntries "'e list" nat

definition log_line :: "('r \<Rightarrow> (string, string) result) \<Rightarrow> ('e \<Rightarrow> 'r) \<Rightarrow> 'e \<Rightarrow> string" where
  "log_line to_json rep e = (case to_json (rep e) of Inl _ \<Rightarrow> [] | Inr b \<Rightarrow> b @ [newline])"

fun concrete :: "('e \<Rightarrow> string) \<Rightarrow> 'e log_command \<Rightarrow> command" where
  "concrete line (AddEntry e c) = Append (line e) c"
| "concrete line (SetEntries es c) = Replace (concat (map line es)) c"

fun log_spec :: "'e list \<Rightarrow> 'e log_command \<Rightarrow> 'e list" where
  "log_spec es (AddEntry e _) = es @ [e]"
| "log_spec es (SetEntries es' _) = es'"

fun command_entries :: "'e log_command \<Rightarrow> 'e set" where
  "command_entries (AddEntry e _) = {e}"
| "command_entries (SetEntries es _) = set es"

text \<open>
  What is assumed of the codec on the entries that occur: a record is one nonempty line of
  less than \<open>L\<close> bytes, and it is read back.
\<close>

definition log_codec ::
  "('r \<Rightarrow> (string, string) result) \<Rightarrow> (string \<Rightarrow> ('r, string) result) \<Rightarrow> ('e \<Rightarrow> 'r) \<Rightarrow> nat \<Rightarrow> 'e set \<Rightarrow> bool" where
  "log_codec to_json from_json rep L S \<longleftrightarrow> L \<le> MAXIMUM_RECORD_BYTES \<and> inj rep \<and>
     (\<forall>e \<in> S. \<exists>b. to_json (rep e) = Ok b \<and> b \<noteq> [] \<and> newline \<notin> set b \<and> length b < L \<and>
        from_json (b @ [newline]) = Ok (rep e))"

lemma codec_line:
  assumes "log_codec to_json from_json rep L S" and "e \<in> S"
  shows "to_json (rep e) = Ok (butlast (log_line to_json rep e))"
    "log_line to_json rep e = butlast (log_line to_json rep e) @ [newline]" "record_ok (log_line to_json rep e)"
    "length (log_line to_json rep e) \<le> L" "from_json (log_line to_json rep e) = Ok (rep e)"
proof -
  from assms obtain b where b: "to_json (rep e) = Ok b" "b \<noteq> []" "newline \<notin> set b" "length b < L"
    "from_json (b @ [newline]) = Ok (rep e)" "L \<le> MAXIMUM_RECORD_BYTES" by (auto simp: log_codec_def)
  then show "to_json (rep e) = Ok (butlast (log_line to_json rep e))"
    "log_line to_json rep e = butlast (log_line to_json rep e) @ [newline]" "record_ok (log_line to_json rep e)"
    "length (log_line to_json rep e) \<le> L" "from_json (log_line to_json rep e) = Ok (rep e)"
    by (auto simp: log_line_def record_ok_def)
qed

lemma line_inj:
  assumes "log_codec to_json from_json rep L S" and "a \<in> S" "b \<in> S" and "log_line to_json rep a = log_line to_json rep b"
  shows "a = b"
proof -
  have "Ok (rep a) = (Ok (rep b) :: (_, string) result)"
    using codec_line(5) [OF assms(1,2)] codec_line(5) [OF assms(1,3)] assms(4) by simp
  then show ?thesis using assms(1) by (simp add: log_codec_def inj_eq)
qed

lemma codec_bytes:
  assumes "log_codec to_json from_json rep L S" and "set es \<subseteq> S"
  shows "length (concat (map (log_line to_json rep) es)) \<le> L * length es"
  using assms(2)
proof (induction es)
  case (Cons e es)
  then show ?case using codec_line(4) [OF assms(1), of e] by simp
qed simp

lemma lines_ok:
  "log_codec to_json from_json rep L S \<Longrightarrow> set es \<subseteq> S \<Longrightarrow> list_all record_ok (map (log_line to_json rep) es)"
  using codec_line(3) by (fastforce simp: list_all_iff)

text \<open>An encoder that writes entries one after the other writes their lines.\<close>

lemma encode_lines:
  assumes "\<And>e. e \<in> set es \<Longrightarrow> enc e = Ok (line e)"
  shows "try_fold (\<lambda>bytes e. and_then (enc e) (\<lambda>b. Ok (bytes @ b))) acc es = Ok (acc @ concat (map line es))"
  using assms by (induction es arbitrary: acc) simp_all

lemma concrete_spec:
  assumes c: "log_codec to_json from_json rep L S" and "\<forall>a \<in> set cmds. command_entries a \<subseteq> S"
  shows "foldl journal_spec (map (log_line to_json rep) es) (map (concrete (log_line to_json rep)) cmds) =
      map (log_line to_json rep) (foldl log_spec es cmds) \<and>
    list_all command_ok (map (concrete (log_line to_json rep)) cmds)"
  using assms(2)
proof (induction cmds arbitrary: es)
  case (Cons a cmds)
  show ?case
  proof (cases a)
    case (AddEntry e n)
    with Cons codec_line(3) [OF c, of e] show ?thesis using Cons.IH [of "es @ [e]"] by simp
  next
    case (SetEntries es' n)
    with Cons.prems have "set es' \<subseteq> S" by simp
    note ok = lines_ok [OF c this]
    from split_inclusive_concat [OF ok] SetEntries Cons ok show ?thesis by simp
  qed
qed simp

lemma log_spec_entries:
  "set E \<subseteq> S \<Longrightarrow> \<forall>a \<in> set cmds. command_entries a \<subseteq> S \<Longrightarrow> set (foldl log_spec E cmds) \<subseteq> S"
proof (induction cmds arbitrary: E)
  case (Cons a cmds)
  then show ?case by (cases a) simp_all
qed simp

text \<open>
  Recovery of such a store: whatever happened to the writer, the file read back is what a
  prefix of the commands specifies, and every acknowledged command is in this prefix.
\<close>

lemma log_recovers:
  assumes codec: "log_codec to_json from_json rep L S" and E0: "set E0 \<subseteq> S"
    and cmds: "\<forall>a \<in> set cmds. command_entries a \<subseteq> S"
    and w: "writer_run path envs (map (concrete (log_line to_json rep)) cmds,
      writer_start (concat (map (log_line to_json rep) E0))) = (queue, w)"
  obtains k where "set (foldl log_spec E0 (take k cmds)) \<subseteq> S" and "length (completed w) \<le> length cmds"
    and "\<forall>i < length (completed w). snd (completed w ! i) = Ok () \<longrightarrow> i < k"
    and "\<forall>bytes n. L * length (foldl log_spec E0 (take k cmds)) \<le> unat bytes \<longrightarrow> length (foldl log_spec E0 (take k cmds)) \<le> n \<longrightarrow>
      read_records no_faults path bytes n (Some (disk w)) =
        (Ok (map (log_line to_json rep) (foldl log_spec E0 (take k cmds))),
         Some (concat (map (log_line to_json rep) (foldl log_spec E0 (take k cmds)))))"
proof -
  let ?line = "log_line to_json rep"
  note spec = concrete_spec [OF codec]
  have ok: "list_all command_ok (map (concrete ?line) cmds)" using spec [OF cmds] by blast
  obtain k t where c: "map fst (completed w) = map completion (take (length (completed w)) (map (concrete ?line) cmds))"
    and k: "torn t" "disk w = concat (foldl journal_spec (map ?line E0) (take k (map (concrete ?line) cmds))) @ t"
    "\<forall>i < length (completed w). snd (completed w ! i) = Ok () \<longrightarrow> i < k"
    by (rule writer_recovers [OF lines_ok [OF codec E0] ok w])
  let ?R = "foldl log_spec E0 (take k cmds)"
  have t: "\<forall>a \<in> set (take k cmds). command_entries a \<subseteq> S" using cmds by (blast dest: in_set_takeD)
  then have disk: "disk w = concat (map ?line ?R) @ t" using k(2) spec by (simp add: take_map)
  have R: "set ?R \<subseteq> S" by (rule log_spec_entries [OF E0 t])
  have len: "length (completed w) \<le> length cmds"
    using arg_cong [OF c, of length] by simp
  have "read_records no_faults path bytes n (Some (disk w)) = (Ok (map ?line ?R), Some (concat (map ?line ?R)))"
    if "L * length ?R \<le> unat bytes" "length ?R \<le> n" for bytes n
    unfolding disk using read_records_torn [OF lines_ok [OF codec R]] k(1) that codec_bytes [OF codec R]
    by (simp add: torn_def)
  then have "\<forall>bytes n. L * length ?R \<le> unat bytes \<longrightarrow> length ?R \<le> n \<longrightarrow>
      read_records no_faults path bytes n (Some (disk w)) = (Ok (map ?line ?R), Some (concat (map ?line ?R)))"
    by (intro allI impI)
  then show ?thesis by (rule that [OF R len k(3)])
qed

text \<open>A line found among the commands is the entry it encodes.\<close>

lemma sent_entry:
  assumes "log_codec to_json from_json rep L S" and "\<forall>a \<in> set cmds. command_entries a \<subseteq> S" and "i < length cmds"
    and "e \<in> S" and "map (concrete (log_line to_json rep)) cmds ! i = Append (log_line to_json rep e) n"
  shows "cmds ! i = AddEntry e n"
proof -
  from assms(3,5) obtain e' where e': "cmds ! i = AddEntry e' n" "log_line to_json rep e' = log_line to_json rep e"
    by (cases "cmds ! i") auto
  have "command_entries (cmds ! i) \<subseteq> S" using assms(2,3) nth_mem by blast
  then have "e' \<in> S" using e'(1) by simp
  from line_inj [OF assms(1) this assms(4) e'(2)] e'(1) show ?thesis by simp
qed

end
