(* ===== verification/Replay.thy ===== *)
theory Replay
  imports Tenancy Journal_Log Machines
begin

text \<open>
  \<^verbatim>\<open>bins/sandboxd/src/authorization/replay.rs\<close>: the cache that lets a signed work order be used
  once. A nonce is entered under the lock, the record is queued to the journal there, and
  the caller then waits for the journal without the lock: \<open>consume\<close> is the two steps
  \<open>consume_begin\<close> and \<open>consume_end\<close>, and other callers may run between them. The JSON codec,
  \<open>sha256\<close> and the hexadecimal encoder are parameters.
\<close>

definition REPLAY_SCHEMA_VERSION :: u32 where "REPLAY_SCHEMA_VERSION = 1"
definition MAXIMUM_LIVE_NONCES :: nat where "MAXIMUM_LIVE_NONCES = 100000"
definition replay_COMPACTION_INTERVAL :: nat where "replay_COMPACTION_INTERVAL = 10000"
definition replay_MAXIMUM_RECOVERY_RECORDS :: nat where
  "replay_MAXIMUM_RECOVERY_RECORDS = MAXIMUM_LIVE_NONCES + replay_COMPACTION_INTERVAL"
definition replay_MAXIMUM_WAL_BYTES :: u64 where "replay_MAXIMUM_WAL_BYTES = 64 * 1024 * 1024"

datatype replay_key = ReplayKey (rk_scope: tenant_scope) (rk_nonce_digest: string)

definition replay_key_order :: "replay_key \<Rightarrow> tenant_scope \<times> string" where
  "replay_key_order k = (rk_scope k, rk_nonce_digest k)"

lemma replay_key_order_inj: "replay_key_order a = replay_key_order b \<Longrightarrow> a = b"
  by (cases a; cases b) (simp add: replay_key_order_def)

instantiation replay_key :: linorder
begin

definition less_eq_replay_key :: "replay_key \<Rightarrow> replay_key \<Rightarrow> bool" where
  "a \<le> b \<longleftrightarrow> replay_key_order a \<le> replay_key_order b"

definition less_replay_key :: "replay_key \<Rightarrow> replay_key \<Rightarrow> bool" where
  "a < b \<longleftrightarrow> replay_key_order a < replay_key_order b"

instance
  by standard (auto simp: less_eq_replay_key_def less_replay_key_def intro: replay_key_order_inj)

end

record replay_record =
  rep_schema_version :: u32
  rep_key :: replay_key
  rep_expires_unix_millis :: u64

record replay_cache =
  rc_journal :: "durable_journal option"
  rc_entries :: "(replay_key, u64) btree_map"
  rc_appends_since_compaction :: nat

definition default_replay_cache :: replay_cache where
  "default_replay_cache = \<lparr>rc_journal = None, rc_entries = [], rc_appends_since_compaction = 0\<rparr>"

type_synonym replay_to_json = "replay_record \<Rightarrow> (string, string) result"
type_synonym replay_from_json = "string \<Rightarrow> (replay_record, string) result"

definition retain_live :: "u64 \<Rightarrow> (replay_key \<times> u64) list \<Rightarrow> (replay_key \<times> u64) list" where
  "retain_live now entries = filter (\<lambda>e. now < snd e) entries"

definition replay_encode_record :: "replay_to_json \<Rightarrow> replay_record \<Rightarrow> (string, sandbox_error) result" where
  "replay_encode_record to_json r =
     and_then (map_err (\<lambda>e. Runtime (''encode replay record: '' @ e)) (to_json r)) (\<lambda>bytes. Ok (bytes @ [newline]))"

definition record_of :: "replay_key \<times> u64 \<Rightarrow> replay_record" where
  "record_of e = \<lparr>rep_schema_version = REPLAY_SCHEMA_VERSION, rep_key = fst e, rep_expires_unix_millis = snd e\<rparr>"

definition replay_encode_entries ::
  "replay_to_json \<Rightarrow> (replay_key, u64) btree_map \<Rightarrow> (string, sandbox_error) result" where
  "replay_encode_entries to_json entries =
     try_fold (\<lambda>bytes e. and_then (replay_encode_record to_json (record_of e)) (\<lambda>b. Ok (bytes @ b))) [] entries"

text \<open>\<open>self.journal.as_ref().map(...).transpose()\<close>\<close>

definition enqueue_encoded ::
  "(string \<Rightarrow> durable_journal \<Rightarrow> (nat, sandbox_error) result \<times> durable_journal) \<Rightarrow>
     (string, sandbox_error) result \<Rightarrow> replay_cache \<Rightarrow> (nat option, sandbox_error) result \<times> replay_cache" where
  "enqueue_encoded send encoded c =
     (case rc_journal c of
        None \<Rightarrow> (Ok None, c)
      | Some j \<Rightarrow>
          (case encoded of
             Inl e \<Rightarrow> (Err e, c)
           | Inr bytes \<Rightarrow>
               (case send bytes j of
                  (Inl e, j') \<Rightarrow> (Err e, c\<lparr>rc_journal := Some j'\<rparr>)
                | (Inr receipt, j') \<Rightarrow> (Ok (Some receipt), c\<lparr>rc_journal := Some j'\<rparr>))))"

definition enqueue_record ::
  "replay_to_json \<Rightarrow> replay_record \<Rightarrow> replay_cache \<Rightarrow> (nat option, sandbox_error) result \<times> replay_cache" where
  "enqueue_record to_json r c = enqueue_encoded enqueue_append (replay_encode_record to_json r) c"

definition enqueue_compaction ::
  "replay_to_json \<Rightarrow> replay_cache \<Rightarrow> (nat option, sandbox_error) result \<times> replay_cache" where
  "enqueue_compaction to_json c = enqueue_encoded enqueue_replace (replay_encode_entries to_json (rc_entries c)) c"

definition consume_begin ::
  "replay_to_json \<Rightarrow> replay_key \<Rightarrow> u64 \<Rightarrow> u64 \<Rightarrow> replay_cache \<Rightarrow>
     (nat option \<times> nat option, sandbox_error) result \<times> replay_cache" where
  "consume_begin to_json key expires now c0 =
     (let c = c0\<lparr>rc_entries := retain_live now (rc_entries c0)\<rparr>
      in if bt_contains (rc_entries c) key
         then (Err (Runtime ''work order has already been consumed''), c)
         else if length (rc_entries c) \<ge> MAXIMUM_LIVE_NONCES
         then (Err (Runtime ''work-order replay cache is full''), c)
         else (case enqueue_record to_json (record_of (key, expires))
                      (c\<lparr>rc_entries := bt_insert key expires (rc_entries c)\<rparr>) of
                 (Inl e, c') \<Rightarrow> (Err e, c')
               | (Inr appended, c') \<Rightarrow>
                   let n = Suc (rc_appends_since_compaction c')
                   in if n \<ge> replay_COMPACTION_INTERVAL
                      then (case enqueue_compaction to_json (c'\<lparr>rc_appends_since_compaction := 0\<rparr>) of
                              (Inl e, c'') \<Rightarrow> (Err e, c'')
                            | (Inr replacement, c'') \<Rightarrow> (Ok (appended, replacement), c''))
                      else (Ok (appended, None), c'\<lparr>rc_appends_since_compaction := n\<rparr>)))"

text \<open>What waiting for a receipt gave: nothing to wait for, or the journal's answer.\<close>

type_synonym waited = "(unit, sandbox_error) result option"

definition consume_end ::
  "replay_key \<Rightarrow> u64 \<Rightarrow> waited \<Rightarrow> waited \<Rightarrow> replay_cache \<Rightarrow> (unit, sandbox_error) result \<times> replay_cache" where
  "consume_end key expires appended replacement c =
     (case appended of
        Some (Inl e) \<Rightarrow>
          (Err e, if bt_get (rc_entries c) key = Some expires
                  then c\<lparr>rc_entries := bt_remove key (rc_entries c)\<rparr> else c)
      | _ \<Rightarrow> (case replacement of Some (Inl e) \<Rightarrow> (Err e, c) | _ \<Rightarrow> (Ok (), c)))"

definition consume_key :: "(string \<Rightarrow> string) \<Rightarrow> (string \<Rightarrow> string) \<Rightarrow> tenant_scope \<Rightarrow> string \<Rightarrow> replay_key" where
  "consume_key sha256 hex_encode scope nonce = ReplayKey scope (hex_encode (sha256 nonce))"

text \<open>The whole of \<open>consume\<close> when no other caller runs while it waits.\<close>

definition consume ::
  "replay_to_json \<Rightarrow> (string \<Rightarrow> string) \<Rightarrow> (string \<Rightarrow> string) \<Rightarrow> (nat \<Rightarrow> (unit, sandbox_error) result) \<Rightarrow>
     tenant_scope \<Rightarrow> string \<Rightarrow> u64 \<Rightarrow> u64 \<Rightarrow> replay_cache \<Rightarrow> (unit, sandbox_error) result \<times> replay_cache" where
  "consume to_json sha256 hex_encode wait scope nonce expires now c =
     (let key = consume_key sha256 hex_encode scope nonce
      in case consume_begin to_json key expires now c of
           (Inl e, c') \<Rightarrow> (Err e, c')
         | (Inr (appended, replacement), c') \<Rightarrow>
             consume_end key expires (map_option wait appended) (map_option wait replacement) c')"

definition replay_compact ::
  "replay_to_json \<Rightarrow> (nat \<Rightarrow> (unit, sandbox_error) result) \<Rightarrow> u64 \<Rightarrow> replay_cache \<Rightarrow>
     (unit, sandbox_error) result \<times> replay_cache" where
  "replay_compact to_json wait now c =
     (case enqueue_compaction to_json
             (c\<lparr>rc_entries := retain_live now (rc_entries c), rc_appends_since_compaction := 0\<rparr>) of
        (Inl e, c') \<Rightarrow> (Err e, c')
      | (Inr None, c') \<Rightarrow> (Ok (), c')
      | (Inr (Some receipt), c') \<Rightarrow> (wait receipt, c'))"

definition load_record ::
  "replay_from_json \<Rightarrow> u64 \<Rightarrow> (replay_key, u64) btree_map \<Rightarrow> string \<Rightarrow>
     ((replay_key, u64) btree_map, sandbox_error) result" where
  "load_record from_json now entries bytes =
     and_then (map_err (\<lambda>e. Runtime (''decode replay record: '' @ e)) (from_json bytes)) (\<lambda>r.
       if rep_schema_version r \<noteq> REPLAY_SCHEMA_VERSION \<or> rep_expires_unix_millis r = 0
       then Err (Runtime ''replay record schema or expiry is invalid'')
       else if rep_expires_unix_millis r \<le> now then Ok entries
       else if bt_contains entries (rep_key r)
       then Err (Runtime ''replay journal contains a duplicate live nonce'')
       else Ok (bt_insert (rep_key r) (rep_expires_unix_millis r) entries))"

definition replay_load ::
  "replay_from_json \<Rightarrow> journal_io faults \<Rightarrow> string \<Rightarrow> u64 \<Rightarrow> string option \<Rightarrow>
     ((replay_key, u64) btree_map, sandbox_error) result \<times> string option" where
  "replay_load from_json f path now file =
     (case read_records f path replay_MAXIMUM_WAL_BYTES replay_MAXIMUM_RECOVERY_RECORDS file of
        (Inl e, file') \<Rightarrow> (Err e, file')
      | (Inr records, file') \<Rightarrow>
          (and_then (try_fold (load_record from_json now) [] records) (\<lambda>entries.
             if length entries > MAXIMUM_LIVE_NONCES
             then Err (Runtime ''replay journal exceeds the live nonce bound'') else Ok entries), file'))"

subsection \<open>A nonce is consumed once\<close>

datatype replay_event = Begin replay_key u64 u64 | End replay_key u64 waited waited

fun replay_apply :: "replay_to_json \<Rightarrow> replay_cache \<Rightarrow> replay_event \<Rightarrow> replay_cache" where
  "replay_apply to_json c (Begin key expires now) = snd (consume_begin to_json key expires now c)"
| "replay_apply to_json c (End key expires appended replacement) = snd (consume_end key expires appended replacement c)"

text \<open>
  Events that may run while an entry is live: any call before it expires, and any answer of
  the journal except that the entry's own record could not be written.
\<close>

fun leaves :: "replay_key \<Rightarrow> u64 \<Rightarrow> replay_event \<Rightarrow> bool" where
  "leaves k x (Begin _ _ now) = (now < x)"
| "leaves k x (End key expires appended _) =
     (\<not> (key = k \<and> expires = x \<and> (case appended of Some (Inl _) \<Rightarrow> True | _ \<Rightarrow> False)))"

definition guarded :: "replay_key \<Rightarrow> u64 \<Rightarrow> replay_cache \<Rightarrow> bool" where
  "guarded k x c \<longleftrightarrow> bt_wf (rc_entries c) \<and> bt_get (rc_entries c) k = Some x"

lemma bt_wf_retain [simp]: "bt_wf m \<Longrightarrow> bt_wf (retain_live now m)"
  by (simp add: bt_wf_def retain_live_def sorted_wrt_map sorted_wrt_filter)

lemma bt_get_retain:
  "bt_wf m \<Longrightarrow> bt_get (retain_live now m) k = Some x \<longleftrightarrow> bt_get m k = Some x \<and> now < x"
  using bt_get_in_set [OF bt_wf_retain [of m now], of k x] by (auto simp: bt_get_in_set retain_live_def)

lemma enqueue_encoded_entries [simp]:
  "rc_entries (snd (enqueue_encoded send encoded c)) = rc_entries c"
  "rc_appends_since_compaction (snd (enqueue_encoded send encoded c)) = rc_appends_since_compaction c"
  by (auto simp: enqueue_encoded_def split: option.splits sum.splits prod.splits)

lemma enqueue_entries [simp]:
  "rc_entries (snd (enqueue_record to_json r c)) = rc_entries c"
  "rc_entries (snd (enqueue_compaction to_json c)) = rc_entries c"
  "rc_appends_since_compaction (snd (enqueue_record to_json r c)) = rc_appends_since_compaction c"
  "rc_appends_since_compaction (snd (enqueue_compaction to_json c)) = rc_appends_since_compaction c"
  by (simp_all add: enqueue_record_def enqueue_compaction_def)

lemma consume_begin_entries:
  "rc_entries (snd (consume_begin to_json key expires now c)) =
     (if bt_contains (retain_live now (rc_entries c)) key \<or>
         length (retain_live now (rc_entries c)) \<ge> MAXIMUM_LIVE_NONCES
      then retain_live now (rc_entries c)
      else bt_insert key expires (retain_live now (rc_entries c)))"
proof -
  let ?c = "c\<lparr>rc_entries := bt_insert key expires (retain_live now (rc_entries c))\<rparr>"
  obtain r c1 where 1: "enqueue_record to_json (record_of (key, expires)) ?c = (r, c1)" by (metis surj_pair)
  have e1: "rc_entries c1 = bt_insert key expires (retain_live now (rc_entries c))"
    using enqueue_entries(1) [of to_json "record_of (key, expires)" ?c] 1 by simp
  obtain q c2 where 2: "enqueue_compaction to_json (c1\<lparr>rc_appends_since_compaction := 0\<rparr>) = (q, c2)"
    by (metis surj_pair)
  have e2: "rc_entries c2 = rc_entries c1"
    using enqueue_entries(2) [of to_json "c1\<lparr>rc_appends_since_compaction := 0\<rparr>"] 2 by simp
  show ?thesis
    using 1 2 e1 e2 by (cases r; cases q) (simp_all add: consume_begin_def Let_def)
qed

lemma guarded_apply:
  assumes g: "guarded k x c" and l: "leaves k x ev"
  shows "guarded k x (replay_apply to_json c ev)"
proof (cases ev)
  case (Begin key expires now)
  let ?m = "retain_live now (rc_entries c)"
  have wf: "bt_wf ?m" and get: "bt_get ?m k = Some x"
    using g l Begin by (auto simp: guarded_def bt_get_retain)
  have "key \<noteq> k" if "\<not> bt_contains ?m key" using that get by (auto simp: bt_contains_def)
  with wf get show ?thesis
    by (auto simp: Begin guarded_def consume_begin_entries bt_simps)
next
  case (End key expires appended replacement)
  show ?thesis
  proof (cases "\<exists>e. appended = Some (Err e)")
    case True
    with g l End show ?thesis by (auto simp: guarded_def consume_end_def bt_simps)
  next
    case False
    then have "snd (consume_end key expires appended replacement c) = c"
      by (auto simp: consume_end_def split: option.splits sum.splits)
    with g End show ?thesis by simp
  qed
qed

lemma guarded_run: "guarded k x c \<Longrightarrow> list_all (leaves k x) evs \<Longrightarrow> guarded k x (foldl (replay_apply to_json) c evs)"
  by (induction evs arbitrary: c) (simp_all add: guarded_apply)

text \<open>
  A work order is used at most once. Once a nonce was entered with expiry \<open>x\<close>, every
  later attempt to enter it before \<open>x\<close> is refused as already consumed, whatever other calls
  run in between and however their journal writes interleave, unless this entry's own record
  could not be written (and its caller was refused).
\<close>
theorem nonce_is_consumed_once:
  assumes "bt_wf (rc_entries c)" and "consume_begin to_json key x t c = (Ok receipts, c1)"
    and "run (det (replay_apply to_json)) c1 evs c2" and "list_all (leaves key x) evs" and "now < x"
  shows "fst (consume_begin to_json key x' now c2) = Err (Runtime ''work order has already been consumed'')"
proof -
  have "rc_entries c1 = bt_insert key x (retain_live t (rc_entries c))"
    using assms(2) consume_begin_entries [of to_json key x t c]
    by (auto simp: consume_begin_def Let_def split: if_splits)
  then have "guarded key x c1" using assms(1) by (simp add: guarded_def bt_simps)
  then have "guarded key x c2" using guarded_run assms(3,4) by (simp add: run_det)
  then have "bt_contains (retain_live now (rc_entries c2)) key"
    using assms(5) bt_get_retain [of "rc_entries c2" now key x] by (simp add: guarded_def bt_contains_def)
  then show ?thesis by (simp add: consume_begin_def Let_def)
qed

subsection \<open>Recovery\<close>

abbreviation line :: "replay_to_json \<Rightarrow> replay_key \<times> u64 \<Rightarrow> string" where
  "line to_json \<equiv> log_line to_json record_of"

text \<open>
  A record holds two identifiers of at most 64 bytes, 64 hexadecimal digits, a number and
  fixed field names: less than 610 bytes, and \<open>64 MiB\<close> then hold the 110000 records the
  recovery bound allows. Expiries are positive, since a work order in the past is refused.
\<close>

definition codec_on :: "replay_to_json \<Rightarrow> replay_from_json \<Rightarrow> (replay_key \<times> u64) set \<Rightarrow> bool" where
  "codec_on to_json from_json S \<longleftrightarrow> log_codec to_json from_json record_of 610 S \<and> (\<forall>e \<in> S. snd e \<noteq> 0)"

lemma inj_record_of: "inj record_of"
  by (rule injI) (simp add: record_of_def prod_eq_iff)

lemma codec_onD:
  assumes "codec_on to_json from_json S"
  shows "log_codec to_json from_json record_of 610 S" "e \<in> S \<Longrightarrow> snd e \<noteq> 0"
    "e \<in> S \<Longrightarrow> replay_encode_record to_json (record_of e) = Ok (line to_json e)"
proof -
  show c: "log_codec to_json from_json record_of 610 S" and "e \<in> S \<Longrightarrow> snd e \<noteq> 0"
    using assms by (auto simp: codec_on_def)
  show "replay_encode_record to_json (record_of e) = Ok (line to_json e)" if "e \<in> S"
    using codec_line(1,2) [OF c that] by (simp add: replay_encode_record_def)
qed

lemma codec_entries:
  assumes "codec_on to_json from_json S" and "set es \<subseteq> S"
  shows "replay_encode_entries to_json es = Ok (concat (map (line to_json) es))"
  using encode_lines [of es "\<lambda>e. replay_encode_record to_json (record_of e)" "line to_json" "[]"]
    codec_onD(3) [OF assms(1)] assms(2) by (auto simp: replay_encode_entries_def)

lemma load_lines:
  assumes c: "codec_on to_json from_json S" and "set R \<subseteq> S"
    and "distinct (map fst (retain_live now R))" and "bt_wf E" and "fst ` set (retain_live now R) \<inter> fst ` set E = {}"
  shows "\<exists>E'. try_fold (load_record from_json now) E (map (line to_json) R) = Ok E' \<and> bt_wf E' \<and>
    (\<forall>k x. bt_get E' k = Some x \<longleftrightarrow> bt_get E k = Some x \<or> (k, x) \<in> set (retain_live now R)) \<and>
    length E' = length E + length (retain_live now R)"
  using assms(2-)
proof (induction R arbitrary: E)
  case (Cons e R)
  obtain k x where e: "e = (k, x)" by (cases e)
  have dec: "from_json (line to_json (k, x)) = Ok (record_of (k, x))" "x \<noteq> 0"
    using codec_line(5) [OF codec_onD(1) [OF c], of e] codec_onD(2) [OF c, of e] Cons.prems(1) by (simp_all add: e)
  show ?case
  proof (cases "now < x")
    case False
    then have "load_record from_json now E (line to_json e) = Ok E"
      using dec by (simp add: load_record_def e record_of_def not_less)
    with False Cons.IH [of E] Cons.prems show ?thesis by (simp add: retain_live_def e)
  next
    case True
    have new: "bt_get E k = None"
      using Cons.prems(4) True by (auto simp: retain_live_def e bt_get_def map_of_eq_None_iff)
    then have load: "load_record from_json now E (line to_json e) = Ok (bt_insert k x E)"
      using dec True [folded not_le] by (simp add: load_record_def e record_of_def bt_contains_def)
    have get: "bt_get (bt_insert k x E) k' = Some x' \<longleftrightarrow> bt_get E k' = Some x' \<or> (k', x') = (k, x)" for k' x'
      using new Cons.prems(3) by (auto simp: bt_simps)
    have live: "retain_live now (e # R) = e # retain_live now R" using True by (simp add: retain_live_def e)
    have wf: "bt_wf (bt_insert k x E)" using Cons.prems(3) by (simp add: bt_simps)
    have d: "distinct (map fst (retain_live now R))" and s: "set R \<subseteq> S" using Cons.prems(1,2) live by simp_all
    have "fst ` set (retain_live now R) \<inter> fst ` set (bt_insert k x E) = {}"
      using Cons.prems(2,4) live by (auto simp: fst_set_bt_insert e)
    from Cons.IH [OF s d wf this] obtain E' where E':
      "try_fold (load_record from_json now) (bt_insert k x E) (map (line to_json) R) = Ok E'" "bt_wf E'"
      "\<forall>k' x'. bt_get E' k' = Some x' \<longleftrightarrow> bt_get (bt_insert k x E) k' = Some x' \<or> (k', x') \<in> set (retain_live now R)"
      "length E' = length (bt_insert k x E) + length (retain_live now R)" by blast
    have "bt_get E' k' = Some x' \<longleftrightarrow> bt_get E k' = Some x' \<or> (k', x') \<in> set (retain_live now (e # R))" for k' x'
      using E'(3) get live by (auto simp: e)
    moreover have "length E' = length E + length (retain_live now (e # R))"
      using E'(4) new Cons.prems(3) live by (simp add: length_bt_insert)
    moreover have "try_fold (load_record from_json now) E (map (line to_json) (e # R)) = Ok E'"
      using load E'(1) by simp
    ultimately show ?thesis using E'(2) by blast
  qed
qed (simp add: retain_live_def)

text \<open>What every prefix of the commands leaves on disk at time \<open>now\<close>.\<close>

definition snap_ok ::
  "(replay_key \<times> u64) set \<Rightarrow> u64 \<Rightarrow> (replay_key \<times> u64) list \<Rightarrow> (replay_key \<times> u64) log_command list \<Rightarrow> bool" where
  "snap_ok S now E0 cmds \<longleftrightarrow>
     set (foldl log_spec E0 cmds) \<subseteq> S \<and>
     distinct (map fst (retain_live now (foldl log_spec E0 cmds))) \<and>
     length (retain_live now (foldl log_spec E0 cmds)) \<le> MAXIMUM_LIVE_NONCES \<and>
     length (foldl log_spec E0 cmds) \<le> replay_MAXIMUM_RECOVERY_RECORDS \<and>
     (\<forall>e n. AddEntry e n \<in> set cmds \<longrightarrow> now < snd e \<longrightarrow> e \<in> set (foldl log_spec E0 cmds))"

definition journal_inv ::
  "replay_to_json \<Rightarrow> (replay_key \<times> u64) set \<Rightarrow> (replay_key \<times> u64) list \<Rightarrow> u64 \<Rightarrow>
     replay_cache \<Rightarrow> (replay_key \<times> u64) log_command list \<Rightarrow> bool" where
  "journal_inv to_json S E0 now c cmds \<longleftrightarrow>
     bt_wf (rc_entries c) \<and> set (rc_entries c) \<subseteq> S \<and> length (rc_entries c) \<le> MAXIMUM_LIVE_NONCES \<and>
     rc_appends_since_compaction c < replay_COMPACTION_INTERVAL \<and>
     (\<exists>j. rc_journal c = Some j \<and> sent_commands j = map (concrete (line to_json)) cmds) \<and>
     (\<forall>a \<in> set cmds. command_entries a \<subseteq> S) \<and> (\<forall>m. snap_ok S now E0 (take m cmds)) \<and>
     set (retain_live now (foldl log_spec E0 cmds)) \<subseteq> set (rc_entries c) \<and>
     length (foldl log_spec E0 cmds) \<le> MAXIMUM_LIVE_NONCES + rc_appends_since_compaction c"

lemma retain_live_later: "t \<le> now \<Longrightarrow> retain_live now (retain_live t m) = retain_live now m"
  unfolding retain_live_def filter_filter by (rule filter_cong) auto

lemma set_retain_live: "e \<in> set (retain_live now m) \<longleftrightarrow> e \<in> set m \<and> now < snd e"
  by (simp add: retain_live_def)

lemma distinct_retain: "distinct (map fst m) \<Longrightarrow> distinct (map fst (retain_live now m))"
  by (simp add: retain_live_def distinct_map_filter)

lemma length_retain: "length (retain_live now m) \<le> length m"
  by (simp add: retain_live_def)

lemma snap_ok_later:
  assumes "t \<le> now" and s: "snap_ok S t E0 cmds"
  shows "snap_ok S now E0 cmds"
proof -
  let ?R = "foldl log_spec E0 cmds"
  have "distinct (map fst (retain_live now (retain_live t ?R)))"
    using s distinct_retain unfolding snap_ok_def by blast
  moreover have "length (retain_live now (retain_live t ?R)) \<le> MAXIMUM_LIVE_NONCES"
    using s length_retain [of now "retain_live t ?R"] unfolding snap_ok_def by linarith
  moreover have "t < snd e" if "now < snd e" for e :: "replay_key \<times> u64"
    using assms(1) that by (rule le_less_trans)
  ultimately show ?thesis
    using s unfolding retain_live_later [OF assms(1)] snap_ok_def by blast
qed

lemma snap_ok_snoc:
  assumes "\<forall>m. snap_ok S now E0 (take m cmds)" and "snap_ok S now E0 (cmds @ [a])"
  shows "\<forall>m. snap_ok S now E0 (take m (cmds @ [a]))"
proof
  fix m
  show "snap_ok S now E0 (take m (cmds @ [a]))"
  proof (cases "m \<le> length cmds")
    case True
    with assms(1) show ?thesis by (metis append_Nil2 diff_is_0_eq' take0 take_append)
  next
    case False
    with assms(2) show ?thesis by simp
  qed
qed

text \<open>Purging expired entries keeps the invariant, and so does an entry the journal refused.\<close>

lemma journal_inv_purge:
  assumes "journal_inv to_json S E0 t c cmds" and "t \<le> now"
  shows "journal_inv to_json S E0 now (c\<lparr>rc_entries := retain_live now (rc_entries c)\<rparr>) cmds"
proof -
  have "set (retain_live t (foldl log_spec E0 cmds)) \<subseteq> set (rc_entries c)"
    using assms(1) unfolding journal_inv_def by blast
  moreover have "t < snd e" if "now < snd e" for e :: "replay_key \<times> u64"
    using assms(2) that by (rule le_less_trans)
  ultimately have "set (retain_live now (foldl log_spec E0 cmds)) \<subseteq> set (retain_live now (rc_entries c))"
    unfolding subset_iff set_retain_live by blast
  moreover have "\<forall>m. snap_ok S now E0 (take m cmds)"
    using assms snap_ok_later unfolding journal_inv_def by blast
  moreover have "set (retain_live now (rc_entries c)) \<subseteq> set (rc_entries c)" by (auto simp: set_retain_live)
  ultimately show ?thesis
    using assms(1) length_retain [of now "rc_entries c"] unfolding journal_inv_def
    by (simp add: order_trans [of "length (retain_live now (rc_entries c))"]) blast
qed

lemma set_bt_insert_absent: "bt_get m k = None \<Longrightarrow> set (bt_insert k v m) = insert (k, v) (set m)"
  by (induction k v m rule: bt_insert.induct) (auto simp: bt_get_def split: if_splits)

lemma journal_inv_insert:
  assumes "journal_inv to_json S E0 now c cmds" and "bt_get (rc_entries c) key = None"
    and "length (rc_entries c) < MAXIMUM_LIVE_NONCES" and "(key, x) \<in> S"
  shows "journal_inv to_json S E0 now (c\<lparr>rc_entries := bt_insert key x (rc_entries c)\<rparr>) cmds"
  using assms unfolding journal_inv_def
  by (auto simp: bt_simps set_bt_insert_absent length_bt_insert)

lemma snap_ok_add:
  assumes inv: "journal_inv to_json S E0 now c cmds" and new: "bt_get (rc_entries c) key = None"
    and len: "length (rc_entries c) < MAXIMUM_LIVE_NONCES" and e: "(key, x) \<in> S"
  shows "snap_ok S now E0 (cmds @ [AddEntry (key, x) n])"
proof -
  let ?R = "foldl log_spec E0 cmds"
  have snap: "snap_ok S now E0 cmds"
    using inv unfolding journal_inv_def by (metis append_Nil2 take_all order_refl)
  have sub: "set (retain_live now ?R) \<subseteq> set (rc_entries c)" and wf: "bt_wf (rc_entries c)"
    and l: "length ?R \<le> MAXIMUM_LIVE_NONCES + rc_appends_since_compaction c"
    "rc_appends_since_compaction c < replay_COMPACTION_INTERVAL"
    using inv unfolding journal_inv_def by blast+
  have live: "retain_live now (?R @ [(key, x)]) = retain_live now ?R @ (if now < x then [(key, x)] else [])"
    by (simp add: retain_live_def)
  have "key \<notin> fst ` set (rc_entries c)" using new by (simp add: bt_get_def map_of_eq_None_iff)
  with sub have "key \<notin> fst ` set (retain_live now ?R)" by blast
  moreover have d: "distinct (map fst (retain_live now ?R))" using snap unfolding snap_ok_def by blast
  ultimately have "distinct (map fst (retain_live now (?R @ [(key, x)])))" unfolding live by simp
  moreover have "length (retain_live now ?R) \<le> length (rc_entries c)"
  proof -
    have "length (retain_live now ?R) = card (set (retain_live now ?R))"
      using d by (metis distinct_card distinct_map)
    also have "\<dots> \<le> card (set (rc_entries c))" using sub by (rule card_mono [OF finite_set])
    also have "\<dots> \<le> length (rc_entries c)" by (rule card_length)
    finally show ?thesis .
  qed
  then have "length (retain_live now (?R @ [(key, x)])) \<le> MAXIMUM_LIVE_NONCES" using len unfolding live by simp
  ultimately show ?thesis
    using snap e l unfolding snap_ok_def replay_MAXIMUM_RECOVERY_RECORDS_def by auto
qed

lemma snap_ok_set:
  assumes snap: "snap_ok S now E0 cmds" and sub: "set (retain_live now (foldl log_spec E0 cmds)) \<subseteq> set E"
    and E: "set E \<subseteq> S" "bt_wf E" "length E \<le> MAXIMUM_LIVE_NONCES"
  shows "snap_ok S now E0 (cmds @ [SetEntries E n])"
proof -
  have "distinct (map fst E)" using E(2) by (simp add: bt_wf_def strict_sorted_iff)
  moreover have "e \<in> set E" if "AddEntry e m \<in> set cmds" "now < snd e" for e m
    using snap sub that unfolding snap_ok_def subset_iff set_retain_live by blast
  ultimately show ?thesis
    using E length_retain [of now E] distinct_retain [of E now] unfolding snap_ok_def replay_MAXIMUM_RECOVERY_RECORDS_def
    by (auto intro: order_trans)
qed

lemma consume_begin_inv:
  assumes codec: "codec_on to_json from_json S" and inv: "journal_inv to_json S E0 t c cmds"
    and "t \<le> now" and e: "(key, x) \<in> S"
  shows "\<exists>cmds'. journal_inv to_json S E0 now (snd (consume_begin to_json key x now c)) cmds'"
proof -
  let ?c1 = "c\<lparr>rc_entries := retain_live now (rc_entries c)\<rparr>"
  have inv1: "journal_inv to_json S E0 now ?c1 cmds" by (rule journal_inv_purge [OF inv assms(3)])
  show ?thesis
  proof (cases "bt_contains (rc_entries ?c1) key \<or> length (rc_entries ?c1) \<ge> MAXIMUM_LIVE_NONCES")
    case True
    then have "snd (consume_begin to_json key x now c) = ?c1" by (auto simp: consume_begin_def Let_def)
    with inv1 show ?thesis by metis
  next
    case False
    then have new: "bt_get (rc_entries ?c1) key = None" and len: "length (rc_entries ?c1) < MAXIMUM_LIVE_NONCES"
      by (simp_all add: bt_contains_def)
    let ?E = "bt_insert key x (rc_entries ?c1)"
    let ?c2 = "?c1\<lparr>rc_entries := ?E\<rparr>"
    have inv2: "journal_inv to_json S E0 now ?c2 cmds"
      using journal_inv_insert [OF inv1 new len e] .
    obtain j where j: "rc_journal c = Some j" "sent_commands j = map (concrete (line to_json)) cmds"
      using inv1 unfolding journal_inv_def by auto
    have rec: "enqueue_record to_json (record_of (key, x)) ?c2 =
        (case journal_enqueue (Append (line to_json (key, x))) j of
           (Inl err, j') \<Rightarrow> (Err err, ?c2\<lparr>rc_journal := Some j'\<rparr>)
         | (Inr r, j') \<Rightarrow> (Ok (Some r), ?c2\<lparr>rc_journal := Some j'\<rparr>))"
      using codec_onD(3) [OF codec e] codec_line(3) [OF codec_onD(1) [OF codec] e]
      by (simp add: enqueue_record_def enqueue_encoded_def j(1) enqueue_append_record split: prod.splits sum.splits)
    show ?thesis
    proof (cases "sender_open j \<and> writer_alive j")
      case down: False
      then have "snd (consume_begin to_json key x now c) = ?c2\<lparr>rc_journal := Some j\<rparr>"
        using False rec by (auto simp: consume_begin_def Let_def journal_enqueue_def)
      also have "\<dots> = ?c2" using j(1) by simp
      finally show ?thesis using inv2 by metis
    next
      case up: True
      let ?n = "next_completion j"
      let ?j1 = "j\<lparr>sent_commands := sent_commands j @ [Append (line to_json (key, x)) ?n], next_completion := Suc ?n\<rparr>"
      let ?cmds1 = "cmds @ [AddEntry (key, x) ?n]"
      let ?a = "rc_appends_since_compaction c"
      note p2 = inv2 [unfolded journal_inv_def]
      have snap1: "snap_ok S now E0 ?cmds1" by (rule snap_ok_add [OF inv1 new len e])
      have pre1: "\<forall>m. snap_ok S now E0 (take m ?cmds1)"
        by (rule snap_ok_snoc [OF _ snap1]) (use p2 in blast)
      have sub1: "set (retain_live now (foldl log_spec E0 ?cmds1)) \<subseteq> set ?E"
        using p2 set_bt_insert_absent [OF new, of x] by (auto simp: retain_live_def)
      have E: "bt_wf ?E" "set ?E \<subseteq> S" "length ?E \<le> MAXIMUM_LIVE_NONCES"
        "length (foldl log_spec E0 cmds) \<le> MAXIMUM_LIVE_NONCES + ?a" "\<forall>a \<in> set cmds. command_entries a \<subseteq> S"
        using p2 by simp_all
      have rec1: "enqueue_record to_json (record_of (key, x)) ?c2 = (Ok (Some ?n), ?c2\<lparr>rc_journal := Some ?j1\<rparr>)"
        using rec up by (simp add: journal_enqueue_def)
      show ?thesis
      proof (cases "Suc ?a < replay_COMPACTION_INTERVAL")
        case True
        let ?c3 = "?c2\<lparr>rc_journal := Some ?j1, rc_appends_since_compaction := Suc ?a\<rparr>"
        have "snd (consume_begin to_json key x now c) = ?c3"
          using False rec1 True by (simp add: consume_begin_def Let_def)
        moreover have "journal_inv to_json S E0 now ?c3 ?cmds1"
          unfolding journal_inv_def using E pre1 sub1 True e j(2) by simp
        ultimately show ?thesis by metis
      next
        case compact: False
        let ?m = "Suc ?n"
        let ?lines = "map (line to_json) ?E"
        let ?j2 = "?j1\<lparr>sent_commands := sent_commands ?j1 @ [Replace (concat ?lines) ?m], next_completion := Suc ?m\<rparr>"
        let ?cmds2 = "?cmds1 @ [SetEntries ?E ?m]"
        let ?c4 = "?c2\<lparr>rc_journal := Some ?j2, rc_appends_since_compaction := 0\<rparr>"
        have "length (concat ?lines) \<le> 610 * length ?E" by (rule codec_bytes [OF codec_onD(1) [OF codec] E(2)])
        then have size: "length (concat ?lines) \<le> MAXIMUM_REPLACEMENT_BYTES"
          using E(3) by (simp add: MAXIMUM_REPLACEMENT_BYTES_def MAXIMUM_LIVE_NONCES_def)
        have "enqueue_compaction to_json (?c2\<lparr>rc_journal := Some ?j1, rc_appends_since_compaction := 0\<rparr>) =
            (Ok (Some ?m), ?c4)"
          using codec_entries [OF codec E(2)] enqueue_replace_records [OF lines_ok [OF codec_onD(1) [OF codec] E(2)] size, of ?j1] up
          by (simp add: enqueue_compaction_def enqueue_encoded_def journal_enqueue_def)
        then have "snd (consume_begin to_json key x now c) = ?c4"
          using False rec1 compact by (simp add: consume_begin_def Let_def)
        moreover have "snap_ok S now E0 ?cmds2" by (rule snap_ok_set [OF snap1 sub1 E(2,1,3)])
        then have pre2: "\<forall>m. snap_ok S now E0 (take m ?cmds2)" by (rule snap_ok_snoc [OF pre1])
        have "journal_inv to_json S E0 now ?c4 ?cmds2"
          unfolding journal_inv_def using E pre2 e j(2)
          by (auto simp: replay_COMPACTION_INTERVAL_def set_retain_live)
        ultimately show ?thesis by metis
      qed
    qed
  qed
qed

lemma journal_inv_later:
  assumes "journal_inv to_json S E0 t c cmds" and "t \<le> now"
  shows "journal_inv to_json S E0 now c cmds"
proof -
  have "t < snd e" if "now < snd e" for e :: "replay_key \<times> u64"
    using assms(2) that by (rule le_less_trans)
  then have "set (retain_live now (foldl log_spec E0 cmds)) \<subseteq> set (rc_entries c)"
    using assms(1) unfolding journal_inv_def subset_iff set_retain_live by blast
  moreover have "\<forall>m. snap_ok S now E0 (take m cmds)"
    using assms snap_ok_later unfolding journal_inv_def by blast
  ultimately show ?thesis using assms(1) unfolding journal_inv_def by blast
qed

text \<open>A cache just opened on the entries \<open>E0\<close>, which \<open>open\<close> has written to the file.\<close>

definition opened_cache :: "(replay_key, u64) btree_map \<Rightarrow> replay_cache" where
  "opened_cache E0 = \<lparr>rc_journal = Some \<lparr>sender_open = True, writer_alive = True, sent_commands = [], next_completion = 0\<rparr>,
     rc_entries = E0, rc_appends_since_compaction = 0\<rparr>"

definition begins :: "replay_to_json \<Rightarrow> replay_cache \<Rightarrow> (replay_key \<times> u64 \<times> u64) list \<Rightarrow> replay_cache" where
  "begins to_json c evs = foldl (\<lambda>c ev. snd (consume_begin to_json (fst ev) (fst (snd ev)) (snd (snd ev)) c)) c evs"

lemma opened_cache_inv:
  assumes "bt_wf E0" and "set E0 \<subseteq> S" and "length E0 \<le> MAXIMUM_LIVE_NONCES"
  shows "journal_inv to_json S E0 0 (opened_cache E0) []"
proof -
  have "distinct (map fst E0)" using assms(1) by (simp add: bt_wf_def strict_sorted_iff)
  then have "snap_ok S 0 E0 []"
    using assms length_retain [of 0 E0] distinct_retain [of E0 0]
    by (simp add: snap_ok_def replay_MAXIMUM_RECOVERY_RECORDS_def order_trans [of "length (retain_live 0 E0)"])
  then show ?thesis
    using assms by (auto simp: journal_inv_def opened_cache_def replay_COMPACTION_INTERVAL_def set_retain_live)
qed

lemma begins_inv:
  assumes "codec_on to_json from_json S" and "journal_inv to_json S E0 t c cmds"
    and "sorted (t # map (snd \<circ> snd) evs)" and "\<forall>ev \<in> set evs. (fst ev, fst (snd ev)) \<in> S \<and> snd (snd ev) \<le> now" and "t \<le> now"
  shows "\<exists>cmds'. journal_inv to_json S E0 now (begins to_json c evs) cmds'"
  using assms(2-)
proof (induction evs arbitrary: t c cmds)
  case Nil
  then show ?case using journal_inv_later [OF Nil(1)] by (auto simp: begins_def)
next
  case (Cons ev evs)
  obtain key x s where ev: "ev = (key, x, s)" by (cases ev)
  have s: "t \<le> s" "(key, x) \<in> S" "s \<le> now" "sorted (s # map (snd \<circ> snd) evs)"
    using Cons.prems(2,3) by (simp_all add: ev comp_def)
  obtain cmds' where "journal_inv to_json S E0 s (snd (consume_begin to_json key x s c)) cmds'"
    using consume_begin_inv [OF assms(1) Cons.prems(1) s(1,2)] by blast
  from Cons.IH [OF this s(4) _ s(3)] Cons.prems(3) show ?case by (simp add: begins_def ev)
qed


subsection \<open>Instances\<close>

definition sample_nonce :: "string \<Rightarrow> replay_key" where
  "sample_nonce d = ReplayKey (TenantScope ''tenant'' ''workspace'') d"

definition sample_to_json :: replay_to_json where "sample_to_json _ = Ok ''{}''"

definition sample_from_json :: replay_from_json where
  "sample_from_json _ = Ok (record_of (sample_nonce ''a'', 2000))"

definition one_nonce :: replay_cache where
  "one_nonce = \<lparr>rc_journal = None, rc_entries = [(sample_nonce ''a'', 2000)], rc_appends_since_compaction = 1\<rparr>"

lemma one_nonce:
  "consume_begin sample_to_json (sample_nonce ''a'') 2000 1000 default_replay_cache = (Ok (None, None), one_nonce)"
  by (simp add: consume_begin_def default_replay_cache_def one_nonce_def retain_live_def bt_contains_def bt_get_def
      enqueue_record_def enqueue_encoded_def MAXIMUM_LIVE_NONCES_def replay_COMPACTION_INTERVAL_def)

theorem nonce_is_consumed_once_witness:
  "consume_begin sample_to_json (sample_nonce ''a'') 2000 1000 default_replay_cache = (Ok (None, None), one_nonce) \<and>
   (let c = replay_apply sample_to_json one_nonce (Begin (sample_nonce ''b'') 3000 1200)
    in fst (consume_begin sample_to_json (sample_nonce ''a'') 2000 1500 c) =
         Err (Runtime ''work order has already been consumed''))"
proof -
  let ?e = "Begin (sample_nonce ''b'') 3000 1200"
  have wf: "bt_wf (rc_entries default_replay_cache)" by (simp add: default_replay_cache_def)
  have r: "run (det (replay_apply sample_to_json)) one_nonce [?e] (replay_apply sample_to_json one_nonce ?e)"
    by (simp add: run_det)
  have l: "list_all (leaves (sample_nonce ''a'') 2000) [?e]" and n: "(1500::u64) < 2000"
    by (simp_all add: word_less_nat_alt)
  from one_nonce nonce_is_consumed_once [OF wf one_nonce r l n] show ?thesis unfolding Let_def by blast
qed

definition sample_journal :: durable_journal where
  "sample_journal = \<lparr>sender_open = True, writer_alive = True,
     sent_commands = [Append (line sample_to_json (sample_nonce ''a'', 2000)) 0], next_completion = 1\<rparr>"


end
