(* ===== verification/Assignment_Ledger.thy ===== *)
theory Assignment_Ledger
  imports Tenancy Journal_Log Machines
begin

text \<open>
  \<^verbatim>\<open>bins/sandboxd/src/assignment.rs\<close>: which epoch of a sandbox this worker holds, and in what
  state, kept in a journal. As in the replay cache each operation updates the entries and
  queues its record under the lock, and then waits for the journal without it: the first
  step is the definition named after the operation, the second is \<open>operation_end\<close>. The
  JSON codec is a parameter.
\<close>

definition ASSIGNMENT_SCHEMA_VERSION :: u32 where "ASSIGNMENT_SCHEMA_VERSION = 1"
definition MAXIMUM_ASSIGNMENTS :: nat where "MAXIMUM_ASSIGNMENTS = 100000"
definition ledger_COMPACTION_INTERVAL :: nat where "ledger_COMPACTION_INTERVAL = 10000"
definition ledger_MAXIMUM_RECOVERY_RECORDS :: nat where
  "ledger_MAXIMUM_RECOVERY_RECORDS = MAXIMUM_ASSIGNMENTS + ledger_COMPACTION_INTERVAL"
definition ledger_MAXIMUM_WAL_BYTES :: u64 where "ledger_MAXIMUM_WAL_BYTES = 64 * 1024 * 1024"

datatype assignment_state = AsProvisioning | AsRestoring | AsActive | AsFencing | AsTransferable | AsStopped | AsFailed

text \<open>The derived \<open>Debug\<close> text.\<close>

fun assignment_state_debug :: "assignment_state \<Rightarrow> string" where
  "assignment_state_debug AsProvisioning = ''Provisioning''"
| "assignment_state_debug AsRestoring = ''Restoring''"
| "assignment_state_debug AsActive = ''Active''"
| "assignment_state_debug AsFencing = ''Fencing''"
| "assignment_state_debug AsTransferable = ''Transferable''"
| "assignment_state_debug AsStopped = ''Stopped''"
| "assignment_state_debug AsFailed = ''Failed''"

record assignment_record =
  ar_schema_version :: u32
  ar_key :: sandbox_key
  ar_epoch :: assignment_epoch
  ar_state :: assignment_state
  ar_snapshot_id :: "snapshot_id option"

record assignment_ledger =
  al_journal :: durable_journal
  al_entries :: "(sandbox_key, assignment_record) btree_map"
  al_appends_since_compaction :: nat

type_synonym assignment_to_json = "assignment_record \<Rightarrow> (string, string) result"
type_synonym assignment_from_json = "string \<Rightarrow> (assignment_record, string) result"

definition in_flight :: "assignment_state \<Rightarrow> bool" where
  "in_flight s \<longleftrightarrow> s \<in> {AsProvisioning, AsRestoring, AsActive, AsFencing}"

fun valid_transition :: "assignment_state \<Rightarrow> assignment_state \<Rightarrow> bool" where
  "valid_transition AsProvisioning t = (t \<in> {AsActive, AsStopped, AsFailed})"
| "valid_transition AsRestoring t = (t \<in> {AsActive, AsFailed})"
| "valid_transition AsActive t = (t \<in> {AsFencing, AsStopped, AsFailed})"
| "valid_transition AsFencing t = (t \<in> {AsActive, AsTransferable, AsFailed})"
| "valid_transition _ _ = False"

subsection \<open>Encoding and the journal\<close>

definition assignment_encode_record :: "assignment_to_json \<Rightarrow> assignment_record \<Rightarrow> (string, sandbox_error) result" where
  "assignment_encode_record to_json r =
     and_then (map_err (\<lambda>e. Runtime (''encode assignment record: '' @ e)) (to_json r)) (\<lambda>bytes. Ok (bytes @ [newline]))"

definition assignment_encode_entries ::
  "assignment_to_json \<Rightarrow> (sandbox_key, assignment_record) btree_map \<Rightarrow> (string, sandbox_error) result" where
  "assignment_encode_entries to_json entries =
     try_fold (\<lambda>bytes r. and_then (assignment_encode_record to_json r) (\<lambda>b. Ok (bytes @ b))) [] (bt_values entries)"

definition replace_entries ::
  "assignment_to_json \<Rightarrow> assignment_ledger \<Rightarrow> (nat, sandbox_error) result \<times> assignment_ledger" where
  "replace_entries to_json l =
     (case assignment_encode_entries to_json (al_entries l) of
        Inl e \<Rightarrow> (Err e, l)
      | Inr bytes \<Rightarrow> (case enqueue_replace bytes (al_journal l) of (r, j) \<Rightarrow> (r, l\<lparr>al_journal := j\<rparr>)))"

definition maybe_enqueue_compaction ::
  "assignment_to_json \<Rightarrow> assignment_ledger \<Rightarrow> (nat option, sandbox_error) result \<times> assignment_ledger" where
  "maybe_enqueue_compaction to_json l =
     (if al_appends_since_compaction l < ledger_COMPACTION_INTERVAL then (Ok None, l)
      else (case replace_entries to_json (l\<lparr>al_appends_since_compaction := 0\<rparr>) of
              (Inl e, l') \<Rightarrow> (Err e, l')
            | (Inr receipt, l') \<Rightarrow> (Ok (Some receipt), l')))"

definition ledger_compact ::
  "assignment_to_json \<Rightarrow> assignment_ledger \<Rightarrow> (nat, sandbox_error) result \<times> assignment_ledger" where
  "ledger_compact to_json l = replace_entries to_json (l\<lparr>al_appends_since_compaction := 0\<rparr>)"

text \<open>The common end of the locked part of an operation: enter the record and queue it.\<close>

definition commit ::
  "assignment_to_json \<Rightarrow> sandbox_key \<Rightarrow> assignment_record \<Rightarrow> assignment_ledger \<Rightarrow>
     (nat \<times> nat option, sandbox_error) result \<times> assignment_ledger" where
  "commit to_json key r l0 =
     (let l = l0\<lparr>al_entries := bt_insert key r (al_entries l0)\<rparr>
      in case assignment_encode_record to_json r of
           Inl e \<Rightarrow> (Err e, l)
         | Inr bytes \<Rightarrow>
             (case enqueue_append bytes (al_journal l) of
                (Inl e, j) \<Rightarrow> (Err e, l\<lparr>al_journal := j\<rparr>)
              | (Inr receipt, j) \<Rightarrow>
                  (case maybe_enqueue_compaction to_json
                          (l\<lparr>al_journal := j, al_appends_since_compaction := Suc (al_appends_since_compaction l)\<rparr>) of
                     (Inl e, l') \<Rightarrow> (Err e, l')
                   | (Inr replacement, l') \<Rightarrow> (Ok (receipt, replacement), l'))))"

subsection \<open>Operations\<close>

definition begin_epoch ::
  "sandbox_key \<Rightarrow> assignment_epoch option \<Rightarrow> assignment_state \<Rightarrow> snapshot_id option \<Rightarrow>
     (sandbox_key, assignment_record) btree_map \<Rightarrow> (assignment_epoch, sandbox_error) result" where
  "begin_epoch key requested_epoch state snapshot entries =
     (if length entries \<ge> MAXIMUM_ASSIGNMENTS \<and> \<not> bt_contains entries key
      then Err (Runtime ''assignment ledger is full'')
      else let current = bt_get entries key
      in if (case current of None \<Rightarrow> False | Some r \<Rightarrow> in_flight (ar_state r))
         then Err (Runtime ''sandbox assignment is already active'')
         else and_then
           (case requested_epoch of
              Some epoch \<Rightarrow> Ok epoch
            | None \<Rightarrow>
                and_then (ok_or (Runtime ''assignment epoch overflow'')
                   (checked_add (case current of None \<Rightarrow> 0 | Some r \<Rightarrow> ar_epoch r) 1))
                  (\<lambda>n. map_err (\<lambda>e. Runtime (core_error_display e)) (epoch_new n)))
           (\<lambda>epoch.
              case current of
                None \<Rightarrow> Ok epoch
              | Some r \<Rightarrow>
                  if epoch \<le> ar_epoch r
                  then Err (Runtime ''assignment epoch is stale or already consumed'')
                  else if ar_state r = AsTransferable \<and> (state \<noteq> AsRestoring \<or> ar_snapshot_id r \<noteq> snapshot)
                  then Err (Runtime ''transferable assignment must be restored from its fenced snapshot'')
                  else Ok epoch))"

type_synonym operation_outcome = "assignment_epoch \<times> assignment_record \<times> assignment_record option \<times> nat \<times> nat option"

definition begin_operation ::
  "assignment_to_json \<Rightarrow> sandbox_key \<Rightarrow> assignment_epoch option \<Rightarrow> assignment_state \<Rightarrow> snapshot_id option \<Rightarrow>
     assignment_ledger \<Rightarrow> (operation_outcome, sandbox_error) result \<times> assignment_ledger" where
  "begin_operation to_json key requested_epoch state snapshot l =
     (case begin_epoch key requested_epoch state snapshot (al_entries l) of
        Inl e \<Rightarrow> (Err e, l)
      | Inr epoch \<Rightarrow>
          let previous = bt_get (al_entries l) key;
              r = \<lparr>ar_schema_version = ASSIGNMENT_SCHEMA_VERSION, ar_key = key, ar_epoch = epoch,
                   ar_state = state, ar_snapshot_id = snapshot\<rparr>
          in case commit to_json key r l of
               (Inl e, l') \<Rightarrow> (Err e, l')
             | (Inr (appended, replacement), l') \<Rightarrow> (Ok (epoch, r, previous, appended, replacement), l'))"

definition ledger_begin ::
  "assignment_to_json \<Rightarrow> sandbox_key \<Rightarrow> assignment_epoch option \<Rightarrow> assignment_ledger \<Rightarrow>
     (operation_outcome, sandbox_error) result \<times> assignment_ledger" where
  "ledger_begin to_json key requested_epoch = begin_operation to_json key requested_epoch AsProvisioning None"

definition begin_restore ::
  "assignment_to_json \<Rightarrow> sandbox_key \<Rightarrow> assignment_epoch option \<Rightarrow> snapshot_id \<Rightarrow> assignment_ledger \<Rightarrow>
     (operation_outcome, sandbox_error) result \<times> assignment_ledger" where
  "begin_restore to_json key requested_epoch snapshot =
     begin_operation to_json key requested_epoch AsRestoring (Some snapshot)"

definition transition_record ::
  "sandbox_key \<Rightarrow> assignment_epoch \<Rightarrow> assignment_state \<Rightarrow> snapshot_id option \<Rightarrow>
     (sandbox_key, assignment_record) btree_map \<Rightarrow> (assignment_record \<times> assignment_record, sandbox_error) result" where
  "transition_record key epoch state snapshot entries =
     and_then (ok_or (Runtime ''sandbox does not have an assignment'') (bt_get entries key)) (\<lambda>previous.
       if ar_epoch previous \<noteq> epoch then Err (Runtime ''assignment epoch changed during operation'')
       else if \<not> valid_transition (ar_state previous) state
       then Err (Runtime (''invalid assignment transition from '' @ assignment_state_debug (ar_state previous) @
              '' to '' @ assignment_state_debug state))
       else if state \<in> {AsFencing, AsTransferable} \<and> snapshot = None
       then Err (Runtime ''snapshot fencing transition requires a snapshot identity'')
       else if ar_state previous = AsFencing \<and> state = AsTransferable \<and> ar_snapshot_id previous \<noteq> snapshot
       then Err (Runtime ''transferable snapshot does not match the fencing record'')
       else Ok (previous\<lparr>ar_state := state,
                  ar_snapshot_id := (if snapshot \<noteq> None then snapshot
                                     else if state \<in> {AsActive, AsStopped} then None
                                     else ar_snapshot_id previous)\<rparr>, previous))"

definition ledger_transition ::
  "assignment_to_json \<Rightarrow> sandbox_key \<Rightarrow> assignment_epoch \<Rightarrow> assignment_state \<Rightarrow> snapshot_id option \<Rightarrow>
     assignment_ledger \<Rightarrow> (operation_outcome, sandbox_error) result \<times> assignment_ledger" where
  "ledger_transition to_json key epoch state snapshot l =
     (case transition_record key epoch state snapshot (al_entries l) of
        Inl e \<Rightarrow> (Err e, l)
      | Inr (r, previous) \<Rightarrow>
          (case commit to_json key r l of
             (Inl e, l') \<Rightarrow> (Err e, l')
           | (Inr (appended, replacement), l') \<Rightarrow> (Ok (epoch, r, Some previous, appended, replacement), l')))"

definition begin_fencing where
  "begin_fencing to_json key epoch snapshot = ledger_transition to_json key epoch AsFencing (Some snapshot)"

definition mark_transferable where
  "mark_transferable to_json key epoch snapshot = ledger_transition to_json key epoch AsTransferable (Some snapshot)"

definition ledger_mark where
  "ledger_mark to_json key epoch state = ledger_transition to_json key epoch state None"

definition require_current ::
  "sandbox_key \<Rightarrow> assignment_epoch option \<Rightarrow> assignment_ledger \<Rightarrow> (assignment_epoch, sandbox_error) result" where
  "require_current key requested_epoch l =
     and_then (ok_or (Runtime ''sandbox does not have an assignment'') (bt_get (al_entries l) key)) (\<lambda>r.
       if (case requested_epoch of None \<Rightarrow> False | Some epoch \<Rightarrow> epoch \<noteq> ar_epoch r)
       then Err (Runtime ''assignment epoch is stale'')
       else if ar_state r \<noteq> AsActive then Err (Runtime ''sandbox assignment is not active'')
       else Ok (ar_epoch r))"

definition rollback :: "assignment_record \<Rightarrow> assignment_record option \<Rightarrow> assignment_ledger \<Rightarrow> assignment_ledger" where
  "rollback expected previous l =
     (if bt_get (al_entries l) (ar_key expected) = Some expected
      then (case previous of
              Some r \<Rightarrow> l\<lparr>al_entries := bt_insert (ar_key expected) r (al_entries l)\<rparr>
            | None \<Rightarrow> l\<lparr>al_entries := bt_remove (ar_key expected) (al_entries l)\<rparr>)
      else l)"

text \<open>After the lock: the answers of the journal to the append and the compaction.\<close>

definition operation_end ::
  "operation_outcome \<Rightarrow> (unit, sandbox_error) result \<Rightarrow> (unit, sandbox_error) result option \<Rightarrow>
     assignment_ledger \<Rightarrow> (assignment_epoch, sandbox_error) result \<times> assignment_ledger" where
  "operation_end out appended replacement l =
     (case out of (epoch, r, previous, _, _) \<Rightarrow>
        (case appended of
           Inl e \<Rightarrow> (Err e, rollback r previous l)
         | Inr _ \<Rightarrow> (case replacement of Some (Inl e) \<Rightarrow> (Err e, l) | _ \<Rightarrow> (Ok epoch, l))))"

definition fail_in_flight :: "assignment_record \<Rightarrow> assignment_record" where
  "fail_in_flight r = (if in_flight (ar_state r) then r\<lparr>ar_state := AsFailed\<rparr> else r)"

definition reconcile_after_recovery ::
  "assignment_to_json \<Rightarrow> assignment_ledger \<Rightarrow> (nat option, sandbox_error) result \<times> assignment_ledger" where
  "reconcile_after_recovery to_json l =
     (if \<not> list_ex (\<lambda>r. in_flight (ar_state r)) (bt_values (al_entries l)) then (Ok None, l)
      else (case replace_entries to_json
                   (l\<lparr>al_entries := bt_map_values fail_in_flight (al_entries l), al_appends_since_compaction := 0\<rparr>) of
              (Inl e, l') \<Rightarrow> (Err e, l')
            | (Inr receipt, l') \<Rightarrow> (Ok (Some receipt), l')))"

definition load_assignment ::
  "assignment_from_json \<Rightarrow> (sandbox_key, assignment_record) btree_map \<Rightarrow> string \<Rightarrow>
     ((sandbox_key, assignment_record) btree_map, sandbox_error) result" where
  "load_assignment from_json entries bytes =
     and_then (map_err (\<lambda>e. Runtime (''decode assignment record: '' @ e)) (from_json bytes)) (\<lambda>r.
       if ar_schema_version r \<noteq> ASSIGNMENT_SCHEMA_VERSION
       then Err (Runtime ''assignment record schema is invalid'')
       else let entries' = bt_insert (ar_key r) r entries
            in if length entries' > MAXIMUM_ASSIGNMENTS
               then Err (Runtime ''assignment journal exceeds its entry bound'') else Ok entries')"

definition ledger_load ::
  "assignment_from_json \<Rightarrow> journal_io faults \<Rightarrow> string \<Rightarrow> string option \<Rightarrow>
     ((sandbox_key, assignment_record) btree_map, sandbox_error) result \<times> string option" where
  "ledger_load from_json f path file =
     (case read_records f path ledger_MAXIMUM_WAL_BYTES ledger_MAXIMUM_RECOVERY_RECORDS file of
        (Inl e, file') \<Rightarrow> (Err e, file')
      | (Inr records, file') \<Rightarrow> (try_fold (load_assignment from_json) [] records, file'))"

end
