(* ===== verification/Assignment_Ledger_Correct.thy ===== *)
theory Assignment_Ledger_Correct
  imports Assignment_Ledger
begin

text \<open>
  Correctness of the assignment ledger: the life of a record as a relation, the ledger's
  invariant, fencing of old epochs as an instance of \<open>epoch_fence\<close>, and recovery from the
  journal. The events are the locked steps of the public operations; a rollback, which only
  follows a failed journal, is treated apart.
\<close>

datatype ledger_event =
    LBegin sandbox_key "assignment_epoch option"
  | LBeginRestore sandbox_key "assignment_epoch option" snapshot_id
  | LFence sandbox_key assignment_epoch snapshot_id
  | LTransfer sandbox_key assignment_epoch snapshot_id
  | LMark sandbox_key assignment_epoch assignment_state
  | LReconcile

fun ledger_apply :: "assignment_to_json \<Rightarrow> assignment_ledger \<Rightarrow> ledger_event \<Rightarrow> assignment_ledger" where
  "ledger_apply to_json l (LBegin k e) = snd (ledger_begin to_json k e l)"
| "ledger_apply to_json l (LBeginRestore k e s) = snd (begin_restore to_json k e s l)"
| "ledger_apply to_json l (LFence k e s) = snd (begin_fencing to_json k e s l)"
| "ledger_apply to_json l (LTransfer k e s) = snd (mark_transferable to_json k e s l)"
| "ledger_apply to_json l (LMark k e st) = snd (ledger_mark to_json k e st l)"
| "ledger_apply to_json l LReconcile = snd (reconcile_after_recovery to_json l)"

subsection \<open>The life of a record\<close>

inductive record_succ :: "sandbox_key \<Rightarrow> assignment_record option \<Rightarrow> assignment_record \<Rightarrow> bool"
  for k :: sandbox_key where
  succ_keep: "record_succ k (Some r) r"
| succ_begin: "(\<And>r. old = Some r \<Longrightarrow> \<not> in_flight (ar_state r) \<and> ar_epoch r < e \<and>
      (ar_state r = AsTransferable \<longrightarrow> st = AsRestoring \<and> ar_snapshot_id r = sn)) \<Longrightarrow>
    st = AsProvisioning \<and> sn = None \<or> st = AsRestoring \<and> sn \<noteq> None \<Longrightarrow>
    record_succ k old \<lparr>ar_schema_version = ASSIGNMENT_SCHEMA_VERSION, ar_key = k, ar_epoch = e,
      ar_state = st, ar_snapshot_id = sn\<rparr>"
| succ_move: "valid_transition (ar_state r) st \<Longrightarrow> (st \<in> {AsFencing, AsTransferable} \<longrightarrow> sn \<noteq> None) \<Longrightarrow>
    (st \<in> {AsActive, AsStopped} \<longrightarrow> sn = None) \<Longrightarrow>
    (ar_state r = AsFencing \<and> st = AsTransferable \<longrightarrow> sn = ar_snapshot_id r) \<Longrightarrow>
    record_succ k (Some r) (r\<lparr>ar_state := st, ar_snapshot_id := sn\<rparr>)"
| succ_fail: "in_flight (ar_state r) \<Longrightarrow> record_succ k (Some r) (r\<lparr>ar_state := AsFailed\<rparr>)"

inductive_cases record_succE: "record_succ k old r"

lemma replace_entries_entries: "replace_entries to_json l = (x, l') \<Longrightarrow> al_entries l' = al_entries l"
  by (auto simp: replace_entries_def split: sum.splits prod.splits)

lemma maybe_compaction_entries: "maybe_enqueue_compaction to_json l = (x, l') \<Longrightarrow> al_entries l' = al_entries l"
  by (auto simp: maybe_enqueue_compaction_def split: sum.splits prod.splits if_splits
      dest!: replace_entries_entries)

lemma commit_entries: "commit to_json key r l = (x, l') \<Longrightarrow> al_entries l' = bt_insert key r (al_entries l)"
  by (auto simp: commit_def Let_def split: sum.splits prod.splits dest!: maybe_compaction_entries)

lemma begin_operation_entries:
  "al_entries (snd (begin_operation to_json key req st sn l)) =
     (case begin_epoch key req st sn (al_entries l) of
        Inl _ \<Rightarrow> al_entries l
      | Inr e \<Rightarrow> bt_insert key \<lparr>ar_schema_version = ASSIGNMENT_SCHEMA_VERSION, ar_key = key, ar_epoch = e,
          ar_state = st, ar_snapshot_id = sn\<rparr> (al_entries l))"
proof (cases "begin_epoch key req st sn (al_entries l)")
  case (Inr e)
  let ?r = "\<lparr>ar_schema_version = ASSIGNMENT_SCHEMA_VERSION, ar_key = key, ar_epoch = e,
          ar_state = st, ar_snapshot_id = sn\<rparr>"
  obtain x l' where c: "commit to_json key ?r l = (x, l')" by (metis surj_pair)
  then have "al_entries l' = bt_insert key ?r (al_entries l)" by (rule commit_entries)
  with c Inr show ?thesis by (cases x) (auto simp: begin_operation_def Let_def split: prod.splits)
qed (simp add: begin_operation_def)

lemma ledger_transition_entries:
  "al_entries (snd (ledger_transition to_json key e st sn l)) =
     (case transition_record key e st sn (al_entries l) of
        Inl _ \<Rightarrow> al_entries l
      | Inr (r, _) \<Rightarrow> bt_insert key r (al_entries l))"
proof (cases "transition_record key e st sn (al_entries l)")
  case (Inr rp)
  obtain r p where rp: "rp = (r, p)" by (cases rp)
  obtain x l' where c: "commit to_json key r l = (x, l')" by (metis surj_pair)
  then have "al_entries l' = bt_insert key r (al_entries l)" by (rule commit_entries)
  with c Inr rp show ?thesis by (cases x) (auto simp: ledger_transition_def split: prod.splits)
qed (simp add: ledger_transition_def)

lemma reconcile_entries:
  "al_entries (snd (reconcile_after_recovery to_json l)) = bt_map_values fail_in_flight (al_entries l)"
proof (cases "list_ex (\<lambda>r. in_flight (ar_state r)) (bt_values (al_entries l))")
  case True
  let ?l = "l\<lparr>al_entries := bt_map_values fail_in_flight (al_entries l), al_appends_since_compaction := 0\<rparr>"
  obtain x l' where c: "replace_entries to_json ?l = (x, l')" by (metis surj_pair)
  then have "al_entries l' = bt_map_values fail_in_flight (al_entries l)"
    by (auto dest: replace_entries_entries)
  with c True show ?thesis by (cases x) (auto simp: reconcile_after_recovery_def)
next
  case False
  then have "\<forall>e \<in> set (al_entries l). fail_in_flight (snd e) = snd e"
    by (auto simp: list_ex_iff bt_values_def fail_in_flight_def)
  then have "bt_map_values fail_in_flight (al_entries l) = al_entries l"
    unfolding bt_map_values_def by (intro map_idI) simp
  with False show ?thesis by (simp add: reconcile_after_recovery_def)
qed

lemma begin_epoch_Ok:
  assumes "begin_epoch key req st sn entries = Ok e"
  shows "(\<forall>r. bt_get entries key = Some r \<longrightarrow> \<not> in_flight (ar_state r) \<and> ar_epoch r < e \<and>
      (ar_state r = AsTransferable \<longrightarrow> st = AsRestoring \<and> ar_snapshot_id r = sn)) \<and>
    (length entries < MAXIMUM_ASSIGNMENTS \<or> bt_contains entries key) \<and>
    (case req of Some e' \<Rightarrow> e = e' | None \<Rightarrow>
       unat e = (case bt_get entries key of None \<Rightarrow> 0 | Some r \<Rightarrow> unat (ar_epoch r)) + 1)"
  using assms
  by (cases "bt_get entries key"; cases req)
    (auto simp: begin_epoch_def Let_def checked_add_eq_Some not_le split: if_splits)

lemma transition_record_Ok:
  assumes "transition_record key e st sn entries = Ok (r, p)"
  shows "bt_get entries key = Some p \<and> ar_epoch p = e \<and> valid_transition (ar_state p) st \<and>
    (st \<in> {AsFencing, AsTransferable} \<longrightarrow> sn \<noteq> None) \<and>
    (ar_state p = AsFencing \<and> st = AsTransferable \<longrightarrow> ar_snapshot_id p = sn) \<and>
    r = p\<lparr>ar_state := st, ar_snapshot_id := (if sn \<noteq> None then sn else if st \<in> {AsActive, AsStopped} then None
       else ar_snapshot_id p)\<rparr>"
  using assms by (auto simp: transition_record_def)

text \<open>The new entry of a key, for each operation; every other key keeps its entry.\<close>

lemma begin_get:
  assumes wf: "bt_wf (al_entries l)" and st: "st = AsProvisioning \<and> sn = None \<or> st = AsRestoring \<and> sn \<noteq> None"
    and r: "bt_get (al_entries (snd (begin_operation to_json key req st sn l))) k = Some r"
  shows "record_succ k (bt_get (al_entries l) k) r"
proof (cases "begin_epoch key req st sn (al_entries l)")
  case (Inl e)
  with r show ?thesis by (simp add: begin_operation_entries succ_keep)
next
  case (Inr e)
  note ok = begin_epoch_Ok [OF Inr]
  show ?thesis
  proof (cases "k = key")
    case True
    with r Inr wf have "r = \<lparr>ar_schema_version = ASSIGNMENT_SCHEMA_VERSION, ar_key = k, ar_epoch = e,
        ar_state = st, ar_snapshot_id = sn\<rparr>" by (simp add: begin_operation_entries bt_simps)
    then show ?thesis using ok True st by (auto intro!: succ_begin)
  next
    case False
    with r Inr wf show ?thesis by (simp add: begin_operation_entries bt_simps succ_keep)
  qed
qed

lemma transition_get:
  assumes wf: "bt_wf (al_entries l)" and sn: "sn \<noteq> None \<longrightarrow> st \<in> {AsFencing, AsTransferable}"
    and r: "bt_get (al_entries (snd (ledger_transition to_json key e st sn l))) k = Some r"
  shows "record_succ k (bt_get (al_entries l) k) r"
proof (cases "transition_record key e st sn (al_entries l)")
  case (Inl e)
  with r show ?thesis by (simp add: ledger_transition_entries succ_keep)
next
  case (Inr rp)
  obtain r' p where rp: "rp = (r', p)" by (cases rp)
  note ok = transition_record_Ok [OF Inr [unfolded rp]]
  show ?thesis
  proof (cases "k = key")
    case True
    with r Inr rp wf have "r = r'" by (simp add: ledger_transition_entries bt_simps)
    moreover have "record_succ k (Some p) (p\<lparr>ar_state := st, ar_snapshot_id := (if sn \<noteq> None then sn
        else if st \<in> {AsActive, AsStopped} then None else ar_snapshot_id p)\<rparr>)"
      by (rule succ_move) (use ok sn in auto)
    ultimately show ?thesis using ok True by simp
  next
    case False
    with r Inr rp wf show ?thesis by (simp add: ledger_transition_entries bt_simps succ_keep)
  qed
qed

lemma ledger_apply_succ:
  assumes wf: "bt_wf (al_entries l)" and r: "bt_get (al_entries (ledger_apply to_json l ev)) k = Some r"
  shows "record_succ k (bt_get (al_entries l) k) r"
proof (cases ev)
  case LReconcile
  with r obtain p where "bt_get (al_entries l) k = Some p" "r = fail_in_flight p"
    by (auto simp: reconcile_entries bt_get_map_values)
  then show ?thesis by (auto simp: fail_in_flight_def intro: succ_keep succ_fail)
next
  case (LBegin key e)
  then show ?thesis using r begin_get [OF wf, of AsProvisioning None] by (simp add: ledger_begin_def)
next
  case (LBeginRestore key e sn)
  then show ?thesis using r begin_get [OF wf, of AsRestoring "Some sn"] by (simp add: begin_restore_def)
next
  case (LFence key e sn)
  then show ?thesis using r transition_get [OF wf, of "Some sn" AsFencing] by (simp add: begin_fencing_def)
next
  case (LTransfer key e sn)
  then show ?thesis using r transition_get [OF wf, of "Some sn" AsTransferable] by (simp add: mark_transferable_def)
next
  case (LMark key e st)
  then show ?thesis using r transition_get [OF wf, of None st] by (simp add: ledger_mark_def)
qed

subsection \<open>Invariant\<close>

definition record_wf :: "sandbox_key \<Rightarrow> assignment_record \<Rightarrow> bool" where
  "record_wf k r \<longleftrightarrow> ar_key r = k \<and> ar_schema_version r = ASSIGNMENT_SCHEMA_VERSION \<and>
     (ar_state r \<in> {AsRestoring, AsFencing, AsTransferable} \<longrightarrow> ar_snapshot_id r \<noteq> None) \<and>
     (ar_state r \<in> {AsProvisioning, AsActive, AsStopped} \<longrightarrow> ar_snapshot_id r = None)"

definition ledger_wf :: "assignment_ledger \<Rightarrow> bool" where
  "ledger_wf l \<longleftrightarrow> bt_wf (al_entries l) \<and> length (al_entries l) \<le> MAXIMUM_ASSIGNMENTS \<and>
     (\<forall>k r. bt_get (al_entries l) k = Some r \<longrightarrow> record_wf k r)"

definition ledger_epoch_of :: "assignment_ledger \<Rightarrow> sandbox_key \<Rightarrow> nat" where
  "ledger_epoch_of l k = (case bt_get (al_entries l) k of None \<Rightarrow> 0 | Some r \<Rightarrow> unat (ar_epoch r))"

lemma record_succ_wf: "record_succ k old r \<Longrightarrow> (\<And>p. old = Some p \<Longrightarrow> record_wf k p) \<Longrightarrow> record_wf k r"
proof (induction rule: record_succ.induct)
  case (succ_move r st sn)
  then show ?case by (cases "ar_state r"; cases st) (auto simp: record_wf_def)
next
  case (succ_fail r)
  then show ?case by (simp add: record_wf_def)
qed (auto simp: record_wf_def)

lemma record_succ_epoch:
  "record_succ k old r \<Longrightarrow> (case old of None \<Rightarrow> 0 | Some p \<Rightarrow> unat (ar_epoch p)) \<le> unat (ar_epoch r)"
  by (induction rule: record_succ.induct) (auto simp: word_less_nat_alt split: option.split)

text \<open>Each operation sets the entry of at most one key, or maps all entries.\<close>

lemma ledger_apply_entries:
  assumes "ledger_wf l"
  shows "bt_wf (al_entries (ledger_apply to_json l ev)) \<and>
    length (al_entries (ledger_apply to_json l ev)) \<le> MAXIMUM_ASSIGNMENTS \<and>
    dom (bt_get (al_entries l)) \<subseteq> dom (bt_get (al_entries (ledger_apply to_json l ev)))"
proof -
  let ?E = "al_entries l"
  have wf: "bt_wf ?E" and len: "length ?E \<le> MAXIMUM_ASSIGNMENTS" using assms by (auto simp: ledger_wf_def)
  have ins: "bt_wf (bt_insert k r ?E) \<and> length (bt_insert k r ?E) \<le> MAXIMUM_ASSIGNMENTS \<and>
      dom (bt_get ?E) \<subseteq> dom (bt_get (bt_insert k r ?E))"
    if "length ?E < MAXIMUM_ASSIGNMENTS \<or> bt_get ?E k \<noteq> None" for k r
    using that wf len by (auto simp: bt_simps length_bt_insert)
  have beg: "bt_wf (al_entries (snd (begin_operation to_json k req st sn l))) \<and>
      length (al_entries (snd (begin_operation to_json k req st sn l))) \<le> MAXIMUM_ASSIGNMENTS \<and>
      dom (bt_get ?E) \<subseteq> dom (bt_get (al_entries (snd (begin_operation to_json k req st sn l))))" for k req st sn
  proof (cases "begin_epoch k req st sn ?E")
    case (Inr e)
    from begin_epoch_Ok [OF Inr] have "length ?E < MAXIMUM_ASSIGNMENTS \<or> bt_get ?E k \<noteq> None"
      by (simp add: bt_contains_def)
    from ins [OF this] Inr show ?thesis by (simp add: begin_operation_entries)
  qed (use wf len in \<open>simp add: begin_operation_entries\<close>)
  have tra: "bt_wf (al_entries (snd (ledger_transition to_json k e st sn l))) \<and>
      length (al_entries (snd (ledger_transition to_json k e st sn l))) \<le> MAXIMUM_ASSIGNMENTS \<and>
      dom (bt_get ?E) \<subseteq> dom (bt_get (al_entries (snd (ledger_transition to_json k e st sn l))))" for k e st sn
  proof (cases "transition_record k e st sn ?E")
    case (Inr rp)
    obtain r p where rp: "rp = (r, p)" by (cases rp)
    from transition_record_Ok [OF Inr [unfolded rp]] have "bt_get ?E k \<noteq> None" by simp
    with ins [of k r] Inr rp show ?thesis by (simp add: ledger_transition_entries)
  qed (use wf len in \<open>simp add: ledger_transition_entries\<close>)
  have "dom (bt_get (bt_map_values f ?E)) = dom (bt_get ?E)" for f :: "assignment_record \<Rightarrow> assignment_record"
    by (auto simp: bt_get_map_values dom_def)
  then have rec: "bt_wf (al_entries (snd (reconcile_after_recovery to_json l))) \<and>
      length (al_entries (snd (reconcile_after_recovery to_json l))) \<le> MAXIMUM_ASSIGNMENTS \<and>
      dom (bt_get ?E) \<subseteq> dom (bt_get (al_entries (snd (reconcile_after_recovery to_json l))))"
    using wf len by (simp add: reconcile_entries) (simp add: bt_map_values_def)
  show ?thesis
    using beg tra rec
    by (cases ev) (simp_all add: ledger_begin_def begin_restore_def begin_fencing_def mark_transferable_def ledger_mark_def)
qed

lemma ledger_apply_wf: "ledger_wf l \<Longrightarrow> ledger_wf (ledger_apply to_json l ev)"
  using ledger_apply_entries [of l to_json ev] record_succ_wf [OF ledger_apply_succ [of l to_json ev]]
  unfolding ledger_wf_def by blast

lemma ledger_apply_epoch:
  assumes "ledger_wf l"
  shows "ledger_epoch_of l k \<le> ledger_epoch_of (ledger_apply to_json l ev) k"
proof (cases "bt_get (al_entries l) k")
  case (Some p)
  then obtain r where r: "bt_get (al_entries (ledger_apply to_json l ev)) k = Some r"
    using ledger_apply_entries [OF assms, of to_json ev] by blast
  have "bt_wf (al_entries l)" using assms by (simp add: ledger_wf_def)
  from record_succ_epoch [OF ledger_apply_succ [OF this r]] Some r show ?thesis
    by (simp add: ledger_epoch_of_def)
qed (simp add: ledger_epoch_of_def)

lemma empty_ledger_wf: "al_entries l = [] \<Longrightarrow> ledger_wf l"
  by (simp add: ledger_wf_def bt.get_empty)

interpretation al: epoch_fence "\<lambda>l. al_entries l = []" "det (ledger_apply to_json)" ledger_wf ledger_epoch_of
  for to_json
  by unfold_locales
    (auto simp: det_def ledger_apply_wf ledger_apply_epoch empty_ledger_wf)

lemma stale_epoch:
  assumes "unat e < ledger_epoch_of l k"
  shows "\<exists>m. require_current k (Some e) l = Err m" "\<exists>m. ledger_transition to_json k e st sn l = (Err m, l)"
    "\<exists>m. begin_operation to_json k (Some e) st sn l = (Err m, l)"
proof -
  obtain r where r: "bt_get (al_entries l) k = Some r" "e < ar_epoch r"
    using assms by (auto simp: ledger_epoch_of_def word_less_nat_alt split: option.splits)
  then show "\<exists>m. require_current k (Some e) l = Err m" by (auto simp: require_current_def)
  show "\<exists>m. ledger_transition to_json k e st sn l = (Err m, l)"
    using r by (auto simp: ledger_transition_def transition_record_def)
  have "\<not> ar_epoch r < e" using r(2) by simp
  then have "begin_epoch k (Some e) st sn (al_entries l) \<noteq> Ok x" for x
    using begin_epoch_Ok [of k "Some e" st sn "al_entries l" x] r(1) by auto
  then show "\<exists>m. begin_operation to_json k (Some e) st sn l = (Err m, l)"
    by (cases "begin_epoch k (Some e) st sn (al_entries l)") (auto simp: begin_operation_def)
qed

subsection \<open>Recovery\<close>

abbreviation ledger_line :: "assignment_to_json \<Rightarrow> assignment_record \<Rightarrow> string" where
  "ledger_line to_json \<equiv> log_line to_json (\<lambda>r. r)"

definition enter :: "(sandbox_key, assignment_record) btree_map \<Rightarrow> assignment_record \<Rightarrow> (sandbox_key, assignment_record) btree_map" where
  "enter E r = bt_insert (ar_key r) r E"

lemma enter_wf [simp]: "bt_wf E \<Longrightarrow> bt_wf (enter E r)"
  by (simp add: enter_def bt_simps)

lemma foldl_enter_wf: "bt_wf E \<Longrightarrow> bt_wf (foldl enter E rs)"
  by (induction rs arbitrary: E) simp_all

lemma length_foldl_enter: "bt_wf E \<Longrightarrow> length E \<le> length (foldl enter E rs)"
proof (induction rs arbitrary: E)
  case (Cons r rs)
  have "length E \<le> length (enter E r)" using Cons.prems by (simp add: enter_def length_bt_insert)
  also have "\<dots> \<le> length (foldl enter (enter E r) rs)" using Cons by simp
  finally show ?case by simp
qed simp

lemma bt_insert_last: "\<forall>k' \<in> fst ` set m. k' < k \<Longrightarrow> bt_insert k v m = m @ [(k, v)]"
  by (induction k v m rule: bt_insert.induct) auto

text \<open>Replaying the records of a map in key order rebuilds the map.\<close>

lemma foldl_enter_values:
  assumes "bt_wf (A @ E)" and "\<forall>e \<in> set E. ar_key (snd e) = fst e"
  shows "foldl enter A (bt_values E) = A @ E"
  using assms
proof (induction E arbitrary: A)
  case (Cons e E)
  obtain k r where e: "e = (k, r)" by (cases e)
  have "\<forall>k' \<in> fst ` set A. k' < k" using Cons.prems(1) by (auto simp: e bt_wf_def sorted_wrt_append)
  then have "enter A r = A @ [(k, r)]"
    using Cons.prems(2) bt_insert_last by (auto simp: enter_def e)
  with Cons.IH [of "A @ [e]"] Cons.prems show ?case by (simp add: bt_values_def e)
qed (simp add: bt_values_def)

lemma load_assignments:
  assumes "log_codec to_json from_json (\<lambda>r. r) L S" and "set rs \<subseteq> S" and "bt_wf E"
    and "\<forall>r \<in> set rs. ar_schema_version r = ASSIGNMENT_SCHEMA_VERSION"
    and "length (foldl enter E rs) \<le> MAXIMUM_ASSIGNMENTS"
  shows "try_fold (load_assignment from_json) E (map (ledger_line to_json) rs) = Ok (foldl enter E rs)"
  using assms(2-)
proof (induction rs arbitrary: E)
  case (Cons r rs)
  have "from_json (ledger_line to_json r) = Ok r" using codec_line(5) [OF assms(1), of r] Cons.prems(1) by simp
  moreover have "length (enter E r) \<le> MAXIMUM_ASSIGNMENTS"
    using length_foldl_enter [of "enter E r" rs] Cons.prems(2,4) by simp
  ultimately have "load_assignment from_json E (ledger_line to_json r) = Ok (enter E r)"
    using Cons.prems(3) by (simp add: load_assignment_def enter_def Let_def)
  with Cons.IH [of "enter E r"] Cons.prems show ?case by simp
qed simp

text \<open>
  The state of the ledger together with the commands it sent: the journal is open, its
  records replay to the entries, and there are few enough of them.
\<close>

definition log_inv ::
  "assignment_to_json \<Rightarrow> assignment_record set \<Rightarrow> assignment_record list \<Rightarrow> assignment_ledger \<Rightarrow>
     assignment_record log_command list \<Rightarrow> bool" where
  "log_inv to_json S R0 l cmds \<longleftrightarrow> ledger_wf l \<and> sender_open (al_journal l) \<and> writer_alive (al_journal l) \<and>
     sent_commands (al_journal l) = map (concrete (ledger_line to_json)) cmds \<and>
     (\<forall>a \<in> set cmds. command_entries a \<subseteq> S) \<and>
     al_appends_since_compaction l < ledger_COMPACTION_INTERVAL \<and>
     length (foldl log_spec R0 cmds) \<le> MAXIMUM_ASSIGNMENTS + al_appends_since_compaction l \<and>
     (\<forall>r \<in> set (foldl log_spec R0 cmds). ar_schema_version r = ASSIGNMENT_SCHEMA_VERSION) \<and>
     foldl enter [] (foldl log_spec R0 cmds) = al_entries l"

text \<open>What a journal prefix must look like to stand for the entries \<open>E\<close>.\<close>

definition image_of :: "assignment_record list \<Rightarrow> (sandbox_key, assignment_record) btree_map \<Rightarrow> bool" where
  "image_of R E \<longleftrightarrow> foldl enter [] R = E \<and> length R \<le> ledger_MAXIMUM_RECOVERY_RECORDS \<and>
     (\<forall>r \<in> set R. ar_schema_version r = ASSIGNMENT_SCHEMA_VERSION)"

lemma log_inv_image: "log_inv to_json S R0 l cmds \<Longrightarrow> image_of (foldl log_spec R0 cmds) (al_entries l)"
  by (auto simp: log_inv_def image_of_def ledger_MAXIMUM_RECOVERY_RECORDS_def)

lemma wf_values:
  assumes "ledger_wf l"
  shows "foldl enter [] (bt_values (al_entries l)) = al_entries l"
    "\<forall>r \<in> set (bt_values (al_entries l)). ar_schema_version r = ASSIGNMENT_SCHEMA_VERSION"
proof -
  have wf: "bt_wf (al_entries l)" using assms by (simp add: ledger_wf_def)
  have "\<forall>e \<in> set (al_entries l). record_wf (fst e) (snd e)"
    using assms bt_get_in_set [OF wf] by (auto simp: ledger_wf_def)
  then show "foldl enter [] (bt_values (al_entries l)) = al_entries l"
    "\<forall>r \<in> set (bt_values (al_entries l)). ar_schema_version r = ASSIGNMENT_SCHEMA_VERSION"
    using foldl_enter_values [of "[]" "al_entries l"] wf by (auto simp: record_wf_def bt_values_def)
qed

lemma encode_entries_Ok:
  assumes "log_codec to_json from_json (\<lambda>r. r) L S" and "set (bt_values E) \<subseteq> S"
  shows "assignment_encode_entries to_json E = Ok (concat (map (ledger_line to_json) (bt_values E)))"
proof -
  have "assignment_encode_record to_json r = Ok (ledger_line to_json r)" if "r \<in> S" for r
    using codec_line(1,2) [OF assms(1) that] by (simp add: assignment_encode_record_def)
  then show ?thesis
    using encode_lines [of "bt_values E" "assignment_encode_record to_json" "ledger_line to_json" "[]"] assms(2)
    by (auto simp: assignment_encode_entries_def)
qed

lemma replace_entries_Ok:
  assumes codec: "log_codec to_json from_json (\<lambda>r. r) 610 S" and wf: "ledger_wf l"
    and S: "set (bt_values (al_entries l)) \<subseteq> S" and up: "sender_open (al_journal l)" "writer_alive (al_journal l)"
  shows "replace_entries to_json l = (Ok (next_completion (al_journal l)), l\<lparr>al_journal := (al_journal l)\<lparr>
    sent_commands := sent_commands (al_journal l) @
      [concrete (ledger_line to_json) (SetEntries (bt_values (al_entries l)) (next_completion (al_journal l)))],
    next_completion := Suc (next_completion (al_journal l))\<rparr>\<rparr>)"
proof -
  let ?ls = "map (ledger_line to_json) (bt_values (al_entries l))"
  have "length (bt_values (al_entries l)) \<le> MAXIMUM_ASSIGNMENTS" using wf by (simp add: ledger_wf_def bt_values_def)
  then have "length (concat ?ls) \<le> MAXIMUM_REPLACEMENT_BYTES"
    using codec_bytes [OF codec S] by (simp add: MAXIMUM_ASSIGNMENTS_def MAXIMUM_REPLACEMENT_BYTES_def)
  from enqueue_replace_records [OF lines_ok [OF codec S] this] encode_entries_Ok [OF codec S] up show ?thesis
    by (simp add: replace_entries_def journal_enqueue_def)
qed

lemma ledger_wf_entries: "al_entries l = al_entries l' \<Longrightarrow> ledger_wf l \<longleftrightarrow> ledger_wf l'"
  by (simp add: ledger_wf_def)

text \<open>A step adds commands all of whose nonempty prefixes stand for the new entries.\<close>

definition logs ::
  "assignment_to_json \<Rightarrow> assignment_record set \<Rightarrow> assignment_record list \<Rightarrow> assignment_record log_command list \<Rightarrow>
     assignment_ledger \<Rightarrow> bool" where
  "logs to_json S R0 cmds l' \<longleftrightarrow> (\<exists>new. log_inv to_json S R0 l' (cmds @ new) \<and>
     (\<forall>i. 0 < i \<longrightarrow> i \<le> length new \<longrightarrow> image_of (foldl log_spec R0 (cmds @ take i new)) (al_entries l')))"

lemma logs_same: "log_inv to_json S R0 l cmds \<Longrightarrow> logs to_json S R0 cmds l"
  unfolding logs_def by (rule exI [of _ "[]"]) simp

lemma image_of_values:
  assumes "ledger_wf l"
  shows "image_of (bt_values (al_entries l)) (al_entries l)"
  using wf_values [OF assms] assms
  by (simp add: image_of_def ledger_wf_def bt_values_def ledger_MAXIMUM_RECOVERY_RECORDS_def)

lemma logs_commit:
  assumes codec: "log_codec to_json from_json (\<lambda>r. r) 610 S" and inv: "log_inv to_json S R0 l cmds"
    and l': "l' = snd (commit to_json k r l)" and wf': "ledger_wf l'" and S: "set (bt_values (al_entries l')) \<subseteq> S"
  shows "logs to_json S R0 cmds l'"
proof -
  let ?E = "bt_insert k r (al_entries l)" and ?j = "al_journal l"
  let ?n = "next_completion ?j" and ?a = "al_appends_since_compaction l" and ?R = "foldl log_spec R0 cmds"
  have E: "al_entries l' = ?E" using l' by (metis commit_entries prod.collapse)
  have wf: "bt_wf (al_entries l)" using inv by (simp add: log_inv_def ledger_wf_def)
  then have get: "bt_get (al_entries l') k = Some r" by (simp add: E bt_simps)
  then have rk: "ar_key r = k" "ar_schema_version r = ASSIGNMENT_SCHEMA_VERSION"
    using wf' by (auto simp: ledger_wf_def record_wf_def)
  have "bt_wf (al_entries l')" using wf' by (simp add: ledger_wf_def)
  with get have "r \<in> set (bt_values (al_entries l'))"
    using bt_get_in_set by (force simp: bt_values_def)
  with S have r: "r \<in> S" by blast
  note p = inv [unfolded log_inv_def]
  have enc: "assignment_encode_record to_json r = Ok (ledger_line to_json r)"
    using codec_line(1,2) [OF codec r] by (simp add: assignment_encode_record_def)
  let ?j1 = "?j\<lparr>sent_commands := sent_commands ?j @ [Append (ledger_line to_json r) ?n], next_completion := Suc ?n\<rparr>"
  have app: "enqueue_append (ledger_line to_json r) ?j = (Ok ?n, ?j1)"
    using enqueue_append_record [OF codec_line(3) [OF codec r]] p by (simp add: journal_enqueue_def)
  let ?l1 = "l\<lparr>al_entries := ?E, al_journal := ?j1, al_appends_since_compaction := Suc ?a\<rparr>"
  let ?c1 = "cmds @ [AddEntry r ?n]"
  have R1: "foldl enter [] (foldl log_spec R0 ?c1) = ?E" using p rk by (simp add: enter_def)
  have img1: "image_of (foldl log_spec R0 ?c1) ?E"
    using R1 p rk by (auto simp: image_of_def ledger_MAXIMUM_RECOVERY_RECORDS_def)
  have wf1: "ledger_wf (l\<lparr>al_entries := ?E, al_journal := j, al_appends_since_compaction := n\<rparr>)" for j n
    using wf' ledger_wf_entries [of l' "l\<lparr>al_entries := ?E, al_journal := j, al_appends_since_compaction := n\<rparr>"] E by simp
  show ?thesis
  proof (cases "Suc ?a < ledger_COMPACTION_INTERVAL")
    case True
    then have "l' = ?l1" using l' enc app by (simp add: commit_def Let_def maybe_enqueue_compaction_def)
    moreover have "log_inv to_json S R0 ?l1 ?c1"
      unfolding log_inv_def using p rk r R1 True wf1 by auto
    ultimately show ?thesis
      unfolding logs_def using img1 E by (intro exI [of _ "[AddEntry r ?n]"]) (auto simp: le_Suc_eq)
  next
    case False
    let ?l2 = "l\<lparr>al_entries := ?E, al_journal := ?j1, al_appends_since_compaction := 0\<rparr>"
    let ?V = "bt_values ?E"
    let ?l3 = "?l2\<lparr>al_journal := ?j1\<lparr>sent_commands := sent_commands ?j1 @ [concrete (ledger_line to_json) (SetEntries ?V (Suc ?n))],
      next_completion := Suc (Suc ?n)\<rparr>\<rparr>"
    let ?new = "[AddEntry r ?n, SetEntries ?V (Suc ?n)]"
    have V: "set ?V \<subseteq> S" using S by (simp add: E)
    have "replace_entries to_json ?l2 = (Ok (Suc ?n), ?l3)"
      using replace_entries_Ok [OF codec wf1 [where j = "?j1" and n = 0]] V p by simp
    then have l3: "l' = ?l3" using l' enc app False by (simp add: commit_def Let_def maybe_enqueue_compaction_def)
    have img2: "image_of ?V ?E" using image_of_values [OF wf'] by (simp add: E)
    have "length ?V \<le> MAXIMUM_ASSIGNMENTS" using wf' by (simp add: ledger_wf_def E bt_values_def)
    moreover have "ledger_wf ?l3" using wf' ledger_wf_entries [of l' ?l3] E by simp
    ultimately have "log_inv to_json S R0 ?l3 (cmds @ ?new)"
      unfolding log_inv_def using p r V img2 by (auto simp: image_of_def ledger_COMPACTION_INTERVAL_def)
    then show ?thesis
      unfolding logs_def l3 using img1 img2 by (intro exI [of _ ?new]) (auto simp: le_Suc_eq)
  qed
qed

lemma logs_apply:
  assumes codec: "log_codec to_json from_json (\<lambda>r. r) 610 S" and inv: "log_inv to_json S R0 l cmds"
    and S: "set (bt_values (al_entries (ledger_apply to_json l ev))) \<subseteq> S"
  shows "logs to_json S R0 cmds (ledger_apply to_json l ev)"
proof -
  have wf: "ledger_wf l" using inv by (simp add: log_inv_def)
  note wf' = ledger_apply_wf [OF wf, of to_json ev]
  have beg: "logs to_json S R0 cmds l'" if "l' = snd (begin_operation to_json k req st sn l)"
    "ledger_wf l'" "set (bt_values (al_entries l')) \<subseteq> S" for k req st sn l'
  proof (cases "begin_epoch k req st sn (al_entries l)")
    case (Inl e)
    with that(1) inv show ?thesis by (simp add: begin_operation_def logs_same)
  next
    case (Inr e)
    with that(1) have "l' = snd (commit to_json k \<lparr>ar_schema_version = ASSIGNMENT_SCHEMA_VERSION, ar_key = k, ar_epoch = e,
        ar_state = st, ar_snapshot_id = sn\<rparr> l)" by (auto simp: begin_operation_def Let_def split: prod.splits sum.splits)
    from logs_commit [OF codec inv this that(2,3)] show ?thesis .
  qed
  have tra: "logs to_json S R0 cmds l'" if "l' = snd (ledger_transition to_json k e st sn l)"
    "ledger_wf l'" "set (bt_values (al_entries l')) \<subseteq> S" for k e st sn l'
  proof (cases "transition_record k e st sn (al_entries l)")
    case (Inl e)
    with that(1) inv show ?thesis by (simp add: ledger_transition_def logs_same)
  next
    case (Inr rp)
    with that(1) have "l' = snd (commit to_json k (fst rp) l)"
      by (auto simp: ledger_transition_def split: prod.splits sum.splits)
    from logs_commit [OF codec inv this that(2,3)] show ?thesis .
  qed
  show ?thesis
  proof (cases ev)
    case LReconcile
    show ?thesis
    proof (cases "list_ex (\<lambda>r. in_flight (ar_state r)) (bt_values (al_entries l))")
      case False
      with inv LReconcile show ?thesis by (simp add: reconcile_after_recovery_def logs_same)
    next
      case True
      let ?l1 = "l\<lparr>al_entries := bt_map_values fail_in_flight (al_entries l), al_appends_since_compaction := 0\<rparr>"
      let ?E = "al_entries ?l1"
      have E: "al_entries (ledger_apply to_json l ev) = ?E" by (simp add: LReconcile reconcile_entries)
      have wf1: "ledger_wf ?l1" using wf' ledger_wf_entries [OF E] by blast
      have V: "set (bt_values ?E) \<subseteq> S" using S E by simp
      let ?new = "[SetEntries (bt_values ?E) (next_completion (al_journal l))]"
      note p = inv [unfolded log_inv_def]
      have rep: "ledger_apply to_json l ev = snd (replace_entries to_json ?l1)"
        using True LReconcile by (auto simp: reconcile_after_recovery_def split: prod.splits sum.splits)
      have "log_inv to_json S R0 (ledger_apply to_json l ev) (cmds @ ?new)"
        unfolding log_inv_def
        using p V wf' rep replace_entries_Ok [OF codec wf1 V] image_of_values [OF wf1] wf1
        by (auto simp: image_of_def ledger_COMPACTION_INTERVAL_def ledger_wf_def bt_values_def bt_map_values_def)
      then show ?thesis
        unfolding logs_def E using image_of_values [OF wf1] by (intro exI [of _ ?new]) (auto simp: le_Suc_eq)
    qed
  qed (use beg tra wf' S in \<open>simp_all add: ledger_begin_def begin_restore_def begin_fencing_def
        mark_transferable_def ledger_mark_def\<close>)
qed

abbreviation ledger_after :: "assignment_to_json \<Rightarrow> assignment_ledger \<Rightarrow> ledger_event list \<Rightarrow> assignment_ledger" where
  "ledger_after to_json \<equiv> foldl (ledger_apply to_json)"

lemma ledger_history:
  assumes codec: "log_codec to_json from_json (\<lambda>r. r) 610 S" and start: "log_inv to_json S R0 l0 []"
    and "\<forall>n \<le> length evs. set (bt_values (al_entries (ledger_after to_json l0 (take n evs)))) \<subseteq> S"
  shows "\<exists>cmds. log_inv to_json S R0 (ledger_after to_json l0 evs) cmds \<and>
    (\<forall>m \<le> length cmds. \<exists>n \<le> length evs. image_of (foldl log_spec R0 (take m cmds)) (al_entries (ledger_after to_json l0 (take n evs))) \<and>
       m \<le> length (sent_commands (al_journal (ledger_after to_json l0 (take n evs)))))"
  using assms(3)
proof (induction evs rule: rev_induct)
  case Nil
  from log_inv_image [OF start] start show ?case by (intro exI [of _ "[]"]) simp
next
  case (snoc ev evs)
  have "\<forall>n \<le> length evs. set (bt_values (al_entries (ledger_after to_json l0 (take n evs)))) \<subseteq> S"
    using snoc.prems by (metis butlast_snoc le_SucI length_append_singleton take_butlast order_le_less_trans lessI)
  from snoc.IH [OF this] obtain cmds where inv: "log_inv to_json S R0 (ledger_after to_json l0 evs) cmds"
    and pre: "\<forall>m \<le> length cmds. \<exists>n \<le> length evs. image_of (foldl log_spec R0 (take m cmds)) (al_entries (ledger_after to_json l0 (take n evs))) \<and>
       m \<le> length (sent_commands (al_journal (ledger_after to_json l0 (take n evs))))" by blast
  let ?l' = "ledger_after to_json l0 (evs @ [ev])"
  have S: "set (bt_values (al_entries (ledger_apply to_json (ledger_after to_json l0 evs) ev))) \<subseteq> S"
    using snoc.prems [rule_format, of "length (evs @ [ev])"] by simp
  from logs_apply [OF codec inv S] obtain new where new: "log_inv to_json S R0 ?l' (cmds @ new)"
    "\<forall>i. 0 < i \<longrightarrow> i \<le> length new \<longrightarrow> image_of (foldl log_spec R0 (cmds @ take i new)) (al_entries ?l')"
    by (auto simp: logs_def)
  have sent: "length (sent_commands (al_journal ?l')) = length (cmds @ new)"
    using new(1) by (simp add: log_inv_def)
  have "\<exists>n \<le> length (evs @ [ev]). image_of (foldl log_spec R0 (take m (cmds @ new))) (al_entries (ledger_after to_json l0 (take n (evs @ [ev])))) \<and>
       m \<le> length (sent_commands (al_journal (ledger_after to_json l0 (take n (evs @ [ev])))))"
    if m: "m \<le> length (cmds @ new)" for m
  proof (cases "m \<le> length cmds")
    case True
    then obtain n where "n \<le> length evs" "image_of (foldl log_spec R0 (take m cmds)) (al_entries (ledger_after to_json l0 (take n evs)))"
       "m \<le> length (sent_commands (al_journal (ledger_after to_json l0 (take n evs))))" using pre by blast
    with True show ?thesis by (intro exI [of _ n]) simp
  next
    case False
    then have "image_of (foldl log_spec R0 (cmds @ take (m - length cmds) new)) (al_entries ?l')"
      using new(2) m by simp
    moreover have "take m (cmds @ new) = cmds @ take (m - length cmds) new" using False by simp
    ultimately show ?thesis using sent m by (intro exI [of _ "length (evs @ [ev])"]) simp
  qed
  with new(1) show ?case by blast
qed

text \<open>A ledger just opened on the entries \<open>E0\<close>, which \<open>open\<close> has written to the file.\<close>

definition opened_ledger :: "(sandbox_key, assignment_record) btree_map \<Rightarrow> assignment_ledger" where
  "opened_ledger E0 = \<lparr>al_journal = \<lparr>sender_open = True, writer_alive = True, sent_commands = [], next_completion = 0\<rparr>,
     al_entries = E0, al_appends_since_compaction = 0\<rparr>"

lemma opened_ledger_inv: "ledger_wf (opened_ledger E0) \<Longrightarrow> log_inv to_json S (bt_values E0) (opened_ledger E0) []"
  using wf_values [of "opened_ledger E0"]
  by (auto simp: log_inv_def opened_ledger_def ledger_COMPACTION_INTERVAL_def ledger_wf_def bt_values_def)

subsection \<open>Properties\<close>


text \<open>
  Assignments exclude each other. A new assignment is entered exactly when the sandbox
  has none, or has one that is over and of a strictly older epoch; the entry is then the
  requested one, under the next epoch if none was requested. A transferable assignment
  accepts only the restore of the snapshot it was fenced for. No other sandbox is touched.
\<close>
theorem begin_is_exclusive:
  assumes "ledger_wf l" and "begin_operation to_json k req st sn l = (Ok (e, r, prev, a, c), l')"
  shows "prev = bt_get (al_entries l) k \<and> bt_get (al_entries l') k = Some r \<and>
    r = \<lparr>ar_schema_version = ASSIGNMENT_SCHEMA_VERSION, ar_key = k, ar_epoch = e, ar_state = st, ar_snapshot_id = sn\<rparr> \<and>
    (\<forall>p. prev = Some p \<longrightarrow> ar_state p \<in> {AsTransferable, AsStopped, AsFailed} \<and> ar_epoch p < e \<and>
       (ar_state p = AsTransferable \<longrightarrow> st = AsRestoring \<and> ar_snapshot_id p = sn)) \<and>
    (case req of Some e' \<Rightarrow> e = e' | None \<Rightarrow> unat e = ledger_epoch_of l k + 1) \<and>
    (\<forall>k'. k' \<noteq> k \<longrightarrow> bt_get (al_entries l') k' = bt_get (al_entries l) k')"
proof -
  have wf: "bt_wf (al_entries l)" using assms(1) by (simp add: ledger_wf_def)
  obtain e' where ok: "begin_epoch k req st sn (al_entries l) = Ok e'"
    using assms(2) by (cases "begin_epoch k req st sn (al_entries l)") (auto simp: begin_operation_def)
  let ?r = "\<lparr>ar_schema_version = ASSIGNMENT_SCHEMA_VERSION, ar_key = k, ar_epoch = e', ar_state = st, ar_snapshot_id = sn\<rparr>"
  have out: "e = e'" "r = ?r" "prev = bt_get (al_entries l) k"
    using assms(2) ok by (auto simp: begin_operation_def Let_def split: prod.splits sum.splits)
  have ent: "al_entries l' = bt_insert k ?r (al_entries l)"
    using begin_operation_entries [of to_json k req st sn l] assms(2) ok by simp
  have "ar_state p \<in> {AsTransferable, AsStopped, AsFailed}" if "\<not> in_flight (ar_state p)" for p :: assignment_record
    using that by (cases "ar_state p") (auto simp: in_flight_def)
  with begin_epoch_Ok [OF ok] out ent wf show ?thesis
    by (auto simp: bt_simps ledger_epoch_of_def split: option.splits)
qed


text \<open>
  C21: the ledger is crash consistent. Open it, run any operations, let the journal writer
  process their records with any batching, failures and torn writes, and stop it anywhere.
  Loading the file then yields exactly the entries the ledger had after some prefix of the
  operations, and every acknowledged record belongs to that prefix.
\<close>
theorem ledger_is_crash_consistent:
  assumes codec: "log_codec to_json from_json (\<lambda>r. r) 610 S" and wf: "ledger_wf (opened_ledger E0)"
    and S: "\<forall>n \<le> length evs. set (bt_values (al_entries (ledger_after to_json (opened_ledger E0) (take n evs)))) \<subseteq> S"
    and w: "writer_run path envs (sent_commands (al_journal (ledger_after to_json (opened_ledger E0) evs)),
      writer_start (concat (map (ledger_line to_json) (bt_values E0)))) = (queue, w)"
  shows "\<exists>n \<le> length evs.
    fst (ledger_load from_json no_faults path (Some (disk w))) =
      Ok (al_entries (ledger_after to_json (opened_ledger E0) (take n evs))) \<and>
    (\<forall>i < length (completed w). snd (completed w ! i) = Ok () \<longrightarrow>
       i < length (sent_commands (al_journal (ledger_after to_json (opened_ledger E0) (take n evs)))))"
proof -
  let ?l = "ledger_after to_json (opened_ledger E0)"
  from ledger_history [OF codec opened_ledger_inv [OF wf] S] obtain cmds where
    inv: "log_inv to_json S (bt_values E0) (?l evs) cmds" and
    pre: "\<forall>m \<le> length cmds. \<exists>n \<le> length evs. image_of (foldl log_spec (bt_values E0) (take m cmds)) (al_entries (?l (take n evs))) \<and>
      m \<le> length (sent_commands (al_journal (?l (take n evs))))" by blast
  have cmds: "sent_commands (al_journal (?l evs)) = map (concrete (ledger_line to_json)) cmds"
    "\<forall>a \<in> set cmds. command_entries a \<subseteq> S" using inv by (auto simp: log_inv_def)
  have E0: "set (bt_values E0) \<subseteq> S" using S [rule_format, of 0] by (simp add: opened_ledger_def)
  obtain k where R: "set (foldl log_spec (bt_values E0) (take k cmds)) \<subseteq> S" and len: "length (completed w) \<le> length cmds"
    and k: "\<forall>i < length (completed w). snd (completed w ! i) = Ok () \<longrightarrow> i < k"
    and read: "\<forall>bytes n. 610 * length (foldl log_spec (bt_values E0) (take k cmds)) \<le> unat bytes \<longrightarrow>
      length (foldl log_spec (bt_values E0) (take k cmds)) \<le> n \<longrightarrow>
      read_records no_faults path bytes n (Some (disk w)) =
        (Ok (map (ledger_line to_json) (foldl log_spec (bt_values E0) (take k cmds))),
         Some (concat (map (ledger_line to_json) (foldl log_spec (bt_values E0) (take k cmds)))))"
    by (rule log_recovers [OF codec E0 cmds(2) w [unfolded cmds(1)]])
  let ?m = "min k (length cmds)"
  have tk: "take k cmds = take ?m cmds" by (simp add: min_def)
  from pre [rule_format, of ?m] obtain n where n: "n \<le> length evs"
    "image_of (foldl log_spec (bt_values E0) (take ?m cmds)) (al_entries (?l (take n evs)))"
    "?m \<le> length (sent_commands (al_journal (?l (take n evs))))" by auto
  let ?R = "foldl log_spec (bt_values E0) (take k cmds)"
  have img: "foldl enter [] ?R = al_entries (?l (take n evs))" "length ?R \<le> ledger_MAXIMUM_RECOVERY_RECORDS"
    "\<forall>r \<in> set ?R. ar_schema_version r = ASSIGNMENT_SCHEMA_VERSION"
    using n(2) unfolding tk image_of_def by blast+
  have "610 * length ?R \<le> unat ledger_MAXIMUM_WAL_BYTES"
    using img(2) by (simp add: ledger_MAXIMUM_WAL_BYTES_def ledger_MAXIMUM_RECOVERY_RECORDS_def
        MAXIMUM_ASSIGNMENTS_def ledger_COMPACTION_INTERVAL_def)
  note read = read [rule_format, OF this img(2)]
  have "ledger_wf (?l (take n evs))" using al.run_inv [OF _ wf] by (metis run_det)
  then have "length (foldl enter [] ?R) \<le> MAXIMUM_ASSIGNMENTS" unfolding img(1) by (simp add: ledger_wf_def)
  from load_assignments [OF codec R bt_wf_Nil img(3) this] read img(1)
  have "fst (ledger_load from_json no_faults path (Some (disk w))) = Ok (al_entries (?l (take n evs)))"
    by (simp add: ledger_load_def)
  moreover have "i < length (sent_commands (al_journal (?l (take n evs))))"
    if "i < length (completed w)" "snd (completed w ! i) = Ok ()" for i
    using k [rule_format, OF that] that(1) len n(3) by simp
  ultimately show ?thesis using n(1) by blast
qed

subsection \<open>Instances\<close>

definition held_at :: "assignment_epoch \<Rightarrow> assignment_state \<Rightarrow> snapshot_id option \<Rightarrow> assignment_record" where
  "held_at e st sn = \<lparr>ar_schema_version = ASSIGNMENT_SCHEMA_VERSION, ar_key = sample_key ''tenant'', ar_epoch = e,
     ar_state = st, ar_snapshot_id = sn\<rparr>"

definition one_assignment :: "assignment_record \<Rightarrow> assignment_ledger" where
  "one_assignment r = opened_ledger [(sample_key ''tenant'', r)]"

definition plain_to_json :: assignment_to_json where "plain_to_json _ = Ok ''{}''"
definition plain_from_json :: assignment_from_json where
  "plain_from_json _ = Ok (held_at 1 AsProvisioning None)"

lemma one_assignment_wf:
  "ledger_wf (one_assignment (held_at 2 AsActive None))"
  "ledger_wf (one_assignment (held_at 1 AsTransferable (Some ''snap'')))" "ledger_wf (opened_ledger [])"
  by (simp_all add: ledger_wf_def one_assignment_def opened_ledger_def bt_get_def bt_wf_def record_wf_def held_at_def
      MAXIMUM_ASSIGNMENTS_def)

lemma one_assignment_get: "bt_get (al_entries (one_assignment r)) (sample_key ''tenant'') = Some r"
  by (simp add: one_assignment_def opened_ledger_def bt_get_def)


definition first_ledger :: assignment_ledger where
  "first_ledger = \<lparr>al_journal = \<lparr>sender_open = True, writer_alive = True,
       sent_commands = [Append (''{}'' @ [newline]) 0], next_completion = 1\<rparr>,
     al_entries = [(sample_key ''tenant'', held_at 1 AsProvisioning None)], al_appends_since_compaction = 1\<rparr>"

lemma first_begin:
  "begin_operation plain_to_json (sample_key ''tenant'') None AsProvisioning None (opened_ledger []) =
     (Ok (1, held_at 1 AsProvisioning None, None, 0, None), first_ledger)"
  by (simp add: Let_def begin_operation_def begin_epoch_def opened_ledger_def bt_get_def bt_contains_def checked_add_def epoch_new_def
      commit_def assignment_encode_record_def plain_to_json_def enqueue_append_def journal_enqueue_def MAXIMUM_RECORD_BYTES_def
      maybe_enqueue_compaction_def ledger_COMPACTION_INTERVAL_def held_at_def first_ledger_def MAXIMUM_ASSIGNMENTS_def)

theorem begin_is_exclusive_witness:
  "begin_operation plain_to_json (sample_key ''tenant'') None AsProvisioning None (opened_ledger []) =
     (Ok (1, held_at 1 AsProvisioning None, None, 0, None), first_ledger) \<and>
   bt_get (al_entries first_ledger) (sample_key ''tenant'') = Some (held_at 1 AsProvisioning None)"
  using first_begin begin_is_exclusive [OF one_assignment_wf(3) first_begin] by blast


theorem ledger_is_crash_consistent_witness:
  "\<exists>w n. snd (writer_run ''/wal'' [sample_env None] (sent_commands (al_journal first_ledger), writer_start (concat []))) = w \<and>
     fst (ledger_load plain_from_json no_faults ''/wal'' (Some (disk w))) =
       Ok (al_entries (ledger_after plain_to_json (opened_ledger []) (take n [LBegin (sample_key ''tenant'') None])))"
proof -
  let ?S = "{held_at 1 AsProvisioning None}" and ?evs = "[LBegin (sample_key ''tenant'') None]"
  have codec: "log_codec plain_to_json plain_from_json (\<lambda>r. r) 610 ?S"
    by (simp add: log_codec_def plain_to_json_def plain_from_json_def newline_def MAXIMUM_RECORD_BYTES_def)
  have after: "ledger_after plain_to_json (opened_ledger []) ?evs = first_ledger"
    using first_begin by (simp add: ledger_begin_def)
  have "set (bt_values (al_entries (ledger_after plain_to_json (opened_ledger []) (take n ?evs)))) \<subseteq> ?S"
    if "n \<le> length ?evs" for n
  proof (cases n)
    case 0
    then show ?thesis by (simp add: opened_ledger_def bt_values_def)
  next
    case (Suc n')
    then have "take n ?evs = ?evs" by simp
    then show ?thesis using after by (simp add: first_ledger_def bt_values_def)
  qed
  then have S: "\<forall>n \<le> length ?evs. set (bt_values (al_entries (ledger_after plain_to_json (opened_ledger []) (take n ?evs)))) \<subseteq> ?S"
    by blast
  obtain queue w where w: "writer_run ''/wal'' [sample_env None] (sent_commands (al_journal (ledger_after plain_to_json (opened_ledger []) ?evs)),
      writer_start (concat (map (ledger_line plain_to_json) (bt_values ([] :: (sandbox_key, assignment_record) btree_map))))) = (queue, w)" by (metis surj_pair)
  then have "snd (writer_run ''/wal'' [sample_env None] (sent_commands (al_journal first_ledger), writer_start (concat []))) = w"
    unfolding after by (simp add: bt_values_def)
  with ledger_is_crash_consistent [OF codec one_assignment_wf(3) S w] show ?thesis by blast
qed

text \<open>
  An assignment is rolled back when its record could not be written, but not when it could
  not be queued: with the journal writer gone, a refused assignment stays entered as
  provisioning and blocks the sandbox.
\<close>
lemma refused_begin_blocks_sandbox:
  "let l = (opened_ledger [])\<lparr>al_journal := (al_journal (opened_ledger []))\<lparr>writer_alive := False\<rparr>\<rparr>;
       l' = snd (ledger_begin plain_to_json (sample_key ''tenant'') None l)
   in fst (ledger_begin plain_to_json (sample_key ''tenant'') None l) = Err (Runtime ''journal writer stopped'') \<and>
      fst (ledger_begin plain_to_json (sample_key ''tenant'') None l') = Err (Runtime ''sandbox assignment is already active'')"
  by (simp add: Let_def ledger_begin_def begin_operation_def begin_epoch_def opened_ledger_def bt_get_def bt_contains_def checked_add_def
      epoch_new_def commit_def assignment_encode_record_def plain_to_json_def enqueue_append_def journal_enqueue_def
      MAXIMUM_RECORD_BYTES_def MAXIMUM_ASSIGNMENTS_def in_flight_def)

end
