(* ===== verification/Attestation.thy ===== *)
theory Attestation
  imports Core_Types Ordered_Map
begin

text \<open>
  \<^verbatim>\<open>crates/sandbox-core/src/attestation.rs\<close> and \<^verbatim>\<open>preparation.rs\<close>: signed statements about
  prepared images, the operator's trust policy, and the catalog of prepared roots. The
  \<^verbatim>\<open>base64\<close>, \<^verbatim>\<open>ed25519_dalek\<close> and \<^verbatim>\<open>serde_json\<close> crates are the fields of a record \<open>crypto\<close>
  the operations take; keys and signatures are byte strings.
\<close>

definition IMAGE_ATTESTATION_VERSION :: u32 where "IMAGE_ATTESTATION_VERSION = 2"

definition SIGNING_DOMAIN :: string where
  "SIGNING_DOMAIN = ''runtrue-sandboxd/image-attestation/v2'' @ [nul]"

record attested_descriptor =
  desc_role :: string
  desc_media_type :: string
  desc_digest :: string
  desc_size :: u64

record image_preparation_attestation =
  at_schema_version :: u32
  at_exact_reference :: string
  at_image_id :: string
  at_platform :: string
  at_descriptors :: "attested_descriptor list"
  at_expanded_root_digest :: string
  at_expanded_root_entries :: u64
  at_expanded_root_bytes :: u64
  at_preparation_policy :: string
  at_toolchain_digest :: string
  at_sbom_digest :: string
  at_provenance_digest :: string
  at_vulnerability_policy :: string
  at_worker_artifact_digest :: string
  at_prepared_unix_ms :: u64

record signed_image_attestation =
  sg_key_id :: string
  sg_attestation :: image_preparation_attestation
  sg_signature :: string

record image_attestation_expectation =
  ex_exact_reference :: string
  ex_image_id :: string
  ex_platform :: string
  ex_descriptors :: "attested_descriptor list"
  ex_expanded_root_digest :: string
  ex_expanded_root_entries :: u64
  ex_expanded_root_bytes :: u64
  ex_worker_artifact_digest :: string

record attestation_trust_policy =
  tp_trusted_public_keys :: "(string, string) btree_map"
  tp_allowed_preparation_policies :: "string set"
  tp_allowed_toolchain_digests :: "string set"
  tp_allowed_vulnerability_policies :: "string set"
  tp_revoked_worker_artifact_digests :: "string set"
  tp_revoked_expanded_root_digests :: "string set"
  tp_maximum_attestation_age_ms :: u64

record crypto =
  base64_encode :: "string \<Rightarrow> string"
  base64_decode :: "string \<Rightarrow> string option"
  sign_bytes :: "string \<Rightarrow> string \<Rightarrow> string"
  verifying_key :: "string \<Rightarrow> bool"
  verify_strict :: "string \<Rightarrow> string \<Rightarrow> string \<Rightarrow> bool"
  attestation_json :: "image_preparation_attestation \<Rightarrow> (string, string) result"

subsection \<open>Validation\<close>

definition bounded_name :: "string \<Rightarrow> nat \<Rightarrow> bool" where
  "bounded_name val maximum \<longleftrightarrow> val \<noteq> [] \<and> length val \<le> maximum \<and>
     list_all (\<lambda>b. is_ascii_lowercase b \<or> is_ascii_digit b \<or> b = CHR ''-'') val"

definition attested_valid_digest :: "string \<Rightarrow> bool" where
  "attested_valid_digest val \<longleftrightarrow> length val = 71 \<and> starts_with val ''sha256:'' \<and> list_all is_lower_hex (drop 7 val)"

definition valid_exact_reference :: "string \<Rightarrow> bool" where
  "valid_exact_reference val \<longleftrightarrow>
     (case rsplit_once ''@'' val of
        None \<Rightarrow> False
      | Some (name, digest) \<Rightarrow> name \<noteq> [] \<and> CHR ''@'' \<notin> set name \<and> attested_valid_digest digest)"

definition valid_platform :: "string \<Rightarrow> bool" where
  "valid_platform val \<longleftrightarrow>
     split_on CHR ''/'' val \<in> {[''linux'', ''amd64''], [''linux'', ''arm64''], [''linux'', ''arm'', ''v7'']}"

text \<open>The derived \<open>Ord\<close> of a descriptor: lexicographic in the order of its fields.\<close>

definition desc_order :: "attested_descriptor \<Rightarrow> string \<times> string \<times> string \<times> u64" where
  "desc_order d = (desc_role d, desc_media_type d, desc_digest d, desc_size d)"

definition descriptor_visit ::
  "string set \<times> attested_descriptor option \<Rightarrow> attested_descriptor \<Rightarrow>
     (string set \<times> attested_descriptor option, core_error) result" where
  "descriptor_visit s d =
     (if \<not> bounded_name (desc_role d) 64 \<or> desc_media_type d = [] \<or> length (desc_media_type d) > 256 \<or>
         \<not> list_all is_ascii (desc_media_type d) \<or> \<not> attested_valid_digest (desc_digest d) \<or> desc_size d = 0 \<or>
         desc_role d \<in> fst s \<or> (case snd s of None \<Rightarrow> False | Some prior \<Rightarrow> desc_order prior \<ge> desc_order d)
      then Err (InvalidSpecification ''attested descriptor graph is invalid or noncanonical'')
      else Ok (insert (desc_role d) (fst s), Some d))"

definition attestation_validate :: "image_preparation_attestation \<Rightarrow> (unit, core_error) result" where
  "attestation_validate a =
     (if at_schema_version a \<noteq> IMAGE_ATTESTATION_VERSION \<or> length (at_exact_reference a) > 512 \<or>
         \<not> valid_exact_reference (at_exact_reference a) \<or> \<not> attested_valid_digest (at_image_id a) \<or>
         \<not> valid_platform (at_platform a) \<or> at_descriptors a = [] \<or> length (at_descriptors a) > 1024 \<or>
         \<not> attested_valid_digest (at_expanded_root_digest a) \<or> at_expanded_root_entries a = 0 \<or>
         at_expanded_root_bytes a = 0 \<or> \<not> bounded_name (at_preparation_policy a) 128 \<or>
         \<not> attested_valid_digest (at_toolchain_digest a) \<or> \<not> attested_valid_digest (at_sbom_digest a) \<or>
         \<not> attested_valid_digest (at_provenance_digest a) \<or> \<not> bounded_name (at_vulnerability_policy a) 128 \<or>
         \<not> attested_valid_digest (at_worker_artifact_digest a) \<or> at_prepared_unix_ms a = 0
      then Err (InvalidSpecification ''image preparation attestation is invalid'')
      else and_then (try_fold descriptor_visit ({}, None) (at_descriptors a)) (\<lambda>s.
        if ''manifest'' \<notin> fst s \<or> ''config'' \<notin> fst s \<or> \<not> (\<exists>role \<in> fst s. starts_with role ''layer-'')
        then Err (InvalidSpecification ''attested descriptor graph is incomplete'')
        else Ok ()))"

definition validate_key_id :: "string \<Rightarrow> (unit, core_error) result" where
  "validate_key_id val =
     (if bounded_name val 64 then Ok ()
      else Err (InvalidSpecification ''image attestation key ID is invalid''))"

definition decode_public_key :: "crypto \<Rightarrow> string \<Rightarrow> (string, core_error) result" where
  "decode_public_key cr val =
     (case base64_decode cr val of
        None \<Rightarrow> Err (InvalidSpecification ''image attestation public key is invalid'')
      | Some bytes \<Rightarrow>
          if length bytes = 32 then Ok bytes
          else Err (InvalidSpecification ''image attestation public key is invalid''))"

definition trust_policy_validate :: "crypto \<Rightarrow> attestation_trust_policy \<Rightarrow> (unit, core_error) result" where
  "trust_policy_validate cr p =
     (if tp_trusted_public_keys p = [] \<or> length (tp_trusted_public_keys p) > 64 \<or>
         tp_allowed_preparation_policies p = {} \<or> card (tp_allowed_preparation_policies p) > 64 \<or>
         tp_allowed_toolchain_digests p = {} \<or> card (tp_allowed_toolchain_digests p) > 256 \<or>
         tp_allowed_vulnerability_policies p = {} \<or> card (tp_allowed_vulnerability_policies p) > 64 \<or>
         card (tp_revoked_worker_artifact_digests p) > 65536 \<or> card (tp_revoked_expanded_root_digests p) > 65536 \<or>
         tp_maximum_attestation_age_ms p = 0 \<or> tp_maximum_attestation_age_ms p > 366 * 24 * 60 * 60 * 1000 \<or>
         list_ex (\<lambda>(key_id, key). \<not> is_ok (validate_key_id key_id) \<or> \<not> is_ok (decode_public_key cr key))
           (tp_trusted_public_keys p) \<or>
         (\<exists>policy \<in> tp_allowed_preparation_policies p. \<not> bounded_name policy 128) \<or>
         (\<exists>digest \<in> tp_allowed_toolchain_digests p. \<not> attested_valid_digest digest) \<or>
         (\<exists>policy \<in> tp_allowed_vulnerability_policies p. \<not> bounded_name policy 128) \<or>
         (\<exists>digest \<in> tp_revoked_worker_artifact_digests p \<union> tp_revoked_expanded_root_digests p.
            \<not> attested_valid_digest digest)
      then Err (InvalidSpecification ''image attestation trust policy is invalid'')
      else Ok ())"

subsection \<open>Signing and verification\<close>

definition signing_payload :: "crypto \<Rightarrow> string \<Rightarrow> image_preparation_attestation \<Rightarrow> (string, core_error) result" where
  "signing_payload cr key_id a =
     and_then (map_err (\<lambda>e. InvalidSpecification (''encode image attestation: '' @ e)) (attestation_json cr a))
       (\<lambda>encoded. Ok (SIGNING_DOMAIN @ key_id @ [nul] @ encoded))"

definition sign_image_attestation ::
  "crypto \<Rightarrow> string \<Rightarrow> string \<Rightarrow> image_preparation_attestation \<Rightarrow> (signed_image_attestation, core_error) result" where
  "sign_image_attestation cr key_id private_key a =
     and_then (attestation_validate a) (\<lambda>_. and_then (validate_key_id key_id) (\<lambda>_.
       and_then (signing_payload cr key_id a) (\<lambda>payload.
         Ok \<lparr>sg_key_id = key_id, sg_attestation = a,
             sg_signature = base64_encode cr (sign_bytes cr private_key payload)\<rparr>)))"

definition verify_image_attestation ::
  "crypto \<Rightarrow> string \<Rightarrow> signed_image_attestation \<Rightarrow> (unit, core_error) result" where
  "verify_image_attestation cr public_key sg =
     and_then (attestation_validate (sg_attestation sg)) (\<lambda>_. and_then (validate_key_id (sg_key_id sg)) (\<lambda>_.
       case base64_decode cr (sg_signature sg) of
         None \<Rightarrow> Err (InvalidSpecification ''image attestation signature is invalid'')
       | Some signature \<Rightarrow>
           if length signature \<noteq> 64 then Err (InvalidSpecification ''image attestation signature is invalid'')
           else if \<not> verifying_key cr public_key
           then Err (InvalidSpecification ''image attestation public key is invalid'')
           else and_then (signing_payload cr (sg_key_id sg) (sg_attestation sg)) (\<lambda>payload.
             if verify_strict cr public_key payload signature then Ok ()
             else Err (InvalidSpecification ''image attestation signature is invalid''))))"

definition verify_trusted_image_attestation ::
  "crypto \<Rightarrow> attestation_trust_policy \<Rightarrow> signed_image_attestation \<Rightarrow> u64 \<Rightarrow> (unit, core_error) result" where
  "verify_trusted_image_attestation cr p sg now =
     and_then (trust_policy_validate cr p) (\<lambda>_.
     and_then (ok_or (InvalidSpecification ''image attestation key is not trusted'')
       (bt_get (tp_trusted_public_keys p) (sg_key_id sg))) (\<lambda>encoded_key.
     and_then (decode_public_key cr encoded_key) (\<lambda>public_key.
     and_then (verify_image_attestation cr public_key sg) (\<lambda>_.
       let a = sg_attestation sg
       in if at_prepared_unix_ms a > now \<or>
             saturating_sub now (at_prepared_unix_ms a) > tp_maximum_attestation_age_ms p \<or>
             at_preparation_policy a \<notin> tp_allowed_preparation_policies p \<or>
             at_toolchain_digest a \<notin> tp_allowed_toolchain_digests p \<or>
             at_vulnerability_policy a \<notin> tp_allowed_vulnerability_policies p \<or>
             at_worker_artifact_digest a \<in> tp_revoked_worker_artifact_digests p \<or>
             at_expanded_root_digest a \<in> tp_revoked_expanded_root_digests p
          then Err (InvalidSpecification ''image attestation is expired, revoked, or outside operator policy'')
          else Ok ()))))"

definition verify_bound_image_attestation ::
  "crypto \<Rightarrow> attestation_trust_policy \<Rightarrow> signed_image_attestation \<Rightarrow> image_attestation_expectation \<Rightarrow> u64 \<Rightarrow>
     (unit, core_error) result" where
  "verify_bound_image_attestation cr p sg ex now =
     and_then (verify_trusted_image_attestation cr p sg now) (\<lambda>_.
       let a = sg_attestation sg
       in if at_exact_reference a \<noteq> ex_exact_reference ex \<or> at_image_id a \<noteq> ex_image_id ex \<or>
             at_platform a \<noteq> ex_platform ex \<or> at_descriptors a \<noteq> ex_descriptors ex \<or>
             at_expanded_root_digest a \<noteq> ex_expanded_root_digest ex \<or>
             at_expanded_root_entries a \<noteq> ex_expanded_root_entries ex \<or>
             at_expanded_root_bytes a \<noteq> ex_expanded_root_bytes ex \<or>
             at_worker_artifact_digest a \<noteq> ex_worker_artifact_digest ex
          then Err (InvalidSpecification ''image attestation does not match the admitted worker artifact'')
          else Ok ())"

subsection \<open>Prepared roots\<close>

definition PREPARED_ROOT_CATALOG_VERSION :: u32 where "PREPARED_ROOT_CATALOG_VERSION = 1"
definition MAXIMUM_PREPARED_ROOT_COHORTS :: nat where "MAXIMUM_PREPARED_ROOT_COHORTS = 128"
definition MAXIMUM_ARTIFACTS_PER_COHORT :: nat where "MAXIMUM_ARTIFACTS_PER_COHORT = 256"

record prepared_root_artifact =
  pr_worker_artifact_digest :: string
  pr_expanded_root_digest :: string

record prepared_root_cohort =
  co_name :: string
  co_artifacts :: "prepared_root_artifact list"

record prepared_root_catalog =
  ca_schema_version :: u32
  ca_cohorts :: "prepared_root_cohort list"

definition artifact_order :: "prepared_root_artifact \<Rightarrow> string \<times> string" where
  "artifact_order a = (pr_worker_artifact_digest a, pr_expanded_root_digest a)"

definition prepared_artifact_validate :: "prepared_root_artifact \<Rightarrow> (unit, core_error) result" where
  "prepared_artifact_validate a =
     (if \<not> prepared_valid_digest (pr_worker_artifact_digest a) \<or> \<not> prepared_valid_digest (pr_expanded_root_digest a)
      then Err (InvalidSpecification ''prepared-root artifact identity is invalid'') else Ok ())"

definition prepared_valid_name :: "string \<Rightarrow> bool" where
  "prepared_valid_name val \<longleftrightarrow> val \<noteq> [] \<and> length val \<le> 63 \<and>
     list_all (\<lambda>(index, b). is_ascii_lowercase b \<or> is_ascii_digit b \<or> (index > 0 \<and> b \<in> {CHR ''-'', CHR ''.''}))
       (List.enumerate 0 val) \<and>
     last val \<notin> {CHR ''-'', CHR ''.''}"

definition artifact_visit ::
  "string set \<times> prepared_root_artifact option \<Rightarrow> prepared_root_artifact \<Rightarrow>
     (string set \<times> prepared_root_artifact option, core_error) result" where
  "artifact_visit s a =
     and_then (prepared_artifact_validate a) (\<lambda>_.
       if (case snd s of None \<Rightarrow> False | Some candidate \<Rightarrow> artifact_order candidate \<ge> artifact_order a) \<or>
          pr_worker_artifact_digest a \<in> fst s
       then Err (InvalidSpecification ''prepared-root artifacts are duplicated or noncanonical'')
       else Ok (insert (pr_worker_artifact_digest a) (fst s), Some a))"

definition cohort_visit ::
  "string set \<times> string set \<Rightarrow> prepared_root_cohort \<Rightarrow> (string set \<times> string set, core_error) result" where
  "cohort_visit s c =
     (if \<not> prepared_valid_name (co_name c) \<or> co_name c \<in> fst s \<or> co_artifacts c = [] \<or>
         length (co_artifacts c) > MAXIMUM_ARTIFACTS_PER_COHORT
      then Err (InvalidSpecification ''prepared-root cohort is invalid or duplicated'')
      else and_then (try_fold artifact_visit (snd s, None) (co_artifacts c)) (\<lambda>t.
        Ok (insert (co_name c) (fst s), fst t)))"

definition prepared_catalog_validate :: "prepared_root_catalog \<Rightarrow> (unit, core_error) result" where
  "prepared_catalog_validate cat =
     (if ca_schema_version cat \<noteq> PREPARED_ROOT_CATALOG_VERSION \<or> ca_cohorts cat = [] \<or>
         length (ca_cohorts cat) > MAXIMUM_PREPARED_ROOT_COHORTS
      then Err (InvalidSpecification ''prepared-root catalog version or size is invalid'')
      else and_then (try_fold cohort_visit ({}, {}) (ca_cohorts cat)) (\<lambda>_. Ok ()))"

definition catalog_cohort :: "prepared_root_catalog \<Rightarrow> string \<Rightarrow> prepared_root_cohort option" where
  "catalog_cohort cat name = List.find (\<lambda>c. co_name c = name) (ca_cohorts cat)"

fun find_artifact ::
  "string \<Rightarrow> prepared_root_cohort list \<Rightarrow> (prepared_root_cohort \<times> prepared_root_artifact) option" where
  "find_artifact digest [] = None"
| "find_artifact digest (c # cs) =
     (case List.find (\<lambda>a. pr_worker_artifact_digest a = digest) (co_artifacts c) of
        Some a \<Rightarrow> Some (c, a)
      | None \<Rightarrow> find_artifact digest cs)"

definition catalog_artifact ::
  "prepared_root_catalog \<Rightarrow> string \<Rightarrow> (prepared_root_cohort \<times> prepared_root_artifact) option" where
  "catalog_artifact cat digest = find_artifact digest (ca_cohorts cat)"

subsection \<open>Properties\<close>

text \<open>What is assumed of a key pair and the encodings: a signature is 64 bytes, decodes, and verifies.\<close>

definition key_pair :: "crypto \<Rightarrow> string \<Rightarrow> string \<Rightarrow> bool" where
  "key_pair cr private_key public_key \<longleftrightarrow> verifying_key cr public_key \<and>
     (\<forall>payload. length (sign_bytes cr private_key payload) = 64 \<and>
        base64_decode cr (base64_encode cr (sign_bytes cr private_key payload)) = Some (sign_bytes cr private_key payload) \<and>
        verify_strict cr public_key payload (sign_bytes cr private_key payload))"

text \<open>
  C35: what is signed verifies. If signing succeeds, the signed statement carries the
  key name and the attestation unchanged, and verification under the matching public key
  accepts it. Signing succeeds exactly for valid statements and key names that encode.
\<close>
theorem signed_attestation_verifies:
  assumes "key_pair cr private_key public_key" and "sign_image_attestation cr key_id private_key a = Ok sg"
  shows "verify_image_attestation cr public_key sg = Ok () \<and> sg_key_id sg = key_id \<and> sg_attestation sg = a \<and>
    attestation_validate a = Ok () \<and> bounded_name key_id 64"
  using assms
  by (auto simp: sign_image_attestation_def verify_image_attestation_def key_pair_def validate_key_id_def
      signing_payload_def split: if_splits)

lemma bounded_name_no_nul: "bounded_name s n \<Longrightarrow> nul \<notin> set s"
  by (auto simp: bounded_name_def list_all_iff nul_def ascii_defs)

text \<open>
  A signature covers one statement. Two statements under valid key names have the same
  signed bytes only if they have the same key name and the same JSON text: no byte can be
  moved between the key name and the statement, and nothing is signed twice under two names.
\<close>
theorem signing_payload_is_unambiguous:
  assumes "bounded_name k 64" and "bounded_name k' 64"
    and "signing_payload cr k a = Ok p" and "signing_payload cr k' a' = Ok p"
  shows "k = k' \<and> attestation_json cr a = attestation_json cr a'"
proof -
  from assms(3) obtain x where x: "attestation_json cr a = Ok x" "p = SIGNING_DOMAIN @ k @ nul # x"
    by (auto simp: signing_payload_def)
  from assms(4) obtain y where y: "attestation_json cr a' = Ok y" "p = SIGNING_DOMAIN @ k' @ nul # y"
    by (auto simp: signing_payload_def)
  have "k @ nul # x = k' @ nul # y" using x(2) y(2) by simp
  from append_sep_inj [OF bounded_name_no_nul [OF assms(1)] bounded_name_no_nul [OF assms(2)] this] x(1) y(1)
  show ?thesis by simp
qed


lemma artifact_visit_Ok:
  "artifact_visit s a = Ok t \<Longrightarrow> prepared_valid_digest (pr_worker_artifact_digest a) \<and>
     pr_worker_artifact_digest a \<notin> fst s \<and> t = (insert (pr_worker_artifact_digest a) (fst s), Some a)"
  by (auto simp: artifact_visit_def prepared_artifact_validate_def)

lemma cohort_visit_Ok:
  "cohort_visit s c = Ok t \<Longrightarrow> co_name c \<notin> fst s \<and>
     (\<exists>D l. try_fold artifact_visit (snd s, None) (co_artifacts c) = Ok (D, l) \<and> t = (insert (co_name c) (fst s), D))"
  by (auto simp: cohort_visit_def)

lemma artifact_fold:
  "try_fold artifact_visit (S, prior) as = Ok (S', last') \<Longrightarrow>
     distinct (map pr_worker_artifact_digest as) \<and> pr_worker_artifact_digest ` set as \<inter> S = {} \<and>
     S' = S \<union> pr_worker_artifact_digest ` set as \<and> (\<forall>a \<in> set as. valid_digest (pr_worker_artifact_digest a))"
proof (induction as arbitrary: S prior)
  case (Cons a as)
  from Cons.prems have "prepared_valid_digest (pr_worker_artifact_digest a)" "pr_worker_artifact_digest a \<notin> S"
    and f: "try_fold artifact_visit (insert (pr_worker_artifact_digest a) S, Some a) as = Ok (S', last')"
    by (auto dest: artifact_visit_Ok)
  moreover from this(1) have "valid_digest (pr_worker_artifact_digest a)"
    by (auto simp: prepared_valid_digest_def valid_digest_iff split: option.splits)
  ultimately show ?case using Cons.IH [OF f] by auto
qed simp

definition catalog_artifacts :: "prepared_root_cohort list \<Rightarrow> prepared_root_artifact list" where
  "catalog_artifacts cs = concat (map co_artifacts cs)"

lemma cohort_fold:
  "try_fold cohort_visit (N, D) cs = Ok s \<Longrightarrow>
     distinct (map co_name cs) \<and> co_name ` set cs \<inter> N = {} \<and>
     distinct (map pr_worker_artifact_digest (catalog_artifacts cs)) \<and>
     pr_worker_artifact_digest ` set (catalog_artifacts cs) \<inter> D = {}"
proof (induction cs arbitrary: N D)
  case (Cons c cs)
  from Cons.prems obtain D' t where a: "try_fold artifact_visit (D, None) (co_artifacts c) = Ok (D', t)"
    and n: "co_name c \<notin> N" and f: "try_fold cohort_visit (insert (co_name c) N, D') cs = Ok s"
    by (auto dest: cohort_visit_Ok)
  note A = artifact_fold [OF a] and I = Cons.IH [OF f]
  let ?w = "pr_worker_artifact_digest" and ?cs = "catalog_artifacts cs"
  have c: "catalog_artifacts (c # cs) = co_artifacts c @ ?cs" by (simp add: catalog_artifacts_def)
  have "?w ` set ?cs \<inter> (D \<union> ?w ` set (co_artifacts c)) = {}" using A I by simp
  then have "?w ` set (co_artifacts c) \<inter> ?w ` set ?cs = {}" "?w ` set ?cs \<inter> D = {}" by blast+
  then have "distinct (map ?w (catalog_artifacts (c # cs)))" "?w ` set (catalog_artifacts (c # cs)) \<inter> D = {}"
    using A I unfolding c by (simp_all add: image_Un Int_Un_distrib2)
  moreover have "distinct (map co_name (c # cs))" "co_name ` set (c # cs) \<inter> N = {}" using I n by simp_all
  ultimately show ?case by blast
qed (simp add: catalog_artifacts_def)

lemma find_artifact_Some:
  "find_artifact d cs = Some (c, a) \<Longrightarrow> c \<in> set cs \<and> a \<in> set (co_artifacts c) \<and> pr_worker_artifact_digest a = d"
  by (induction cs) (auto split: option.splits simp: find_Some_iff)

lemma find_artifact_None:
  "find_artifact d cs = None \<Longrightarrow> \<forall>a \<in> set (catalog_artifacts cs). pr_worker_artifact_digest a \<noteq> d"
  by (induction cs) (auto split: option.splits simp: find_None_iff catalog_artifacts_def)

lemma find_by_name:
  "c \<in> set cs \<Longrightarrow> distinct (map co_name cs) \<Longrightarrow> List.find (\<lambda>c'. co_name c' = co_name c) cs = Some c"
  by (induction cs) (auto simp: image_iff)

text \<open>
  In a validated catalog a worker artifact is found exactly if some cohort lists it, the one
  found is the only one with its digest, and a cohort's name finds exactly that cohort.
\<close>
lemma catalog_lookup_is_exact:
  assumes "prepared_catalog_validate cat = Ok ()"
  shows "(\<forall>c \<in> set (ca_cohorts cat). catalog_cohort cat (co_name c) = Some c) \<and>
    (\<forall>c \<in> set (ca_cohorts cat). \<forall>a \<in> set (co_artifacts c).
       \<exists>c'. catalog_artifact cat (pr_worker_artifact_digest a) = Some (c', a))"
proof -
  from assms obtain s where f: "try_fold cohort_visit ({}, {}) (ca_cohorts cat) = Ok s"
    by (auto simp: prepared_catalog_validate_def split: if_splits)
  note d = cohort_fold [OF f]
  have "catalog_cohort cat (co_name c) = Some c" if "c \<in> set (ca_cohorts cat)" for c
    using find_by_name [OF that] d by (simp add: catalog_cohort_def)
  then have 1: "\<forall>c \<in> set (ca_cohorts cat). catalog_cohort cat (co_name c) = Some c" by blast
  have "\<exists>c'. catalog_artifact cat (pr_worker_artifact_digest a) = Some (c', a)"
    if c: "c \<in> set (ca_cohorts cat)" "a \<in> set (co_artifacts c)" for c a
  proof -
    have a: "a \<in> set (catalog_artifacts (ca_cohorts cat))" using c by (auto simp: catalog_artifacts_def)
    then obtain c' a' where r: "find_artifact (pr_worker_artifact_digest a) (ca_cohorts cat) = Some (c', a')"
      using find_artifact_None by (metis not_Some_eq surj_pair)
    from find_artifact_Some [OF r] have "a' \<in> set (catalog_artifacts (ca_cohorts cat))"
      "pr_worker_artifact_digest a' = pr_worker_artifact_digest a" by (auto simp: catalog_artifacts_def)
    with a d have "a' = a" by (metis distinct_map inj_onD)
    with r show ?thesis by (simp add: catalog_artifact_def)
  qed
  with 1 show ?thesis by blast
qed

subsection \<open>Instances\<close>

lemma attested_valid_digest_iff [simp]: "attested_valid_digest s = valid_digest s"
  by (simp add: attested_valid_digest_def valid_digest_def)

definition sample_crypto :: crypto where
  "sample_crypto = \<lparr>base64_encode = (\<lambda>s. s), base64_decode = Some, sign_bytes = (\<lambda>_ _. replicate 64 (CHR ''s'')),
     verifying_key = (\<lambda>_. True), verify_strict = (\<lambda>_ _ signature. signature = replicate 64 (CHR ''s'')),
     attestation_json = (\<lambda>_. Ok ''{}'')\<rparr>"

definition sample_descriptor :: "string \<Rightarrow> attested_descriptor" where
  "sample_descriptor role = \<lparr>desc_role = role, desc_media_type = ''m'', desc_digest = sample_digest CHR ''a'', desc_size = 1\<rparr>"

definition sample_attestation :: image_preparation_attestation where
  "sample_attestation = \<lparr>at_schema_version = 2, at_exact_reference = ''img@'' @ sample_digest CHR ''a'',
     at_image_id = sample_digest CHR ''a'', at_platform = ''linux/amd64'',
     at_descriptors = [sample_descriptor ''config'', sample_descriptor ''layer-0'', sample_descriptor ''manifest''],
     at_expanded_root_digest = sample_digest CHR ''a'', at_expanded_root_entries = 1, at_expanded_root_bytes = 1,
     at_preparation_policy = ''p'', at_toolchain_digest = sample_digest CHR ''a'', at_sbom_digest = sample_digest CHR ''a'',
     at_provenance_digest = sample_digest CHR ''a'', at_vulnerability_policy = ''v'',
     at_worker_artifact_digest = sample_digest CHR ''a'', at_prepared_unix_ms = 1000\<rparr>"

definition sample_signed :: signed_image_attestation where
  "sample_signed = \<lparr>sg_key_id = ''k'', sg_attestation = sample_attestation, sg_signature = replicate 64 (CHR ''s'')\<rparr>"

definition sample_trust :: attestation_trust_policy where
  "sample_trust = \<lparr>tp_trusted_public_keys = [(''k'', replicate 32 (CHR ''p''))], tp_allowed_preparation_policies = {''p''},
     tp_allowed_toolchain_digests = {sample_digest CHR ''a''}, tp_allowed_vulnerability_policies = {''v''},
     tp_revoked_worker_artifact_digests = {}, tp_revoked_expanded_root_digests = {}, tp_maximum_attestation_age_ms = 5000\<rparr>"

definition sample_expectation :: image_attestation_expectation where
  "sample_expectation = \<lparr>ex_exact_reference = at_exact_reference sample_attestation, ex_image_id = sample_digest CHR ''a'',
     ex_platform = ''linux/amd64'', ex_descriptors = at_descriptors sample_attestation,
     ex_expanded_root_digest = sample_digest CHR ''a'', ex_expanded_root_entries = 1, ex_expanded_root_bytes = 1,
     ex_worker_artifact_digest = sample_digest CHR ''a''\<rparr>"

lemma sample_reference: "valid_exact_reference (''img@'' @ sample_digest CHR ''a'')"
proof -
  have "CHR ''@'' \<notin> set (sample_digest CHR ''a'')" by (auto simp: sample_digest_def)
  then have "rsplit_once ''@'' (''img'' @ CHR ''@'' # sample_digest CHR ''a'') = Some (''img'', sample_digest CHR ''a'')"
    using rsplit_once_last [of "CHR ''@''" "[]" "sample_digest CHR ''a''" "''img''"] by simp
  then show ?thesis by (simp add: valid_exact_reference_def)
qed

lemma sample_attestation_valid: "attestation_validate sample_attestation = Ok ()"
proof -
  have d: "try_fold descriptor_visit ({}, None) (at_descriptors sample_attestation) =
      Ok ({''manifest'', ''layer-0'', ''config''}, Some (sample_descriptor ''manifest''))"
    by (simp add: sample_attestation_def descriptor_visit_def sample_descriptor_def bounded_name_def ascii_defs desc_order_def)
  have "length (''img@'' @ sample_digest CHR ''a'') \<le> 512" by (simp add: sample_digest_def)
  moreover have "valid_platform ''linux/amd64''" by (simp add: valid_platform_def)
  ultimately show ?thesis
    using d sample_reference
    by (simp add: attestation_validate_def) (simp add: sample_attestation_def IMAGE_ATTESTATION_VERSION_def bounded_name_def ascii_defs)
qed

lemma sample_sign: "sign_image_attestation sample_crypto ''k'' [] sample_attestation = Ok sample_signed"
  by (simp add: sign_image_attestation_def sample_attestation_valid validate_key_id_def bounded_name_def ascii_defs
      signing_payload_def sample_crypto_def sample_signed_def)

theorem signed_attestation_verifies_witness:
  "sign_image_attestation sample_crypto ''k'' [] sample_attestation = Ok sample_signed \<and>
   verify_image_attestation sample_crypto [] sample_signed = Ok ()"
proof -
  have "key_pair sample_crypto [] []" by (simp add: key_pair_def sample_crypto_def)
  from sample_sign signed_attestation_verifies [OF this sample_sign] show ?thesis by blast
qed

theorem signing_payload_is_unambiguous_witness:
  "let a = sample_attestation\<lparr>at_platform := ''linux/arm64''\<rparr>
   in \<exists>p. signing_payload sample_crypto ''k'' sample_attestation = Ok p \<and> signing_payload sample_crypto ''k'' a = Ok p \<and>
        attestation_json sample_crypto sample_attestation = attestation_json sample_crypto a"
proof -
  let ?p = "SIGNING_DOMAIN @ ''k'' @ [nul] @ ''{}''"
  have b: "bounded_name ''k'' 64" by (simp add: bounded_name_def ascii_defs)
  have p: "signing_payload sample_crypto ''k'' a = Ok ?p" for a
    by (simp add: signing_payload_def sample_crypto_def)
  from p signing_payload_is_unambiguous [OF b b p p] show ?thesis unfolding Let_def by blast
qed

lemma sample_bound:
  "verify_bound_image_attestation sample_crypto sample_trust sample_signed sample_expectation 2000 = Ok ()"
proof -
  have pol: "trust_policy_validate sample_crypto sample_trust = Ok ()"
    by (simp add: trust_policy_validate_def sample_trust_def sample_crypto_def validate_key_id_def bounded_name_def
        ascii_defs decode_public_key_def word_less_nat_alt)
  have ver: "verify_image_attestation sample_crypto key sample_signed = Ok ()" for key
    by (simp add: verify_image_attestation_def sample_signed_def sample_attestation_valid validate_key_id_def
        bounded_name_def ascii_defs signing_payload_def sample_crypto_def)
  have tr: "verify_trusted_image_attestation sample_crypto sample_trust sample_signed 2000 = Ok ()"
    using pol ver
    by (simp add: verify_trusted_image_attestation_def)
      (simp add: sample_trust_def sample_signed_def bt_get_def decode_public_key_def sample_crypto_def sample_attestation_def
        saturating_sub_def word_less_nat_alt)
  then show ?thesis
    by (simp add: verify_bound_image_attestation_def sample_signed_def sample_expectation_def sample_attestation_def)
qed


end
