(* ===== verification/Topology.thy ===== *)
theory Topology
  imports Volume
begin

text \<open>
  The data of \<^verbatim>\<open>crates/sandbox-oci/src/model.rs\<close>: the decoded Compose input, the network
  policy and the topology lock that the compiler produces and every daemon verifies. A
  \<open>BTreeMap\<close> field is a sorted association list.
\<close>

definition LOCK_SCHEMA_VERSION :: u32 where "LOCK_SCHEMA_VERSION = 6"
definition MAX_SERVICES :: nat where "MAX_SERVICES = 32"
definition MAX_NETWORKS :: nat where "MAX_NETWORKS = 8"
definition MAX_VOLUMES :: nat where "MAX_VOLUMES = 128"
definition MAX_ENVIRONMENT :: nat where "MAX_ENVIRONMENT = 128"
definition MAX_ARGUMENTS :: nat where "MAX_ARGUMENTS = 256"
definition MAX_VALUE_BYTES :: nat where "MAX_VALUE_BYTES = 16 * 1024"

subsection \<open>The network policy\<close>

datatype network_profile = NoNetwork | HttpConnect | RestrictedTcp
datatype http_scheme = Http | Https

record http_egress_rule =
  hr_domains :: "string list"
  hr_schemes :: "http_scheme list"
  hr_ports :: "u16 list"

record tcp_egress_rule =
  tr_destination_cidr :: string
  tr_ports :: "u16 list"

record dns_policy =
  dns_maximum_queries :: u32
  dns_maximum_response_bytes :: u32
  dns_maximum_total_bytes :: u64

record egress_limits =
  el_maximum_connections :: u32
  el_maximum_bytes :: u64
  el_bandwidth_bytes_per_second :: u64
  el_maximum_request_bytes :: u64
  el_maximum_response_bytes :: u64
  el_connect_timeout_ms :: u64
  el_idle_timeout_ms :: u64

record ingress_rule =
  ir_service :: string
  ir_container_port :: u16

record network_policy =
  np_profile :: network_profile
  np_http_rules :: "http_egress_rule list"
  np_tcp_rules :: "tcp_egress_rule list"
  np_dns :: dns_policy
  np_limits :: egress_limits
  np_ingress :: "ingress_rule list"

definition dns_policy_default :: dns_policy where
  "dns_policy_default = \<lparr>dns_maximum_queries = 256, dns_maximum_response_bytes = 4096,
     dns_maximum_total_bytes = 1024 * 1024\<rparr>"

definition default_maximum_request_bytes :: u64 where
  "default_maximum_request_bytes = 16 * 1024 * 1024"

definition default_maximum_response_bytes :: u64 where
  "default_maximum_response_bytes = 16 * 1024 * 1024"

definition default_connect_timeout_ms :: u64 where
  "default_connect_timeout_ms = 5000"

definition default_idle_timeout_ms :: u64 where
  "default_idle_timeout_ms = 30000"

definition egress_limits_default :: egress_limits where
  "egress_limits_default = \<lparr>el_maximum_connections = 32, el_maximum_bytes = 64 * 1024 * 1024,
     el_bandwidth_bytes_per_second = 8 * 1024 * 1024,
     el_maximum_request_bytes = default_maximum_request_bytes,
     el_maximum_response_bytes = default_maximum_response_bytes,
     el_connect_timeout_ms = default_connect_timeout_ms,
     el_idle_timeout_ms = default_idle_timeout_ms\<rparr>"

definition network_policy_default :: network_policy where
  "network_policy_default = \<lparr>np_profile = NoNetwork, np_http_rules = [], np_tcp_rules = [],
     np_dns = dns_policy_default, np_limits = egress_limits_default, np_ingress = []\<rparr>"

lemmas policy_default_defs = dns_policy_default_def egress_limits_default_def
  network_policy_default_def default_maximum_request_bytes_def default_maximum_response_bytes_def
  default_connect_timeout_ms_def default_idle_timeout_ms_def

subsection \<open>The Compose input\<close>

datatype dependency_condition = DepStarted | DepHealthy | DepCompletedSuccessfully

record volume_input =
  vi_persistence_class :: volume_persistence_class
  vi_snapshot_policy :: "volume_snapshot_policy option"
  vi_quota_bytes :: "u64 option"
  vi_content_digest :: "string option"

record service_volume_input =
  sv_source :: string
  sv_target :: string
  sv_read_only :: "bool option"

record network_input =
  ni_internal :: "bool option"
  ni_driver :: "string option"

record healthcheck_input =
  hi_test :: "string list"
  hi_interval_ms :: u64
  hi_timeout_ms :: u64
  hi_retries :: u32

record service_input =
  si_image :: string
  si_command :: "string list"
  si_entrypoint :: "string list"
  si_environment :: "(string, string) btree_map"
  si_depends_on :: "(string, dependency_condition) btree_map"
  si_healthcheck :: "healthcheck_input option"
  si_networks :: "string list"
  si_working_dir :: "string option"
  si_read_only :: "bool option"
  si_volumes :: "service_volume_input list"

record compose_input =
  ci_name :: "string option"
  ci_services :: "(string, service_input) btree_map"
  ci_networks :: "(string, network_input) btree_map"
  ci_volumes :: "(string, volume_input) btree_map"
  ci_guest_profile :: "string option"
  ci_network_policy :: network_policy

definition network_input_default :: network_input where
  "network_input_default = \<lparr>ni_internal = None, ni_driver = None\<rparr>"

subsection \<open>The topology lock\<close>

datatype root_filesystem_mode = ReadOnlyRoot | WritableRoot

record locked_descriptor =
  ld_media_type :: string
  ld_digest :: string
  ld_size :: u64

record locked_image =
  li_source :: string
  li_exact_reference :: string
  li_image_id :: string
  li_index :: "locked_descriptor option"
  li_manifest :: locked_descriptor
  li_config :: locked_descriptor
  li_layers :: "locked_descriptor list"
  li_operating_system :: string
  li_architecture :: string
  li_variant :: "string option"

record locked_network =
  ln_internal :: bool
  ln_driver :: string

record locked_healthcheck =
  lh_command :: "string list"
  lh_interval_ms :: u64
  lh_timeout_ms :: u64
  lh_retries :: u32

record locked_volume =
  lv_persistence_class :: volume_persistence_class
  lv_snapshot_policy :: volume_snapshot_policy
  lv_quota_bytes :: u64
  lv_content_digest :: "string option"

record locked_service =
  ls_image :: locked_image
  ls_command :: "string list"
  ls_entrypoint :: "string list"
  ls_environment :: "(string, string) btree_map"
  ls_depends_on :: "(string, dependency_condition) btree_map"
  ls_healthcheck :: "locked_healthcheck option"
  ls_networks :: "string list"
  ls_working_dir :: string
  ls_root_filesystem :: root_filesystem_mode
  ls_volumes :: "volume_spec list"

record sandbox_policy =
  sp_guest_profile :: guest_profile_identity
  sp_runtime :: string
  sp_memory_bytes_per_service :: u64
  sp_cpu_per_service_millis :: u32
  sp_pids_per_service :: u32
  sp_tmpfs_bytes :: u64
  sp_writable_root_bytes_per_service :: u64
  sp_maximum_output_bytes :: nat
  sp_network :: network_policy

record topology_lock =
  tl_schema_version :: u32
  tl_topology_digest :: string
  tl_name :: string
  tl_services :: "(string, locked_service) btree_map"
  tl_networks :: "(string, locked_network) btree_map"
  tl_volumes :: "(string, locked_volume) btree_map"
  tl_startup_order :: "string list"
  tl_policy :: sandbox_policy

record digest_input =
  di_schema_version :: u32
  di_name :: string
  di_services :: "(string, locked_service) btree_map"
  di_networks :: "(string, locked_network) btree_map"
  di_volumes :: "(string, locked_volume) btree_map"
  di_startup_order :: "string list"
  di_policy :: sandbox_policy

definition sandbox_policy_default :: "sandbox_policy exec" where
  "sandbox_policy_default = exec_bind strict_profile (\<lambda>strict. Done
     \<lparr>sp_guest_profile = profile_identity strict, sp_runtime = ''runsc'',
      sp_memory_bytes_per_service = 128 * 1024 * 1024, sp_cpu_per_service_millis = 500,
      sp_pids_per_service = 96, sp_tmpfs_bytes = 16 * 1024 * 1024,
      sp_writable_root_bytes_per_service = 64 * 1024 * 1024,
      sp_maximum_output_bytes = 1024 * 1024, sp_network = network_policy_default\<rparr>)"

definition lock_digest_input :: "topology_lock \<Rightarrow> digest_input" where
  "lock_digest_input l = \<lparr>di_schema_version = tl_schema_version l, di_name = tl_name l,
     di_services = tl_services l, di_networks = tl_networks l, di_volumes = tl_volumes l,
     di_startup_order = tl_startup_order l, di_policy = tl_policy l\<rparr>"

lemma lock_digest_input_digest [simp]:
  "lock_digest_input (l\<lparr>tl_topology_digest := d\<rparr>) = lock_digest_input l"
  by (simp add: lock_digest_input_def)

lemma lock_digest_input_inj:
  assumes "lock_digest_input a = lock_digest_input b" and "tl_topology_digest a = tl_topology_digest b"
  shows "a = b"
  using assms by (simp add: lock_digest_input_def)

end
