(* ===== verification/Ip_Addr.thy ===== *)
theory Ip_Addr
  imports Rust_Text
begin

text \<open>
  \<open>std::net::IpAddr\<close>: an IPv4 address is its 32-bit value, an IPv6 address its 128-bit
  value. The text parser follows the standard library's: every reader consumes a prefix of
  the input or fails and consumes nothing, an IPv4 number has at most three digits and no
  leading zero, an IPv6 address is eight groups of at most four hexadecimal digits, with at
  most one \<open>::\<close> and possibly a trailing embedded IPv4 address. The lemmas relate masks to
  leading bits.
\<close>

unbundle bit_operations_syntax

datatype ip_addr = V4 u32 | V6 u128

fun is_ipv4 :: "ip_addr \<Rightarrow> bool" where
  "is_ipv4 (V4 _) \<longleftrightarrow> True"
| "is_ipv4 (V6 _) \<longleftrightarrow> False"

definition is_ipv6 :: "ip_addr \<Rightarrow> bool" where
  "is_ipv6 a \<longleftrightarrow> \<not> is_ipv4 a"

subsection \<open>Parsing\<close>

type_synonym 'a reader = "string \<Rightarrow> ('a \<times> string) option"

definition digit_value :: "nat \<Rightarrow> char \<Rightarrow> nat option" where
  "digit_value radix c =
     (let v = (if is_ascii_digit c then code c - 48
               else if is_ascii_lowercase c then code c - 87
               else if is_ascii_uppercase c then code c - 55 else radix)
      in if v < radix then Some v else None)"

fun read_digits :: "nat \<Rightarrow> nat \<Rightarrow> nat \<Rightarrow> nat \<Rightarrow> string \<Rightarrow> (nat \<times> nat \<times> string) option" where
  "read_digits radix max_digits count acc [] = Some (count, acc, [])"
| "read_digits radix max_digits count acc (c # s) =
     (case digit_value radix c of
        None \<Rightarrow> Some (count, acc, c # s)
      | Some d \<Rightarrow> if Suc count > max_digits then None
                  else read_digits radix max_digits (Suc count) (acc * radix + d) s)"

definition read_number :: "nat \<Rightarrow> nat \<Rightarrow> bool \<Rightarrow> nat \<Rightarrow> nat reader" where
  "read_number radix max_digits allow_zero_prefix maximum s =
     (case read_digits radix max_digits 0 0 s of
        None \<Rightarrow> None
      | Some (count, v, rest) \<Rightarrow>
          if count = 0 \<or> (\<not> allow_zero_prefix \<and> starts_with s ''0'' \<and> count > 1) \<or> v > maximum
          then None else Some (v, rest))"

definition read_given_char :: "char \<Rightarrow> unit reader" where
  "read_given_char c s = (case s of [] \<Rightarrow> None | d # rest \<Rightarrow> if d = c then Some ((), rest) else None)"

definition read_separator :: "char \<Rightarrow> nat \<Rightarrow> 'a reader \<Rightarrow> 'a reader" where
  "read_separator sep index inner s =
     (if index = 0 then inner s
      else case read_given_char sep s of None \<Rightarrow> None | Some (_, rest) \<Rightarrow> inner rest)"

fun read_octets :: "nat \<Rightarrow> nat \<Rightarrow> u32 \<Rightarrow> u32 reader" where
  "read_octets 0 index acc s = Some (acc, s)"
| "read_octets (Suc n) index acc s =
     (case read_separator (CHR ''.'') index (read_number 10 3 False 255) s of
        None \<Rightarrow> None
      | Some (v, rest) \<Rightarrow> read_octets n (Suc index) (acc * 256 + of_nat v) rest)"

definition read_ipv4_addr :: "u32 reader" where
  "read_ipv4_addr = read_octets 4 0 0"

text \<open>
  \<open>read_groups limit index s\<close> reads at most \<open>limit\<close> further groups and returns them, whether
  an embedded IPv4 address ended them, and the rest of the input.
\<close>

fun read_groups :: "nat \<Rightarrow> nat \<Rightarrow> string \<Rightarrow> u16 list \<times> bool \<times> string" where
  "read_groups 0 index s = ([], False, s)"
| "read_groups (Suc left) index s =
     (case (if left > 0 then read_separator (CHR '':'') index read_ipv4_addr s else None) of
        Some (v4, rest) \<Rightarrow> ([ucast (drop_bit 16 v4), ucast v4], True, rest)
      | None \<Rightarrow>
          (case read_separator (CHR '':'') index (read_number 16 4 True 65535) s of
             None \<Rightarrow> ([], False, s)
           | Some (g, rest) \<Rightarrow>
               (case read_groups left (Suc index) rest of
                  (gs, v4, rest') \<Rightarrow> (of_nat g # gs, v4, rest'))))"

definition of_groups :: "u16 list \<Rightarrow> u128" where
  "of_groups gs = foldl (\<lambda>acc g. acc * 65536 + ucast g) 0 gs"

definition read_ipv6_addr :: "u128 reader" where
  "read_ipv6_addr s =
     (case read_groups 8 0 s of
        (head, head_ipv4, rest) \<Rightarrow>
          if length head = 8 then Some (of_groups head, rest)
          else if head_ipv4 then None
          else case strip_prefix ''::'' rest of
                 None \<Rightarrow> None
               | Some rest' \<Rightarrow>
                   (case read_groups (8 - (length head + 1)) 0 rest' of
                      (tail, _, rest'') \<Rightarrow>
                        Some (of_groups (head @ replicate (8 - length head - length tail) 0 @ tail),
                              rest'')))"

definition parse_ip :: "string \<Rightarrow> ip_addr option" where
  "parse_ip s =
     (case (case read_ipv4_addr s of
              Some (v, rest) \<Rightarrow> Some (V4 v, rest)
            | None \<Rightarrow> map_option (\<lambda>(v, rest). (V6 v, rest)) (read_ipv6_addr s)) of
        None \<Rightarrow> None
      | Some (a, rest) \<Rightarrow> if rest = [] then Some a else None)"

subsection \<open>Classes of addresses\<close>

definition octet :: "nat \<Rightarrow> u32 \<Rightarrow> nat" where
  "octet i a = unat a div 2 ^ (24 - 8 * i) mod 256"

definition v4_is_loopback :: "u32 \<Rightarrow> bool" where
  "v4_is_loopback a \<longleftrightarrow> octet 0 a = 127"

definition v4_is_private :: "u32 \<Rightarrow> bool" where
  "v4_is_private a \<longleftrightarrow> octet 0 a = 10 \<or> (octet 0 a = 172 \<and> 16 \<le> octet 1 a \<and> octet 1 a \<le> 31) \<or>
     (octet 0 a = 192 \<and> octet 1 a = 168)"

definition v4_is_link_local :: "u32 \<Rightarrow> bool" where
  "v4_is_link_local a \<longleftrightarrow> octet 0 a = 169 \<and> octet 1 a = 254"

definition v4_is_multicast :: "u32 \<Rightarrow> bool" where
  "v4_is_multicast a \<longleftrightarrow> 224 \<le> octet 0 a \<and> octet 0 a \<le> 239"

definition v6_is_multicast :: "u128 \<Rightarrow> bool" where
  "v6_is_multicast a \<longleftrightarrow> drop_bit 120 a = 255"

subsection \<open>Leading bits\<close>

lemma and_high_mask_eq_iff:
  fixes a b :: "'a::len word"
  assumes "k \<le> LENGTH('a)"
  shows "a AND push_bit k (- 1) = b AND push_bit k (- 1) \<longleftrightarrow> drop_bit k a = drop_bit k b"
proof
  assume *: "a AND push_bit k (- 1) = b AND push_bit k (- 1)"
  show "drop_bit k a = drop_bit k b"
  proof (rule bit_word_eqI)
    fix n assume "n < LENGTH('a)"
    have "bit (a AND push_bit k (- 1)) (k + n) = bit (b AND push_bit k (- 1)) (k + n)"
      using * by simp
    then show "bit (drop_bit k a) n = bit (drop_bit k b) n"
      by (auto simp: bit_simps dest: bit_imp_le_length)
  qed
next
  assume *: "drop_bit k a = drop_bit k b"
  show "a AND push_bit k (- 1) = b AND push_bit k (- 1)"
  proof (rule bit_word_eqI)
    fix n assume "n < LENGTH('a)"
    have "bit (drop_bit k a) (n - k) = bit (drop_bit k b) (n - k)" using * by simp
    then show "bit (a AND push_bit k (- 1)) n = bit (b AND push_bit k (- 1)) n"
      by (auto simp: bit_simps)
  qed
qed

lemma drop_bit_eq_iff_bits:
  "drop_bit k a = drop_bit k b \<longleftrightarrow> (\<forall>i. k \<le> i \<longrightarrow> bit a i = bit b i)" for a b :: "'a::len word"
proof
  assume *: "drop_bit k a = drop_bit k b"
  show "\<forall>i. k \<le> i \<longrightarrow> bit a i = bit b i"
  proof (intro allI impI)
    fix i assume "k \<le> i"
    have "bit (drop_bit k a) (i - k) = bit (drop_bit k b) (i - k)" using * by simp
    with \<open>k \<le> i\<close> show "bit a i = bit b i" by (simp add: bit_simps)
  qed
qed (auto intro: bit_word_eqI simp: bit_simps)

lemma unat_drop_bit: "unat (drop_bit k a) = unat a div 2 ^ k" for a :: "'a::len word"
  by (simp only: unsigned_drop_bit_eq) (simp add: drop_bit_eq_div take_bit_nat_eq_self)

lemma octet_0: "octet 0 a = unat a div 2 ^ 24"
  using unat_u32_lt [of a] by (simp add: octet_def)

lemma octet_0_1: "octet 0 a * 256 + octet 1 a = unat a div 2 ^ 16"
proof -
  have "unat a div 2 ^ 16 div 256 = unat a div 2 ^ 24"
    by (simp add: div_mult2_eq [symmetric])
  then show ?thesis
    unfolding octet_0 octet_def [of 1] using div_mult_mod_eq [of "unat a div 2 ^ 16" 256] by simp
qed

lemma div_range: "0 < k \<Longrightarrow> n div k = m \<longleftrightarrow> k * m \<le> n \<and> n < k * Suc m" for n k m :: nat
  by (metis div_nat_eqI dividend_less_times_div times_div_less_eq_dividend mult_Suc_right add.commute)

lemma octets_range:
  assumes "h < 256"
  shows "octet 0 a = m \<and> l \<le> octet 1 a \<and> octet 1 a \<le> h \<longleftrightarrow>
    256 * m + l \<le> unat a div 2 ^ 16 \<and> unat a div 2 ^ 16 \<le> 256 * m + h"
proof -
  have "octet 1 a < 256" by (simp add: octet_def)
  then show ?thesis
    unfolding octet_0_1 [of a, symmetric] using assms
    by (cases "octet 0 a" m rule: linorder_cases) auto
qed

lemma octets_eq: "l < 256 \<Longrightarrow> octet 0 a = m \<and> octet 1 a = l \<longleftrightarrow> unat a div 2 ^ 16 = 256 * m + l"
  using octets_range [of l a m l] by auto

end
