(* ===== verification/Network_Policy.thy ===== *)
theory Network_Policy
  imports Topology Ip_Addr
begin

text \<open>
  The network policy of \<^verbatim>\<open>crates/sandbox-oci/src/model.rs\<close>: its validation, the decisions
  \<open>permits_http\<close>, \<open>permits_dns_name\<close> and \<open>permits_tcp\<close>, CIDR blocks and the destinations no
  policy may open.

  Four \<open>expect\<close> calls parse a CIDR text a second time after \<open>validate_cidr\<close>; they are
  \<open>cidr_parts\<close>, and the code around them returns in \<open>exec\<close>. \<open>network_address\<close> subtracts the
  prefix length from the width; every caller has checked that it does not exceed the width.
\<close>

subsection \<open>Domains\<close>

definition has_duplicates :: "'a list \<Rightarrow> bool" where
  "has_duplicates values \<longleftrightarrow> length (remdups values) \<noteq> length values"

definition label_ok :: "string \<Rightarrow> bool" where
  "label_ok label \<longleftrightarrow> \<not> (label = [] \<or> length label > 63 \<or> starts_with label ''-'' \<or>
     ends_with label ''-'' \<or>
     \<not> list_all (\<lambda>b. is_ascii_lowercase b \<or> is_ascii_digit b \<or> b = CHR ''-'') label)"

definition canonical_domain :: "string \<Rightarrow> string option" where
  "canonical_domain domain =
     (let domain = (case strip_suffix ''.'' domain of Some d \<Rightarrow> d | None \<Rightarrow> domain) in
      if domain = [] \<or> length domain > 253 \<or> list_ex is_ascii_uppercase domain \<or>
         list_ex (\<lambda>label. \<not> label_ok label) (split_on (CHR ''.'') domain)
      then None else Some domain)"

definition validate_domain_pattern :: "string \<Rightarrow> (unit, string) result" where
  "validate_domain_pattern pattern =
     (let domain = (case strip_prefix ''*.'' pattern of Some d \<Rightarrow> d | None \<Rightarrow> pattern) in
      if canonical_domain domain \<noteq> Some domain \<or> parse_ip domain \<noteq> None
      then Err (''domain pattern `'' @ pattern @ ''` is invalid'') else Ok ())"

definition domain_matches :: "string \<Rightarrow> string \<Rightarrow> bool" where
  "domain_matches pattern domain \<longleftrightarrow>
     (case strip_prefix ''*.'' pattern of
        None \<Rightarrow> pattern = domain
      | Some suffix \<Rightarrow> length domain > length suffix \<and> ends_with domain suffix \<and>
          domain ! (length domain - length suffix - 1) = CHR ''.'')"

subsection \<open>CIDR blocks\<close>

fun network_address :: "ip_addr \<Rightarrow> nat \<Rightarrow> ip_addr" where
  "network_address (V4 address) prefix =
     V4 (address AND (if prefix = 0 then 0 else push_bit (32 - prefix) (- 1)))"
| "network_address (V6 address) prefix =
     V6 (address AND (if prefix = 0 then 0 else push_bit (128 - prefix) (- 1)))"

definition validate_cidr :: "string \<Rightarrow> (unit, string) result" where
  "validate_cidr val =
     and_then (ok_or (''destination CIDR `'' @ val @ ''` is invalid'') (split_once ''/'' val))
       (\<lambda>(address, prefix).
     and_then (ok_or (''destination CIDR `'' @ val @ ''` is invalid'') (parse_ip address))
       (\<lambda>address.
     and_then (ok_or (''destination CIDR `'' @ val @ ''` is invalid'') (parse_unsigned 255 prefix))
       (\<lambda>prefix.
        let maximum = (if is_ipv4 address then 32 else 128) in
        if prefix > maximum \<or> network_address address prefix \<noteq> address
        then Err (''destination CIDR `'' @ val @ ''` is not canonical'') else Ok ())))"

definition expect :: "'a option \<Rightarrow> 'a exec" where
  "expect x = (case x of None \<Rightarrow> Panic | Some v \<Rightarrow> Done v)"

definition cidr_parts :: "string \<Rightarrow> (ip_addr \<times> nat) exec" where
  "cidr_parts val =
     exec_bind (expect (split_once ''/'' val)) (\<lambda>(network, prefix).
     exec_bind (expect (parse_ip network)) (\<lambda>network.
     exec_bind (expect (parse_unsigned 255 prefix)) (\<lambda>prefix. Done (network, prefix))))"

definition cidr_contains :: "string \<Rightarrow> ip_addr \<Rightarrow> (bool, string) result exec" where
  "cidr_contains val destination =
     exec_then (Done (validate_cidr val)) (\<lambda>_.
     exec_bind (cidr_parts val) (\<lambda>(address, prefix).
       Done (Ok (is_ipv4 address = is_ipv4 destination \<and>
                 network_address destination prefix = address))))"

definition unwrap_or :: "'a \<Rightarrow> ('a, 'e) result \<Rightarrow> 'a" where
  "unwrap_or d r = (case r of Inl _ \<Rightarrow> d | Inr x \<Rightarrow> x)"

subsection \<open>Validation\<close>

definition http_rule_validate :: "http_egress_rule \<Rightarrow> (unit, string) result" where
  "http_rule_validate rule =
     (if hr_domains rule = [] \<or> length (hr_domains rule) > 64 \<or>
         hr_schemes rule = [] \<or> length (hr_schemes rule) > 2 \<or>
         hr_ports rule = [] \<or> length (hr_ports rule) > 32 \<or> 0 \<in> set (hr_ports rule) \<or>
         has_duplicates (hr_domains rule) \<or> has_duplicates (hr_schemes rule) \<or>
         has_duplicates (hr_ports rule)
      then Err ''HTTP egress rule has invalid or repeated values''
      else for_each validate_domain_pattern (hr_domains rule))"

definition sandbox_address :: ip_addr where
  "sandbox_address = V4 0x0A000001"

definition tcp_rule_validate :: "tcp_egress_rule \<Rightarrow> (unit, string) result exec" where
  "tcp_rule_validate rule =
     exec_then (Done (validate_cidr (tr_destination_cidr rule))) (\<lambda>_.
     exec_bind (cidr_parts (tr_destination_cidr rule)) (\<lambda>(network, prefix).
     exec_bind
       (if (is_ipv4 network \<and> prefix < 8) \<or> (is_ipv6 network \<and> prefix < 32) \<or>
           (case network of V4 address \<Rightarrow> octet 0 address = 10 | V6 _ \<Rightarrow> False)
        then Done True
        else exec_bind (cidr_contains (tr_destination_cidr rule) sandbox_address)
               (\<lambda>r. Done (unwrap_or False r)))
       (\<lambda>overlaps.
          Done (if overlaps
                then Err ''TCP destination CIDR is unrestricted or overlaps sandbox infrastructure''
                else if tr_ports rule = [] \<or> length (tr_ports rule) > 32 \<or> 0 \<in> set (tr_ports rule) \<or>
                        list_ex (\<lambda>port. port = 53 \<or> port = 853) (tr_ports rule) \<or>
                        has_duplicates (tr_ports rule)
                then Err ''TCP egress rule has invalid or repeated ports''
                else Ok ()))))"

definition limits_out_of_bounds :: "network_policy \<Rightarrow> bool" where
  "limits_out_of_bounds p \<longleftrightarrow>
     (let dns = np_dns p; limits = np_limits p in
      dns_maximum_queries dns = 0 \<or> dns_maximum_queries dns > 65536 \<or>
      dns_maximum_response_bytes dns < 512 \<or> dns_maximum_response_bytes dns > 65535 \<or>
      dns_maximum_total_bytes dns < ucast (dns_maximum_response_bytes dns) \<or>
      dns_maximum_total_bytes dns > 1024 * 1024 * 1024 \<or>
      el_maximum_connections limits = 0 \<or> el_maximum_connections limits > 4096 \<or>
      el_maximum_bytes limits = 0 \<or> el_maximum_bytes limits > 1024 * 1024 * 1024 * 1024 \<or>
      el_bandwidth_bytes_per_second limits = 0 \<or>
      el_bandwidth_bytes_per_second limits > 10 * 1024 * 1024 * 1024 \<or>
      el_maximum_request_bytes limits = 0 \<or>
      el_maximum_request_bytes limits > el_maximum_bytes limits \<or>
      el_maximum_response_bytes limits = 0 \<or>
      el_maximum_response_bytes limits > el_maximum_bytes limits \<or>
      \<not> (100 \<le> el_connect_timeout_ms limits \<and> el_connect_timeout_ms limits \<le> 120000) \<or>
      \<not> (100 \<le> el_idle_timeout_ms limits \<and> el_idle_timeout_ms limits \<le> 300000))"

definition profile_check :: "network_policy \<Rightarrow> (unit, string) result" where
  "profile_check p =
     (case np_profile p of
        NoNetwork \<Rightarrow>
          if np_http_rules p \<noteq> [] \<or> np_tcp_rules p \<noteq> []
          then Err ''the none profile cannot contain egress rules'' else Ok ()
      | HttpConnect \<Rightarrow>
          if np_http_rules p = [] \<or> np_tcp_rules p \<noteq> []
          then Err ''the http_connect profile requires HTTP rules and forbids TCP rules'' else Ok ()
      | RestrictedTcp \<Rightarrow>
          if np_tcp_rules p = [] \<or> np_http_rules p \<noteq> []
          then Err ''the restricted_tcp profile requires TCP rules and forbids HTTP rules''
          else Ok ())"

definition ingress_error :: string where
  "ingress_error = ''ingress rule has an unknown service, invalid port, or duplicate''"

definition network_validate ::
  "network_policy \<Rightarrow> (string, locked_service) btree_map \<Rightarrow> (unit, string) result exec" where
  "network_validate p services =
     (if length (np_http_rules p) > 64 \<or> length (np_tcp_rules p) > 64 \<or> length (np_ingress p) > 16
      then Done (Err ''network policy contains too many rules'')
      else exec_then (Done (profile_check p)) (\<lambda>_.
        exec_then (Done (for_each http_rule_validate (np_http_rules p))) (\<lambda>_.
        exec_then (exec_each tcp_rule_validate (np_tcp_rules p)) (\<lambda>_.
        if limits_out_of_bounds p
        then Done (Err ''network limits are outside their accepted bounds'')
        else Done (and_then
          (try_fold (insert_new (\<lambda>r. ir_container_port r \<noteq> 0 \<and> bt_contains services (ir_service r))
                                (\<lambda>r. (ir_service r, ir_container_port r)) ingress_error)
             {} (np_ingress p))
          (\<lambda>_. Ok ()))))))"

subsection \<open>Decisions\<close>

definition permits_http :: "network_policy \<Rightarrow> string \<Rightarrow> http_scheme \<Rightarrow> u16 \<Rightarrow> bool" where
  "permits_http p domain scheme port \<longleftrightarrow> np_profile p = HttpConnect \<and>
     (case canonical_domain domain of
        None \<Rightarrow> False
      | Some domain \<Rightarrow>
          list_ex (\<lambda>rule. scheme \<in> set (hr_schemes rule) \<and> port \<in> set (hr_ports rule) \<and>
            list_ex (\<lambda>pattern. domain_matches pattern domain) (hr_domains rule)) (np_http_rules p))"

definition permits_dns_name :: "network_policy \<Rightarrow> string \<Rightarrow> bool" where
  "permits_dns_name p domain \<longleftrightarrow>
     (case canonical_domain domain of
        None \<Rightarrow> False
      | Some domain \<Rightarrow>
          list_ex (\<lambda>pattern. domain_matches pattern domain) (concat (map hr_domains (np_http_rules p))))"

definition permits_tcp :: "network_policy \<Rightarrow> ip_addr \<Rightarrow> u16 \<Rightarrow> bool exec" where
  "permits_tcp p destination port =
     (if np_profile p \<noteq> RestrictedTcp then Done False
      else exec_any (\<lambda>rule.
        if port \<in> set (tr_ports rule)
        then exec_bind (cidr_contains (tr_destination_cidr rule) destination)
               (\<lambda>r. Done (unwrap_or False r))
        else Done False) (np_tcp_rules p))"

fun is_protected_destination :: "ip_addr \<Rightarrow> bool" where
  "is_protected_destination (V4 address) \<longleftrightarrow>
     address = 0 \<or> v4_is_loopback address \<or> v4_is_private address \<or> v4_is_link_local address \<or>
     v4_is_multicast address \<or> address = 0xffffffff \<or>
     address AND 0xffc00000 = 0x64400000 \<or> address AND 0xffff0000 = 0xc6120000 \<or>
     address AND 0xff000000 = 0 \<or> address AND 0xf0000000 = 0xf0000000"
| "is_protected_destination (V6 address) \<longleftrightarrow>
     address = 0 \<or> address = 1 \<or> v6_is_multicast address \<or>
     drop_bit 121 address = 0x7e \<or> drop_bit 118 address = 0x3fa \<or> drop_bit 96 address = 0x20010db8"

subsection \<open>Blocks as leading bits\<close>

fun address_width :: "ip_addr \<Rightarrow> nat" where
  "address_width (V4 _) = 32"
| "address_width (V6 _) = 128"

fun address_bit :: "ip_addr \<Rightarrow> nat \<Rightarrow> bool" where
  "address_bit (V4 a) i = bit a i"
| "address_bit (V6 a) i = bit a i"

text \<open>The reference notion: same family and the first \<open>prefix\<close> bits agree.\<close>

definition in_block :: "ip_addr \<Rightarrow> nat \<Rightarrow> ip_addr \<Rightarrow> bool" where
  "in_block network prefix destination \<longleftrightarrow> is_ipv4 network = is_ipv4 destination \<and>
     (\<forall>i. address_width network - prefix \<le> i \<longrightarrow> address_bit destination i = address_bit network i)"

lemma width_by_family: "address_width a = (if is_ipv4 a then 32 else 128)"
  by (cases a) simp_all

lemma prefix_mask:
  "(if p = 0 then 0 else push_bit (LENGTH('a) - p) (- 1)) = (push_bit (LENGTH('a) - p) (- 1) :: 'a::len word)"
  by (auto intro: bit_word_eqI simp: bit_simps)

lemma network_address_eq_iff:
  assumes "is_ipv4 a = is_ipv4 b" and "network_address b p = b"
  shows "network_address a p = b \<longleftrightarrow>
    (\<forall>i. address_width b - p \<le> i \<longrightarrow> address_bit a i = address_bit b i)"
proof (cases b)
  case (V4 y)
  with assms obtain x where x: "a = V4 x" by (cases a) auto
  have m: "(if p = 0 then 0 else push_bit (32 - p) (- 1)) = (push_bit (32 - p) (- 1) :: u32)"
    using prefix_mask [where 'a = 32, of p] by (simp del: push_bit_minus_one_eq_not_mask)
  have "network_address (V4 y) p = V4 y" using assms(2) unfolding V4 .
  then have y: "y AND push_bit (32 - p) (- 1) = y" by (simp only: network_address.simps m ip_addr.inject)
  have "network_address a p = b \<longleftrightarrow> x AND push_bit (32 - p) (- 1) = y AND push_bit (32 - p) (- 1)"
    unfolding x V4 network_address.simps m y by simp
  also have "\<dots> \<longleftrightarrow> drop_bit (32 - p) x = drop_bit (32 - p) y"
    by (rule and_high_mask_eq_iff) simp
  finally show ?thesis by (simp add: drop_bit_eq_iff_bits x V4)
next
  case (V6 y)
  with assms obtain x where x: "a = V6 x" by (cases a) auto
  have m: "(if p = 0 then 0 else push_bit (128 - p) (- 1)) = (push_bit (128 - p) (- 1) :: u128)"
    using prefix_mask [where 'a = 128, of p] by (simp del: push_bit_minus_one_eq_not_mask)
  have "network_address (V6 y) p = V6 y" using assms(2) unfolding V6 .
  then have y: "y AND push_bit (128 - p) (- 1) = y" by (simp only: network_address.simps m ip_addr.inject)
  have "network_address a p = b \<longleftrightarrow> x AND push_bit (128 - p) (- 1) = y AND push_bit (128 - p) (- 1)"
    unfolding x V6 network_address.simps m y by simp
  also have "\<dots> \<longleftrightarrow> drop_bit (128 - p) x = drop_bit (128 - p) y"
    by (rule and_high_mask_eq_iff) simp
  finally show ?thesis by (simp add: drop_bit_eq_iff_bits x V6)
qed

lemma expect_simps [simp]: "expect (Some x) = Done x" "expect None = Panic"
  "expect y = Done x \<longleftrightarrow> y = Some x"
  by (auto simp: expect_def split: option.splits)

lemma validate_cidr_Ok:
  "validate_cidr v = Ok () \<longleftrightarrow> (\<exists>network prefix. cidr_parts v = Done (network, prefix) \<and>
     prefix \<le> address_width network \<and> network_address network prefix = network)"
  by (auto simp: validate_cidr_def cidr_parts_def width_by_family Let_def)

lemma cidr_contains_eq:
  "cidr_contains v destination =
     (case validate_cidr v of
        Inl e \<Rightarrow> Done (Err e)
      | Inr _ \<Rightarrow> (case cidr_parts v of
          Panic \<Rightarrow> Panic
        | Done (network, prefix) \<Rightarrow> Done (Ok (in_block network prefix destination))))"
proof (cases "validate_cidr v")
  case (Inr u)
  then obtain network prefix where parts: "cidr_parts v = Done (network, prefix)"
    and canonical: "network_address network prefix = network"
    using validate_cidr_Ok [of v] by auto
  have "is_ipv4 network = is_ipv4 destination \<and> network_address destination prefix = network \<longleftrightarrow>
    in_block network prefix destination"
    using network_address_eq_iff [OF _ canonical, of destination] by (auto simp: in_block_def)
  with Inr parts show ?thesis by (simp add: cidr_contains_def)
qed (simp add: cidr_contains_def)

definition rule_block :: "tcp_egress_rule \<Rightarrow> ip_addr \<Rightarrow> bool" where
  "rule_block rule destination \<longleftrightarrow>
     (case validate_cidr (tr_destination_cidr rule) of
        Inl _ \<Rightarrow> False
      | Inr _ \<Rightarrow> (case cidr_parts (tr_destination_cidr rule) of
          Panic \<Rightarrow> False
        | Done (network, prefix) \<Rightarrow> in_block network prefix destination))"

lemma cidr_contains_rule:
  "exec_bind (cidr_contains (tr_destination_cidr rule) destination) (\<lambda>r. Done (unwrap_or False r)) =
     Done (rule_block rule destination)"
proof (cases "validate_cidr (tr_destination_cidr rule)")
  case (Inr u)
  then obtain network prefix where "cidr_parts (tr_destination_cidr rule) = Done (network, prefix)"
    using validate_cidr_Ok [of "tr_destination_cidr rule"] by auto
  with Inr show ?thesis by (simp add: cidr_contains_eq rule_block_def unwrap_or_def)
qed (simp add: cidr_contains_eq rule_block_def unwrap_or_def)

lemma permits_tcp_eq:
  "permits_tcp p destination port = Done (np_profile p = RestrictedTcp \<and>
     list_ex (\<lambda>rule. port \<in> set (tr_ports rule) \<and> rule_block rule destination) (np_tcp_rules p))"
proof -
  have "exec_any (\<lambda>rule.
      if port \<in> set (tr_ports rule)
      then exec_bind (cidr_contains (tr_destination_cidr rule) destination)
             (\<lambda>r. Done (unwrap_or False r))
      else Done False) (np_tcp_rules p) =
    Done (list_ex (\<lambda>rule. port \<in> set (tr_ports rule) \<and> rule_block rule destination) (np_tcp_rules p))"
    by (rule exec_any_pure) (simp add: cidr_contains_rule)
  then show ?thesis by (simp add: permits_tcp_def)
qed

lemma tcp_rule_validate_no_panic: "tcp_rule_validate rule \<noteq> Panic"
proof (cases "validate_cidr (tr_destination_cidr rule)")
  case (Inr u)
  then obtain network prefix where "cidr_parts (tr_destination_cidr rule) = Done (network, prefix)"
    using validate_cidr_Ok [of "tr_destination_cidr rule"] by auto
  with Inr show ?thesis by (simp add: tcp_rule_validate_def cidr_contains_rule)
qed (simp add: tcp_rule_validate_def)

lemma network_validate_no_panic: "network_validate p services \<noteq> Panic"
proof -
  have "exec_each tcp_rule_validate (np_tcp_rules p) \<noteq> Panic"
    by (intro exec_each_no_panic tcp_rule_validate_no_panic)
  then show ?thesis by (simp add: network_validate_def exec_then_eq_Panic)
qed

lemma tcp_rule_validate_Ok:
  assumes "tcp_rule_validate rule = Done (Ok ())"
  obtains network prefix where "cidr_parts (tr_destination_cidr rule) = Done (network, prefix)"
    and "prefix \<le> address_width network" and "network_address network prefix = network"
    and "is_ipv4 network \<Longrightarrow> 8 \<le> prefix" and "\<not> is_ipv4 network \<Longrightarrow> 32 \<le> prefix"
    and "\<And>a. network = V4 a \<Longrightarrow> octet 0 a \<noteq> 10"
    and "0 \<notin> set (tr_ports rule)" and "53 \<notin> set (tr_ports rule)" and "853 \<notin> set (tr_ports rule)"
    and "tr_ports rule \<noteq> []"
proof -
  from assms have "validate_cidr (tr_destination_cidr rule) = Ok ()"
    by (simp add: tcp_rule_validate_def)
  then obtain network prefix where parts: "cidr_parts (tr_destination_cidr rule) = Done (network, prefix)"
    and canonical: "prefix \<le> address_width network" "network_address network prefix = network"
    using validate_cidr_Ok [of "tr_destination_cidr rule"] by auto
  show ?thesis
    using assms by (intro that [OF parts canonical])
      (auto simp: tcp_rule_validate_def parts cidr_contains_rule is_ipv6_def list_ex_iff
        split: if_splits ip_addr.splits)
qed

lemma network_validate_Ok:
  assumes "network_validate p services = Done (Ok ())"
  shows "profile_check p = Ok ()" "\<And>r. r \<in> set (np_http_rules p) \<Longrightarrow> http_rule_validate r = Ok ()"
    "\<And>r. r \<in> set (np_tcp_rules p) \<Longrightarrow> tcp_rule_validate r = Done (Ok ())"
    "\<not> limits_out_of_bounds p"
    "\<And>r. r \<in> set (np_ingress p) \<Longrightarrow> bt_contains services (ir_service r) \<and> ir_container_port r \<noteq> 0"
    "distinct (map (\<lambda>r. (ir_service r, ir_container_port r)) (np_ingress p))"
  using assms by (auto simp: network_validate_def try_fold_insert_new split: if_splits)

lemma block_keeps_first_octet:
  assumes "in_block (V4 network) prefix (V4 destination)" and "8 \<le> prefix"
  shows "octet 0 destination = octet 0 network"
proof -
  have "drop_bit 24 destination = drop_bit 24 network"
    using assms unfolding drop_bit_eq_iff_bits in_block_def by auto
  then have "unat (drop_bit 24 destination) = unat (drop_bit 24 network)" by simp
  then show ?thesis by (simp only: octet_0 unat_drop_bit)
qed

subsection \<open>Properties\<close>

lemma domain_matches_wildcard:
  "domain_matches (''*.'' @ suffix) domain \<longleftrightarrow>
     (\<exists>labels. labels \<noteq> [] \<and> split_on (CHR ''.'') domain = labels @ split_on (CHR ''.'') suffix)"
proof -
  have strip: "strip_prefix ''*.'' (''*.'' @ suffix) = Some suffix" by (rule strip_prefix_append)
  have "domain_matches (''*.'' @ suffix) domain \<longleftrightarrow>
      length domain > length suffix \<and> ends_with domain suffix \<and>
      domain ! (length domain - length suffix - 1) = CHR ''.''"
    unfolding domain_matches_def strip by simp
  also have "\<dots> \<longleftrightarrow> (\<exists>r. domain = r @ CHR ''.'' # suffix)"
  proof
    assume *: "length domain > length suffix \<and> ends_with domain suffix \<and>
      domain ! (length domain - length suffix - 1) = CHR ''.''"
    then obtain r where r: "domain = r @ suffix" by (auto simp: ends_with_iff)
    with * have "r \<noteq> []" by auto
    with r * have "last r = CHR ''.''" by (simp add: nth_append last_conv_nth)
    with r \<open>r \<noteq> []\<close> have "domain = butlast r @ CHR ''.'' # suffix"
      by (metis append_Cons append_Nil append_assoc append_butlast_last_id)
    then show "\<exists>r. domain = r @ CHR ''.'' # suffix" ..
  next
    assume "\<exists>r. domain = r @ CHR ''.'' # suffix"
    then obtain r where r: "domain = r @ CHR ''.'' # suffix" ..
    then have "domain = (r @ ''.'') @ suffix" by simp
    then have "ends_with domain suffix" unfolding ends_with_iff ..
    with r show "length domain > length suffix \<and> ends_with domain suffix \<and>
      domain ! (length domain - length suffix - 1) = CHR ''.''"
      by simp
  qed
  finally show ?thesis by (simp only: split_on_suffix)
qed

text \<open>
  C33: The HTTP decision is label-wise: a request is permitted exactly when the profile is
  \<open>http_connect\<close>, the name is a canonical domain, and one rule lists its scheme, its port and
  a pattern that is the name itself or \<open>*.\<close> followed by a proper suffix of the name's labels.
  No name that merely ends in the text of a pattern is permitted.
\<close>

theorem permitted_http_is_declared:
  "permits_http p name scheme port \<longleftrightarrow> np_profile p = HttpConnect \<and>
     (\<exists>domain rule pattern. canonical_domain name = Some domain \<and>
        rule \<in> set (np_http_rules p) \<and> scheme \<in> set (hr_schemes rule) \<and> port \<in> set (hr_ports rule) \<and>
        pattern \<in> set (hr_domains rule) \<and>
        (pattern = domain \<and> \<not> starts_with pattern ''*.'' \<or>
         (\<exists>suffix labels. pattern = ''*.'' @ suffix \<and> labels \<noteq> [] \<and>
            split_on (CHR ''.'') domain = labels @ split_on (CHR ''.'') suffix)))"
proof -
  have pattern: "domain_matches pattern domain \<longleftrightarrow>
      pattern = domain \<and> \<not> starts_with pattern ''*.'' \<or>
      (\<exists>suffix labels. pattern = ''*.'' @ suffix \<and> labels \<noteq> [] \<and>
         split_on (CHR ''.'') domain = labels @ split_on (CHR ''.'') suffix)" for pattern domain
  proof (cases "starts_with pattern ''*.''")
    case True
    then obtain suffix where "pattern = ''*.'' @ suffix" by (auto simp: starts_with_iff)
    then show ?thesis using domain_matches_wildcard [of suffix domain] by auto
  next
    case False
    then have strip: "strip_prefix ''*.'' pattern = None" by simp
    have "\<nexists>suffix. pattern = ''*.'' @ suffix" using False by (simp only: starts_with_iff not_False_eq_True)
    with False show ?thesis unfolding domain_matches_def strip by auto
  qed
  show ?thesis
    unfolding permits_http_def by (auto simp: list_ex_iff pattern split: option.splits)
qed

text \<open>
  C8: Under a validated policy a permitted TCP connection stays inside a declared block: its
  port is nonzero and neither 53 nor 853, the leading bits of the destination agree with the
  block of a rule that lists the port, the block is no wider than /8 (IPv4) or /32 (IPv6),
  and an IPv4 destination is outside 10.0.0.0/8, where the sandbox infrastructure lives. The
  decision itself always returns.
\<close>

theorem permitted_tcp_is_confined:
  assumes "network_validate p services = Done (Ok ())"
  shows "permits_tcp p destination port \<noteq> Panic \<and>
    (permits_tcp p destination port = Done True \<longrightarrow>
       port \<notin> {0, 53, 853} \<and>
       (\<exists>rule network prefix. rule \<in> set (np_tcp_rules p) \<and> port \<in> set (tr_ports rule) \<and>
          cidr_parts (tr_destination_cidr rule) = Done (network, prefix) \<and>
          in_block network prefix destination \<and> (if is_ipv4 network then 8 else 32) \<le> prefix) \<and>
       (\<forall>a. destination = V4 a \<longrightarrow> unat a div 2 ^ 24 \<noteq> 10))"
proof (intro conjI impI)
  show "permits_tcp p destination port \<noteq> Panic" by (simp add: permits_tcp_eq)
  assume "permits_tcp p destination port = Done True"
  then obtain rule where rule: "rule \<in> set (np_tcp_rules p)" "port \<in> set (tr_ports rule)"
    and block: "rule_block rule destination"
    by (auto simp: permits_tcp_eq list_ex_iff)
  obtain network prefix where parts: "cidr_parts (tr_destination_cidr rule) = Done (network, prefix)"
    and v4: "is_ipv4 network \<Longrightarrow> 8 \<le> prefix" and v6: "\<not> is_ipv4 network \<Longrightarrow> 32 \<le> prefix"
    and ten: "\<And>a. network = V4 a \<Longrightarrow> octet 0 a \<noteq> 10"
    and ports: "0 \<notin> set (tr_ports rule)" "53 \<notin> set (tr_ports rule)" "853 \<notin> set (tr_ports rule)"
    using tcp_rule_validate_Ok [OF network_validate_Ok(3) [OF assms rule(1)]] by metis
  have inside: "in_block network prefix destination"
    using block parts by (auto simp: rule_block_def split: sum.splits)
  show "port \<notin> {0, 53, 853}" using rule(2) ports by auto
  show "\<exists>rule network prefix. rule \<in> set (np_tcp_rules p) \<and> port \<in> set (tr_ports rule) \<and>
      cidr_parts (tr_destination_cidr rule) = Done (network, prefix) \<and>
      in_block network prefix destination \<and> (if is_ipv4 network then 8 else 32) \<le> prefix"
    using rule parts inside v4 v6 by (intro exI [of _ rule] exI [of _ network] exI [of _ prefix]) simp
  show "\<forall>a. destination = V4 a \<longrightarrow> unat a div 2 ^ 24 \<noteq> 10"
  proof (intro allI impI)
    fix a assume a: "destination = V4 a"
    with inside obtain n where n: "network = V4 n" by (cases network) (auto simp: in_block_def)
    have "octet 0 a = octet 0 n"
      using inside v4 a n by (intro block_keeps_first_octet) simp_all
    then show "unat a div 2 ^ 24 \<noteq> 10" using ten [OF n] unfolding octet_0 by metis
  qed
qed

definition sample_tcp_policy :: network_policy where
  "sample_tcp_policy = network_policy_default\<lparr>np_profile := RestrictedTcp,
     np_tcp_rules := [\<lparr>tr_destination_cidr = ''203.0.113.0/24'', tr_ports = [5432]\<rparr>]\<rparr>"

lemma sample_cidr: "cidr_parts ''203.0.113.0/24'' = Done (V4 0xCB007100, 24)"
  by code_simp

lemma sample_cidr_valid: "validate_cidr ''203.0.113.0/24'' = Ok ()"
  unfolding validate_cidr_Ok sample_cidr by (simp add: mask_eq_exp_minus_1)

lemma sample_tcp_policy_valid: "network_validate sample_tcp_policy [] = Done (Ok ())"
  by (simp add: network_validate_def sample_tcp_policy_def policy_default_defs profile_check_def
    tcp_rule_validate_def sample_cidr sample_cidr_valid cidr_contains_def octet_def sandbox_address_def
    mask_eq_exp_minus_1 has_duplicates_def unwrap_or_def limits_out_of_bounds_def is_ipv6_def)

lemma sample_tcp_policy_permits: "permits_tcp sample_tcp_policy (V4 0xCB007107) 5432 = Done True"
  by (simp add: sample_tcp_policy_def policy_default_defs permits_tcp_def sample_cidr sample_cidr_valid cidr_contains_def
    mask_eq_exp_minus_1 unwrap_or_def)

theorem permitted_tcp_is_confined_witness:
  "network_validate sample_tcp_policy [] = Done (Ok ()) \<and>
   permits_tcp sample_tcp_policy (V4 0xCB007107) 5432 = Done True \<and>
   (\<exists>rule network prefix. rule \<in> set (np_tcp_rules sample_tcp_policy) \<and>
      cidr_parts (tr_destination_cidr rule) = Done (network, prefix) \<and>
      in_block network prefix (V4 0xCB007107) \<and> (if is_ipv4 network then 8 else 32) \<le> prefix)"
  using permitted_tcp_is_confined [OF sample_tcp_policy_valid, of "V4 0xCB007107" 5432]
    sample_tcp_policy_valid sample_tcp_policy_permits by blast

lemma and_numeral_mask:
  fixes a c :: u32
  assumes "m = push_bit k (- 1)" and "c AND m = c"
  shows "a AND m = c \<longleftrightarrow> unat a div 2 ^ k = unat c div 2 ^ k"
proof -
  have "a AND m = c \<longleftrightarrow> a AND m = c AND m" using assms(2) by simp
  also have "\<dots> \<longleftrightarrow> drop_bit k a = drop_bit k c"
  proof (cases "k \<le> 32")
    case True
    then show ?thesis unfolding assms(1) by (intro and_high_mask_eq_iff) simp
  next
    case False
    then have "drop_bit k x = 0" for x :: u32
      by (intro bit_word_eqI) (auto simp: bit_simps dest: bit_imp_le_length)
    moreover have "push_bit k (- 1) = (0 :: u32)"
      using False by (intro bit_word_eqI) (auto simp: bit_simps)
    ultimately show ?thesis by (simp add: assms(1))
  qed
  also have "\<dots> \<longleftrightarrow> unat a div 2 ^ k = unat c div 2 ^ k"
    unfolding word_unat_eq_iff [of "drop_bit k a"] unat_drop_bit ..
  finally show ?thesis .
qed

lemma drop_bit_eq_iff_div:
  "drop_bit k a = c \<longleftrightarrow> unat a div 2 ^ k = unat c" for a c :: "'a::len word"
  unfolding word_unat_eq_iff [of "drop_bit k a"] unat_drop_bit ..

lemma v4_private_eq:
  "v4_is_private a \<longleftrightarrow> unat a div 2 ^ 24 = 10 \<or> unat a div 2 ^ 20 = 2753 \<or> unat a div 2 ^ 16 = 49320"
proof -
  define n where "n = unat a div 2 ^ 16"
  have "unat a div 2 ^ 20 = n div 16" by (simp add: n_def div_mult2_eq [symmetric])
  moreover have "n div 16 = 2753 \<longleftrightarrow> 44048 \<le> n \<and> n \<le> 44063" by (subst div_range) auto
  ultimately show ?thesis
    unfolding v4_is_private_def using octets_range [of 31 a 172 16] octets_eq [of 168 a 192]
    by (simp add: octet_0 n_def)
qed

lemma v4_link_local_eq: "v4_is_link_local a \<longleftrightarrow> unat a div 2 ^ 16 = 43518"
  unfolding v4_is_link_local_def using octets_eq [of 254 a 169] by simp

lemma v6_protected_eq:
  "is_protected_destination (V6 b) \<longleftrightarrow>
     unat b \<in> {0, 1} \<or> unat b div 2 ^ 120 = 0xff \<or> unat b div 2 ^ 121 = 0xfc div 2 \<or>
     unat b div 2 ^ 118 = 0xfe80 div 2 ^ 6 \<or> unat b div 2 ^ 96 = 0x20010db8"
  unfolding is_protected_destination.simps v6_is_multicast_def drop_bit_eq_iff_div
  by (auto simp: word_unat_eq_iff)


text \<open>
  Two gaps of the check. The benchmark block is 198.18.0.0/15 but the mask in the code covers
  half of it, so 198.19.0.1 is open. An IPv4-mapped IPv6 address is never protected, whatever
  the IPv4 address in it: connecting to ::ffff:169.254.169.254 reaches the address that the
  IPv4 form of the check refuses.
\<close>

definition v4_mapped :: "u32 \<Rightarrow> u128" where
  "v4_mapped a = 0xFFFF00000000 + ucast a"

lemma protected_gaps:
  "\<not> is_protected_destination (V4 0xC6130001)" "is_protected_destination (V4 0xA9FEA9FE)"
  "\<not> is_protected_destination (V6 (v4_mapped a))"
proof -
  show "\<not> is_protected_destination (V4 0xC6130001)" "is_protected_destination (V4 0xA9FEA9FE)"
    by (simp_all add: v4_is_loopback_def v4_private_eq v4_link_local_eq v4_is_multicast_def octet_0)
  have a: "unat (ucast a :: u128) = unat a" by (rule unat_ucast_widen) simp
  have lt: "unat a < 2 ^ 32" by (rule unat_u32_lt)
  have "unat (v4_mapped a) = 0xFFFF00000000 + unat a"
    unfolding v4_mapped_def using lt by (subst unat_add_lt) (simp_all add: a)
  with lt show "\<not> is_protected_destination (V6 (v4_mapped a))"
    unfolding v6_protected_eq by simp
qed

end
