(* ===== verification/Compiler.thy ===== *)
theory Compiler
  imports Network_Policy
begin

text \<open>
  \<^verbatim>\<open>crates/sandbox-oci/src/compiler.rs\<close>: the compiler from a restricted Compose input to a
  topology lock, and the checks every daemon makes on a lock it receives.

  The image provider is a parameter: \<open>resolve\<close> maps its state and a reference to an image or
  an error and a new state. Reading the file, the YAML decoder, the JSON encoder and the hash
  are parameters as well. \<open>compile\<close> and \<open>volume_resource_usage\<close> look up keys they expect to be
  present and \<open>compile\<close> builds a default policy; a failure there panics, so these functions
  return in \<open>exec\<close>.
\<close>

type_synonym 's resolver = "'s \<Rightarrow> string \<Rightarrow> (locked_image, sandbox_error) result \<times> 's"

subsection \<open>Bounded values\<close>

definition validate_value :: "string \<Rightarrow> string \<Rightarrow> (unit, sandbox_error) result" where
  "validate_value kind val =
     (if val = [] \<or> length val > MAX_VALUE_BYTES \<or> nul \<in> set val
      then Err (Compose (''invalid '' @ kind)) else Ok ())"

definition validate_values :: "string \<Rightarrow> string list \<Rightarrow> nat \<Rightarrow> (unit, sandbox_error) result" where
  "validate_values kind vals maximum =
     (if length vals > maximum then Err (Compose (''too many '' @ kind @ '' values''))
      else for_each (validate_value kind) vals)"

definition validate_identifier :: "string \<Rightarrow> string \<Rightarrow> (unit, sandbox_error) result" where
  "validate_identifier kind val =
     (if val = [] \<or> length val > 32 \<or>
         \<not> list_all (\<lambda>b. is_ascii_lowercase b \<or> is_ascii_digit b \<or> b = CHR ''-'' \<or> b = CHR ''_'') val \<or>
         \<not> is_ascii_lowercase (hd val)
      then Err (Compose (kind @ '' `'' @ val @ ''` is not a bounded lowercase identifier'')) else Ok ())"

definition validate_environment :: "string \<times> string \<Rightarrow> (unit, sandbox_error) result" where
  "validate_environment entry =
     (case entry of (name, val) \<Rightarrow>
      if name = [] \<or> length name > 256 \<or>
         \<not> list_all (\<lambda>b. is_ascii_alphanumeric b \<or> b = CHR ''_'') name \<or> is_ascii_digit (hd name)
      then Err (Compose (''environment name `'' @ name @ ''` is invalid''))
      else and_then (validate_value ''environment value'' val) (\<lambda>_.
        if CHR 0x0A \<in> set val \<or> CHR 0x0D \<in> set val
        then Err (Compose (''environment value for `'' @ name @ ''` contains a line break''))
        else Ok ()))"

definition validate_image_reference :: "string \<Rightarrow> (unit, sandbox_error) result" where
  "validate_image_reference val =
     and_then (validate_value ''image reference'' val) (\<lambda>_.
       if starts_with val ''-'' \<or>
          \<not> list_all (\<lambda>b. is_ascii_alphanumeric b \<or> b \<in> set ''/._-:@'') val
       then Err (Compose (''image reference `'' @ val @ ''` has unsupported syntax'')) else Ok ())"

subsection \<open>Volumes and networks\<close>

definition default_snapshot_policy :: "volume_persistence_class \<Rightarrow> volume_snapshot_policy" where
  "default_snapshot_policy c =
     (case c of VolPersistent \<Rightarrow> Required | VolEphemeral \<Rightarrow> BestEffort
      | VolArtifact \<Rightarrow> Excluded | VolSecret \<Rightarrow> Excluded)"

definition lock_volume :: "string \<times> volume_input \<Rightarrow> (locked_volume, sandbox_error) result" where
  "lock_volume entry =
     (case entry of (name, volume) \<Rightarrow>
      and_then (validate_identifier ''volume'' name) (\<lambda>_.
      and_then (map_err (\<lambda>e. Compose (core_error_display e)) (parse_volume_id name)) (\<lambda>_.
      and_then
        (case (vi_persistence_class volume, vi_quota_bytes volume) of
           (VolArtifact, None) \<Rightarrow> Ok 0
         | (_, Some quota) \<Rightarrow> Ok quota
         | _ \<Rightarrow> Err (Compose (''volume `'' @ name @ ''` requires an explicit quota_bytes'')))
        (\<lambda>quota. Ok \<lparr>lv_persistence_class = vi_persistence_class volume,
           lv_snapshot_policy = (case vi_snapshot_policy volume of
              Some p \<Rightarrow> p | None \<Rightarrow> default_snapshot_policy (vi_persistence_class volume)),
           lv_quota_bytes = quota, lv_content_digest = vi_content_digest volume\<rparr>))))"

definition lock_network :: "string \<times> network_input \<Rightarrow> (locked_network, sandbox_error) result" where
  "lock_network entry =
     (case entry of (name, network) \<Rightarrow>
      and_then (validate_identifier ''network'' name) (\<lambda>_.
        if ni_internal network = Some False
        then Err (Unsupported (''network `'' @ name @ ''` requests external connectivity''))
        else if (case ni_driver network of None \<Rightarrow> False | Some driver \<Rightarrow> driver \<noteq> ''bridge'')
        then Err (Unsupported (''network `'' @ name @ ''` does not use the bridge driver''))
        else Ok \<lparr>ln_internal = True, ln_driver = ''bridge''\<rparr>))"

text \<open>A loop that checks each entry and inserts what it becomes into a new map.\<close>

definition insert_locked ::
  "(string \<times> 'a \<Rightarrow> ('b, 'e) result) \<Rightarrow> (string, 'b) btree_map \<Rightarrow> string \<times> 'a \<Rightarrow>
     ((string, 'b) btree_map, 'e) result" where
  "insert_locked f m entry = and_then (f entry) (\<lambda>v. Ok (bt_insert (fst entry) v m))"

subsection \<open>Services\<close>

definition lock_mount ::
  "(string, locked_volume) btree_map \<Rightarrow> string \<Rightarrow> volume_spec list \<times> string set \<Rightarrow> service_volume_input \<Rightarrow>
     (volume_spec list \<times> string set, sandbox_error) result" where
  "lock_mount volumes service_name acc volume =
     (case acc of (specs, destinations) \<Rightarrow>
      and_then (ok_or (Compose (''service `'' @ service_name @ ''` references unknown volume `'' @
          sv_source volume @ ''`'')) (bt_get volumes (sv_source volume))) (\<lambda>defn.
      and_then
        (if lv_persistence_class defn = VolArtifact \<or> lv_persistence_class defn = VolSecret
         then if sv_read_only volume = Some False
              then Err (Compose (''service `'' @ service_name @ ''` requests a writable immutable volume''))
              else Ok True
         else Ok (case sv_read_only volume of Some r \<Rightarrow> r | None \<Rightarrow> False)) (\<lambda>read_only.
      and_then (map_err (\<lambda>e. Compose (core_error_display e)) (parse_volume_id (sv_source volume))) (\<lambda>vid.
        let spec = \<lparr>vol_schema_version = VOLUME_SPEC_VERSION, vol_id = vid,
              vol_destination = sv_target volume, vol_read_only = read_only,
              vol_persistence_class = lv_persistence_class defn,
              vol_snapshot_policy = lv_snapshot_policy defn,
              vol_quota_bytes = lv_quota_bytes defn,
              vol_content_digest = lv_content_digest defn\<rparr> in
        and_then (map_err (\<lambda>e. Compose (core_error_display e)) (volume_validate spec)) (\<lambda>_.
          if vol_destination spec \<in> destinations
          then Err (Compose (''service `'' @ service_name @ ''` repeats volume destination `'' @
                 vol_destination spec @ ''`''))
          else Ok (specs @ [spec], insert (vol_destination spec) destinations))))))"

definition select_network ::
  "(string, locked_network) btree_map \<Rightarrow> string \<Rightarrow> string set \<Rightarrow> string \<Rightarrow> (string set, sandbox_error) result" where
  "select_network networks service_name unique network =
     (if \<not> bt_contains networks network
      then Err (Compose (''service `'' @ service_name @ ''` references unknown network `'' @ network @ ''`''))
      else if network \<in> unique
      then Err (Compose (''service `'' @ service_name @ ''` repeats network `'' @ network @ ''`''))
      else Ok (insert network unique))"

definition lock_dependency ::
  "string set \<Rightarrow> string \<Rightarrow> string \<times> dependency_condition \<Rightarrow> (dependency_condition, sandbox_error) result" where
  "lock_dependency service_names service_name entry =
     (if fst entry = service_name \<or> fst entry \<notin> service_names
      then Err (Compose (''service `'' @ service_name @ ''` has invalid dependency `'' @ fst entry @ ''`''))
      else Ok (snd entry))"

definition lock_healthcheck ::
  "string \<Rightarrow> healthcheck_input \<Rightarrow> (locked_healthcheck, sandbox_error) result" where
  "lock_healthcheck service_name h =
     (if (case hi_test h of [] \<Rightarrow> True | first # _ \<Rightarrow> first \<noteq> ''CMD'') \<or> length (hi_test h) < 2
      then Err (Unsupported (''service `'' @ service_name @ ''` healthcheck must use exec-form `CMD`''))
      else let command = drop 1 (hi_test h) in
        and_then (validate_values ''healthcheck'' command MAX_ARGUMENTS) (\<lambda>_.
          if hi_interval_ms h = 0 \<or> hi_interval_ms h > 60000 \<or> hi_timeout_ms h = 0 \<or>
             hi_timeout_ms h > 60000 \<or> hi_retries h = 0 \<or> hi_retries h > 100
          then Err (Compose (''service `'' @ service_name @ ''` healthcheck bounds are invalid''))
          else Ok \<lparr>lh_command = command, lh_interval_ms = hi_interval_ms h,
                  lh_timeout_ms = hi_timeout_ms h, lh_retries = hi_retries h\<rparr>))"

text \<open>
  Everything \<open>compile\<close> checks and computes for one service before it resolves the image; the
  result is what the locked service becomes once the image is known.
\<close>

definition check_service ::
  "string set \<Rightarrow> (string, locked_network) btree_map \<Rightarrow> (string, locked_volume) btree_map \<Rightarrow>
     string \<Rightarrow> service_input \<Rightarrow> (locked_image \<Rightarrow> locked_service, sandbox_error) result" where
  "check_service service_names networks volumes name service =
     and_then (validate_identifier ''service'' name) (\<lambda>_.
     and_then (validate_values ''command'' (si_command service) MAX_ARGUMENTS) (\<lambda>_.
     and_then (validate_values ''entrypoint'' (si_entrypoint service) MAX_ARGUMENTS) (\<lambda>_.
     if length (si_environment service) > MAX_ENVIRONMENT
     then Err (Compose (''service `'' @ name @ ''` has too many environment entries'')) else
     and_then (for_each validate_environment (si_environment service)) (\<lambda>_.
     let root_filesystem = (if si_read_only service = Some False then WritableRoot else ReadOnlyRoot) in
     if length (si_volumes service) > 64
     then Err (Compose (''service `'' @ name @ ''` has too many volume mounts'')) else
     and_then (try_fold (lock_mount volumes name) ([], {}) (si_volumes service)) (\<lambda>(specs, _).
     let working_dir = (case si_working_dir service of Some d \<Rightarrow> d | None \<Rightarrow> ''/work'') in
     if \<not> starts_with working_dir ''/'' \<or> contains_str working_dir ''..''
     then Err (Compose (''service `'' @ name @ ''` working directory must be an absolute normalized path'')) else
     and_then (validate_value ''working directory'' working_dir) (\<lambda>_.
     let selected = (if si_networks service = [] then [''default''] else si_networks service) in
     and_then (try_fold (select_network networks name) {} selected) (\<lambda>_.
     and_then (try_fold (insert_locked (lock_dependency service_names name)) [] (si_depends_on service)) (\<lambda>dependencies.
     and_then (case si_healthcheck service of None \<Rightarrow> Ok None
               | Some h \<Rightarrow> and_then (lock_healthcheck name h) (\<lambda>l. Ok (Some l))) (\<lambda>healthcheck.
     and_then (validate_image_reference (si_image service)) (\<lambda>_.
       Ok (\<lambda>img. \<lparr>ls_image = img, ls_command = si_command service,
             ls_entrypoint = si_entrypoint service, ls_environment = si_environment service,
             ls_depends_on = dependencies, ls_healthcheck = healthcheck, ls_networks = selected,
             ls_working_dir = working_dir, ls_root_filesystem = root_filesystem,
             ls_volumes = specs\<rparr>)))))))))))"

fun lock_services ::
  "'s resolver \<Rightarrow> (string \<Rightarrow> service_input \<Rightarrow> (locked_image \<Rightarrow> locked_service, sandbox_error) result) \<Rightarrow>
     's \<Rightarrow> (string, locked_service) btree_map \<Rightarrow> (string \<times> service_input) list \<Rightarrow>
     ((string, locked_service) btree_map, sandbox_error) result \<times> 's" where
  "lock_services resolve check s acc [] = (Ok acc, s)"
| "lock_services resolve check s acc ((name, service) # rest) =
     (case check name service of
        Inl e \<Rightarrow> (Err e, s)
      | Inr build \<Rightarrow>
          (case resolve s (si_image service) of
             (Inl e, s') \<Rightarrow> (Err e, s')
           | (Inr img, s') \<Rightarrow> lock_services resolve check s' (bt_insert name (build img) acc) rest))"

definition healthy_dependency ::
  "(string, locked_service) btree_map \<Rightarrow> string \<Rightarrow> string \<times> dependency_condition \<Rightarrow>
     (unit, sandbox_error) result exec" where
  "healthy_dependency services service_name entry =
     (if snd entry = DepHealthy
      then case bt_get services (fst entry) of
             None \<Rightarrow> Panic
           | Some d \<Rightarrow>
               Done (if ls_healthcheck d = None
                     then Err (Compose (''service `'' @ service_name @ ''` requires `'' @ fst entry @
                            ''` to be healthy, but it has no healthcheck''))
                     else Ok ())
      else Done (Ok ()))"

subsection \<open>Startup order\<close>

function order_loop ::
  "(string, string set) btree_map \<Rightarrow> string list \<Rightarrow> (string list, sandbox_error) result" where
  "order_loop remaining order =
     (if remaining = [] then Ok order
      else case find (\<lambda>entry. snd entry = {}) remaining of
             None \<Rightarrow> Err (Compose ''service dependency graph contains a cycle'')
           | Some (ready, _) \<Rightarrow>
               order_loop (bt_map_values (\<lambda>dependencies. dependencies - {ready}) (bt_remove ready remaining))
                 (order @ [ready]))"
  by pat_completeness auto

lemma length_bt_remove_present: "k \<in> fst ` set m \<Longrightarrow> length (bt_remove k m) < length m"
  by (auto simp: bt_remove_def intro!: length_filter_less)

termination order_loop
proof (relation "measure (\<lambda>(remaining, order). length remaining)")
  fix remaining :: "(string, string set) btree_map" and order :: "string list" and entry ready d
  assume "find (\<lambda>entry. snd entry = {}) remaining = Some entry" and "(ready, d) = entry"
  then have "(ready, d) \<in> set remaining" using find_Some_in by metis
  then have "ready \<in> fst ` set remaining" by force
  then show "((bt_map_values (\<lambda>dependencies. dependencies - {ready}) (bt_remove ready remaining), order @ [ready]),
      (remaining, order)) \<in> measure (\<lambda>(remaining, order). length remaining)"
    using length_bt_remove_present [of ready remaining] by (simp add: bt_map_values_def)
qed simp

declare order_loop.simps [simp del]

definition startup_order :: "(string, locked_service) btree_map \<Rightarrow> (string list, sandbox_error) result" where
  "startup_order services =
     order_loop (bt_map_values (\<lambda>service. set (bt_keys (ls_depends_on service))) services) []"

subsection \<open>The lock\<close>

definition topology_digest_of ::
  "(digest_input \<Rightarrow> (string, string) result) \<Rightarrow> (string \<Rightarrow> string) \<Rightarrow> digest_input \<Rightarrow> (string, sandbox_error) result" where
  "topology_digest_of to_json sha256_hex input =
     and_then (map_err (\<lambda>e. Lock (''encode canonical topology: '' @ e)) (to_json input))
       (\<lambda>bytes. Ok (''sha256:'' @ sha256_hex bytes))"

definition compile_policy :: "compose_input \<Rightarrow> (sandbox_policy, sandbox_error) result exec" where
  "compile_policy input =
     exec_then (Done (map_err (\<lambda>e. Compose (core_error_display e))
       (gp_parse (case ci_guest_profile input of Some p \<Rightarrow> p | None \<Rightarrow> STRICT_GUEST_PROFILE)))) (\<lambda>profile.
     if reviewed profile = None
     then Done (Err (Unsupported (''guest profile `'' @ gp_canonical profile @
            ''` is not supported by this topology schema'')))
     else exec_bind sandbox_policy_default (\<lambda>d.
       Done (Ok (d\<lparr>sp_guest_profile := profile, sp_network := ci_network_policy input\<rparr>))))"

definition compile_head ::
  "compose_input \<Rightarrow> (string \<times> (string, locked_volume) btree_map \<times> (string, locked_network) btree_map, sandbox_error) result" where
  "compile_head input =
     and_then (ok_or (Compose ''top-level `name` is required'') (ci_name input)) (\<lambda>name.
     and_then (validate_identifier ''topology name'' name) (\<lambda>_.
     if ci_services input = [] \<or> length (ci_services input) > MAX_SERVICES
     then Err (Compose (''service count must be between 1 and '' @ show_nat MAX_SERVICES))
     else if length (ci_volumes input) > MAX_VOLUMES
     then Err (Compose (''volume count exceeds '' @ show_nat MAX_VOLUMES)) else
     and_then (try_fold (insert_locked lock_volume) [] (ci_volumes input)) (\<lambda>volumes.
     let network_inputs = (if ci_networks input = [] then [(''default'', network_input_default)]
                           else ci_networks input) in
     if length network_inputs > MAX_NETWORKS
     then Err (Compose (''network count exceeds '' @ show_nat MAX_NETWORKS)) else
     and_then (try_fold (insert_locked lock_network) [] network_inputs) (\<lambda>networks.
       Ok (name, volumes, networks)))))"

definition compile_tail ::
  "(digest_input \<Rightarrow> (string, string) result) \<Rightarrow> (string \<Rightarrow> string) \<Rightarrow> compose_input \<Rightarrow> string \<Rightarrow>
     (string, locked_volume) btree_map \<Rightarrow> (string, locked_network) btree_map \<Rightarrow>
     (string, locked_service) btree_map \<Rightarrow> (topology_lock, sandbox_error) result exec" where
  "compile_tail to_json sha256_hex input name volumes networks services =
     exec_then (exec_each (\<lambda>(service_name, service).
         exec_each (healthy_dependency services service_name) (ls_depends_on service)) services) (\<lambda>_.
     exec_then (Done (startup_order services)) (\<lambda>order.
     exec_then (compile_policy input) (\<lambda>policy.
     let lock = \<lparr>tl_schema_version = LOCK_SCHEMA_VERSION, tl_topology_digest = [], tl_name = name,
           tl_services = services, tl_networks = networks, tl_volumes = volumes,
           tl_startup_order = order, tl_policy = policy\<rparr> in
     exec_then (exec_bind (network_validate (sp_network (tl_policy lock)) (tl_services lock))
         (\<lambda>r. Done (map_err Compose r))) (\<lambda>_.
     exec_then (Done (topology_digest_of to_json sha256_hex (lock_digest_input lock))) (\<lambda>digest.
       Done (Ok (lock\<lparr>tl_topology_digest := digest\<rparr>)))))))"

definition compile ::
  "(digest_input \<Rightarrow> (string, string) result) \<Rightarrow> (string \<Rightarrow> string) \<Rightarrow> 's resolver \<Rightarrow> 's \<Rightarrow> compose_input \<Rightarrow>
     (topology_lock, sandbox_error) result exec \<times> 's" where
  "compile to_json sha256_hex resolve s input =
     (case compile_head input of
        Inl e \<Rightarrow> (Done (Err e), s)
      | Inr (name, volumes, networks) \<Rightarrow>
          (case lock_services resolve
                  (check_service (set (bt_keys (ci_services input))) networks volumes) s [] (ci_services input) of
             (Inl e, s') \<Rightarrow> (Done (Err e), s')
           | (Inr services, s') \<Rightarrow>
               (compile_tail to_json sha256_hex input name volumes networks services, s')))"

text \<open>The closure \<open>lock_compose\<close> passes to \<open>compile\<close>: a cache in front of the provider.\<close>

definition cached_resolve :: "'p resolver \<Rightarrow> ((string, locked_image) btree_map \<times> 'p) resolver" where
  "cached_resolve provider s reference =
     (case bt_get (fst s) reference of
        Some img \<Rightarrow> (Ok img, s)
      | None \<Rightarrow>
          (case provider (snd s) reference of
             (Inl e, p) \<Rightarrow> (Err e, (fst s, p))
           | (Inr img, p) \<Rightarrow> (Ok img, (bt_insert reference img (fst s), p))))"

definition lock_compose ::
  "(digest_input \<Rightarrow> (string, string) result) \<Rightarrow> (string \<Rightarrow> string) \<Rightarrow> (string \<Rightarrow> (string, string) result) \<Rightarrow>
     (string \<Rightarrow> (compose_input, string) result) \<Rightarrow> 'p resolver \<Rightarrow> 'p \<Rightarrow> string \<Rightarrow>
     (topology_lock, sandbox_error) result exec \<times> (string, locked_image) btree_map \<times> 'p" where
  "lock_compose to_json sha256_hex read_file from_yaml provider p path =
     (case read_file path of
        Inl e \<Rightarrow> (Done (Err (io_error path e)), [], p)
      | Inr bytes \<Rightarrow>
          if length bytes > 1024 * 1024 then (Done (Err (Compose ''Compose input exceeds 1 MiB'')), [], p)
          else (case from_yaml bytes of
                  Inl e \<Rightarrow> (Done (Err (Compose e)), [], p)
                | Inr input \<Rightarrow> compile to_json sha256_hex (cached_resolve provider) ([], p) input))"

subsection \<open>Verification of a lock\<close>

definition verify_mount ::
  "topology_lock \<Rightarrow> string \<Rightarrow> string set \<Rightarrow> volume_spec \<Rightarrow> (string set, sandbox_error) result" where
  "verify_mount lock service_name destinations volume =
     and_then (map_err (\<lambda>e. Lock (''service `'' @ service_name @ ''` has an invalid volume: '' @
         core_error_display e)) (volume_validate volume)) (\<lambda>_.
     if vol_destination volume \<in> destinations
     then Err (Lock (''service `'' @ service_name @ ''` repeats volume destination `'' @
            vol_destination volume @ ''`'')) else
     and_then (ok_or (Lock (''service `'' @ service_name @ ''` references unknown volume `'' @
         vol_id volume @ ''`'')) (bt_get (tl_volumes lock) (vol_id volume))) (\<lambda>defn.
     if vol_persistence_class volume \<noteq> lv_persistence_class defn \<or>
        vol_snapshot_policy volume \<noteq> lv_snapshot_policy defn \<or>
        vol_quota_bytes volume \<noteq> lv_quota_bytes defn \<or>
        vol_content_digest volume \<noteq> lv_content_digest defn
     then Err (Lock (''service `'' @ service_name @ ''` volume `'' @ vol_id volume @
            ''` does not match its topology definition''))
     else Ok (insert (vol_destination volume) destinations)))"

definition verify_service_volumes :: "topology_lock \<Rightarrow> (unit, sandbox_error) result" where
  "verify_service_volumes lock =
     for_each (\<lambda>(service_name, service).
       if length (ls_volumes service) > 64
       then Err (Lock (''service `'' @ service_name @ ''` has too many volume mounts''))
       else and_then (try_fold (verify_mount lock service_name) {} (ls_volumes service)) (\<lambda>_. Ok ()))
     (tl_services lock)"

definition verify_lock ::
  "(digest_input \<Rightarrow> (string, string) result) \<Rightarrow> (string \<Rightarrow> string) \<Rightarrow> topology_lock \<Rightarrow>
     (unit, sandbox_error) result exec" where
  "verify_lock to_json sha256_hex lock =
     (if tl_schema_version lock \<noteq> LOCK_SCHEMA_VERSION
      then Done (Err (Lock (''unsupported schema version '' @ show_word (tl_schema_version lock))))
      else exec_then (Done (topology_digest_of to_json sha256_hex (lock_digest_input lock))) (\<lambda>expected.
        if tl_topology_digest lock \<noteq> expected
        then Done (Err (Lock (''topology digest mismatch: expected '' @ expected @ '', found '' @
               tl_topology_digest lock)))
        else exec_then (exec_bind (network_validate (sp_network (tl_policy lock)) (tl_services lock))
               (\<lambda>r. Done (map_err Lock r))) (\<lambda>_.
             Done (verify_service_volumes lock))))"

record volume_resource_usage =
  vru_count :: nat
  vru_quota_bytes :: u64

definition used_volume_ids :: "topology_lock \<Rightarrow> string list" where
  "used_volume_ids lock =
     sort (remdups (concat (map (\<lambda>service. map vol_id (ls_volumes service)) (bt_values (tl_services lock)))))"

fun sum_quotas :: "topology_lock \<Rightarrow> u64 \<Rightarrow> string list \<Rightarrow> (u64, sandbox_error) result exec" where
  "sum_quotas lock acc [] = Done (Ok acc)"
| "sum_quotas lock acc (volume_id # ids) =
     exec_bind (expect (bt_get (tl_volumes lock) volume_id)) (\<lambda>defn.
     exec_then (Done (ok_or (Lock ''topology volume quota overflow'')
         (checked_add acc (lv_quota_bytes defn)))) (\<lambda>acc'. sum_quotas lock acc' ids))"

definition topology_volume_usage ::
  "(digest_input \<Rightarrow> (string, string) result) \<Rightarrow> (string \<Rightarrow> string) \<Rightarrow> topology_lock \<Rightarrow>
     (volume_resource_usage, sandbox_error) result exec" where
  "topology_volume_usage to_json sha256_hex lock =
     exec_then (verify_lock to_json sha256_hex lock) (\<lambda>_.
     exec_then (sum_quotas lock 0 (used_volume_ids lock)) (\<lambda>quota.
       Done (Ok \<lparr>vru_count = length (used_volume_ids lock), vru_quota_bytes = quota\<rparr>)))"

end
