(* ===== verification/Compiler_Correct.thy ===== *)
theory Compiler_Correct
  imports Compiler
begin

text \<open>
  Correctness of the Compose compiler: the startup order exists exactly when the dependencies
  admit one and then respects them, what \<open>compile\<close> produces passes every check a daemon makes
  on a lock, no lookup panics, the volume usage of a lock is the exact sum over distinct
  volumes, and one compilation never mixes two images of one reference.
\<close>

subsection \<open>Startup order\<close>

definition deps_first :: "(string \<Rightarrow> string set) \<Rightarrow> string list \<Rightarrow> bool" where
  "deps_first D xs \<longleftrightarrow> (\<forall>i < length xs. D (xs ! i) \<subseteq> set (take i xs))"

lemma deps_first_snoc: "deps_first D (xs @ [x]) \<longleftrightarrow> deps_first D xs \<and> D x \<subseteq> set xs"
  unfolding deps_first_def by (auto simp: All_less_Suc nth_append)

definition order_inv ::
  "(string \<Rightarrow> string set) \<Rightarrow> string set \<Rightarrow> (string, string set) btree_map \<Rightarrow> string list \<Rightarrow> bool" where
  "order_inv D nodes remaining order \<longleftrightarrow> bt_wf remaining \<and>
     (\<forall>entry \<in> set remaining. snd entry = D (fst entry) - set order) \<and>
     fst ` set remaining \<inter> set order = {} \<and> fst ` set remaining \<union> set order = nodes \<and>
     distinct order \<and> deps_first D order"

lemma order_inv_step:
  assumes "order_inv D nodes remaining order"
    and "find (\<lambda>entry. snd entry = {}) remaining = Some (ready, ds)"
  shows "order_inv D nodes (bt_map_values (\<lambda>dependencies. dependencies - {ready}) (bt_remove ready remaining))
    (order @ [ready])"
proof -
  from find_Some_in [OF assms(2)] have r: "(ready, ds) \<in> set remaining" "ds = {}" by auto
  note inv = assms(1) [unfolded order_inv_def]
  have deps: "D ready \<subseteq> set order" using inv r by force
  have new: "ready \<notin> set order" using inv r(1) by force
  have keys: "fst ` set (bt_remove ready remaining) = fst ` set remaining - {ready}"
    by (force simp: bt_remove_def)
  have here: "ready \<in> fst ` set remaining" using r(1) by force
  let ?next = "bt_map_values (\<lambda>dependencies. dependencies - {ready}) (bt_remove ready remaining)"
  have next_keys: "fst ` set ?next = fst ` set remaining - {ready}"
    unfolding keys [symmetric] by (simp add: bt_map_values_def image_image)
  have "bt_wf ?next" using inv by (simp add: bt_wf_remove)
  moreover have "\<forall>entry \<in> set ?next. snd entry = D (fst entry) - set (order @ [ready])"
    using inv by (auto simp: bt_map_values_def bt_remove_def)
  moreover have "fst ` set ?next \<inter> set (order @ [ready]) = {}" using inv by (auto simp: next_keys)
  moreover have "fst ` set ?next \<union> set (order @ [ready]) = nodes"
    using inv here by (auto simp: next_keys)
  ultimately show ?thesis
    unfolding order_inv_def using inv deps new by (simp add: deps_first_snoc)
qed

lemma order_loop_Ok:
  "order_inv D nodes remaining order \<Longrightarrow> order_loop remaining order = Ok res \<Longrightarrow>
   distinct res \<and> set res = nodes \<and> deps_first D res"
proof (induction remaining order rule: order_loop.induct)
  case (1 remaining order)
  show ?case
  proof (cases "remaining = []")
    case True
    with 1 show ?thesis by (simp add: order_loop.simps order_inv_def)
  next
    case False
    with 1(3) obtain ready ds where f: "find (\<lambda>entry. snd entry = {}) remaining = Some (ready, ds)"
      by (subst (asm) order_loop.simps) (auto split: option.splits)
    show ?thesis
      using 1(1) [OF False f refl order_inv_step [OF 1(2) f]] 1(3) False f
      by (simp add: order_loop.simps [of remaining])
  qed
qed

lemma order_loop_Err:
  "order_inv D nodes remaining order \<Longrightarrow> order_loop remaining order = Err e \<Longrightarrow>
   \<exists>S. S \<noteq> {} \<and> S \<subseteq> nodes \<and> (\<forall>k \<in> S. \<exists>d \<in> D k. d \<in> S \<or> d \<notin> nodes)"
proof (induction remaining order rule: order_loop.induct)
  case (1 remaining order)
  then have ne: "remaining \<noteq> []" by (auto simp: order_loop.simps)
  note inv = 1(2) [unfolded order_inv_def]
  show ?case
  proof (cases "find (\<lambda>entry. snd entry = {}) remaining")
    case None
    then have "\<forall>entry \<in> set remaining. snd entry \<noteq> {}" by (simp add: find_None_all)
    then have "\<forall>k \<in> fst ` set remaining. D k - set order \<noteq> {}" using inv by auto
    then have "\<forall>k \<in> fst ` set remaining. \<exists>d \<in> D k. d \<in> fst ` set remaining \<or> d \<notin> nodes"
      using inv by blast
    then show ?thesis using ne inv by (intro exI [of _ "fst ` set remaining"]) auto
  next
    case (Some entry)
    obtain ready ds where e: "entry = (ready, ds)" by (cases entry)
    from Some e have f: "find (\<lambda>entry. snd entry = {}) remaining = Some (ready, ds)" by simp
    show ?thesis
      using 1(1) [OF ne f refl order_inv_step [OF 1(2) f]] 1(3) ne f
      by (simp add: order_loop.simps [of remaining])
  qed
qed

text \<open>An order in which every service of the lock starts once, after all its dependencies.\<close>

definition valid_order :: "(string, locked_service) btree_map \<Rightarrow> string list \<Rightarrow> bool" where
  "valid_order services order \<longleftrightarrow> distinct order \<and> set order = set (bt_keys services) \<and>
     (\<forall>i < length order. \<forall>service. bt_get services (order ! i) = Some service \<longrightarrow>
        set (bt_keys (ls_depends_on service)) \<subseteq> set (take i order))"

definition deps_of :: "(string, locked_service) btree_map \<Rightarrow> string \<Rightarrow> string set" where
  "deps_of services k = (case bt_get services k of None \<Rightarrow> {} | Some service \<Rightarrow> set (bt_keys (ls_depends_on service)))"

lemma valid_order_deps:
  "valid_order services order \<longleftrightarrow>
     distinct order \<and> set order = set (bt_keys services) \<and> deps_first (deps_of services) order"
  unfolding valid_order_def deps_first_def deps_of_def by (auto split: option.splits)

lemma order_inv_start:
  assumes "bt_wf services"
  shows "order_inv (deps_of services) (set (bt_keys services))
    (bt_map_values (\<lambda>service. set (bt_keys (ls_depends_on service))) services) []"
proof -
  have "snd entry = deps_of services (fst entry)"
    if "entry \<in> set (bt_map_values (\<lambda>service. set (bt_keys (ls_depends_on service))) services)" for entry
  proof -
    from that obtain k service where k: "(k, service) \<in> set services"
      "entry = (k, set (bt_keys (ls_depends_on service)))" by (auto simp: bt_map_values_def)
    then have "bt_get services k = Some service" using assms by (simp add: bt_get_in_set)
    with k(2) show ?thesis by (simp add: deps_of_def)
  qed
  then show ?thesis
    using assms by (auto simp: order_inv_def deps_first_def bt_keys_def)
      (force simp: bt_map_values_def)+
qed

lemma no_order_for_blocked_set:
  assumes "valid_order services order" and "S \<noteq> {}" and "S \<subseteq> set (bt_keys services)"
    and blocked: "\<forall>k \<in> S. \<exists>d \<in> deps_of services k. d \<in> S \<or> d \<notin> set (bt_keys services)"
  shows False
proof -
  note order = assms(1) [unfolded valid_order_deps]
  define i where "i = (LEAST i. i < length order \<and> order ! i \<in> S)"
  from assms(2,3) order have "\<exists>i. i < length order \<and> order ! i \<in> S"
    by (metis ex_in_conv in_set_conv_nth subsetD)
  then have i: "i < length order" "order ! i \<in> S" unfolding i_def by (metis (mono_tags, lifting) LeastI)+
  have min: "\<And>j. j < i \<Longrightarrow> order ! j \<notin> S" using i(1) not_less_Least unfolding i_def by (metis (mono_tags, lifting) less_trans)
  from blocked i(2) obtain d where d: "d \<in> deps_of services (order ! i)" "d \<in> S \<or> d \<notin> set (bt_keys services)" by blast
  with order i(1) have "d \<in> set (take i order)" by (auto simp: deps_first_def)
  then obtain j where "j < i" "order ! j = d" using i(1) by (auto simp: in_set_conv_nth)
  with min d(2) order i(1) show False by (metis less_trans nth_mem)
qed

lemma startup_order_valid:
  assumes "bt_wf services" and "startup_order services = Ok order"
  shows "valid_order services order"
  using order_loop_Ok [OF order_inv_start [OF assms(1)] assms(2) [unfolded startup_order_def]]
  by (simp add: valid_order_deps)

text \<open>
  C30: The compiler finds a startup order exactly when one exists. The order it returns lists
  every service once and each one after all the services it depends on; the loop stops, and
  it reports a cycle only when no order of the services respects the dependencies.
\<close>

theorem startup_order_is_complete:
  assumes "bt_wf services"
  shows "((\<exists>order. startup_order services = Ok order) \<longleftrightarrow> (\<exists>order. valid_order services order)) \<and>
    (\<forall>order. startup_order services = Ok order \<longrightarrow> valid_order services order)"
proof -
  note ok = startup_order_valid [OF assms]
  have "\<nexists>order. valid_order services order" if err: "startup_order services = Err e" for e
    using order_loop_Err [OF order_inv_start [OF assms] err [unfolded startup_order_def]] no_order_for_blocked_set by metis
  with ok show ?thesis by (cases "startup_order services") auto
qed

subsection \<open>Mounts\<close>

text \<open>A mount whose terms are those of the volume the topology defines.\<close>

definition mount_ok :: "(string, locked_volume) btree_map \<Rightarrow> volume_spec \<Rightarrow> bool" where
  "mount_ok volumes v \<longleftrightarrow> volume_validate v = Ok () \<and>
     (\<exists>d. bt_get volumes (vol_id v) = Some d \<and> vol_persistence_class v = lv_persistence_class d \<and>
        vol_snapshot_policy v = lv_snapshot_policy d \<and> vol_quota_bytes v = lv_quota_bytes d \<and>
        vol_content_digest v = lv_content_digest d)"

lemma lock_mount_Ok:
  "lock_mount volumes name (specs, destinations) volume = Ok acc \<Longrightarrow>
   \<exists>spec. mount_ok volumes spec \<and> vol_id spec = sv_source volume \<and> vol_destination spec = sv_target volume \<and>
     vol_destination spec \<notin> destinations \<and> acc = (specs @ [spec], insert (vol_destination spec) destinations)"
  unfolding lock_mount_def
  by (auto simp: Let_def mount_ok_def parse_volume_id_def split: if_splits)

lemma lock_mounts_Ok:
  assumes "try_fold (lock_mount volumes name) (specs, vol_destination ` set specs) vs = Ok (specs', D)"
    and "\<forall>v \<in> set specs. mount_ok volumes v" and "distinct (map vol_destination specs)"
  shows "(\<forall>v \<in> set specs'. mount_ok volumes v) \<and> distinct (map vol_destination specs') \<and>
    length specs' = length specs + length vs"
  using assms
proof (induction vs arbitrary: specs)
  case (Cons v vs)
  from Cons.prems(1) obtain acc where acc: "lock_mount volumes name (specs, vol_destination ` set specs) v = Ok acc"
    "try_fold (lock_mount volumes name) acc vs = Ok (specs', D)" by auto
  from lock_mount_Ok [OF acc(1)] obtain spec where spec: "mount_ok volumes spec"
    "vol_destination spec \<notin> vol_destination ` set specs"
    "acc = (specs @ [spec], vol_destination ` set (specs @ [spec]))" by auto
  have "(\<forall>v \<in> set specs'. mount_ok volumes v) \<and> distinct (map vol_destination specs') \<and>
    length specs' = length (specs @ [spec]) + length vs"
    by (rule Cons.IH) (use acc(2) spec Cons.prems in auto)
  then show ?case by simp
qed simp

lemma verify_mount_Ok:
  "verify_mount lock name destinations v = Ok S \<longleftrightarrow>
     mount_ok (tl_volumes lock) v \<and> vol_destination v \<notin> destinations \<and> S = insert (vol_destination v) destinations"
  by (auto simp: verify_mount_def mount_ok_def)

lemma verify_mounts_Ok:
  "try_fold (verify_mount lock name) S vs = Ok S' \<longleftrightarrow>
     (\<forall>v \<in> set vs. mount_ok (tl_volumes lock) v) \<and> distinct (map vol_destination vs) \<and>
     vol_destination ` set vs \<inter> S = {} \<and> S' = S \<union> vol_destination ` set vs"
  by (induction vs arbitrary: S) (auto simp: verify_mount_Ok)

lemma verify_service_volumes_Ok:
  "verify_service_volumes lock = Ok () \<longleftrightarrow>
     (\<forall>(name, service) \<in> set (tl_services lock). length (ls_volumes service) \<le> 64 \<and>
        (\<forall>v \<in> set (ls_volumes service). mount_ok (tl_volumes lock) v) \<and>
        distinct (map vol_destination (ls_volumes service)))"
  by (auto simp: verify_service_volumes_def verify_mounts_Ok not_less split: prod.splits if_splits)

lemma verify_lock_Ok:
  "verify_lock to_json sha256_hex lock = Done (Ok ()) \<longleftrightarrow>
     tl_schema_version lock = LOCK_SCHEMA_VERSION \<and>
     topology_digest_of to_json sha256_hex (lock_digest_input lock) = Ok (tl_topology_digest lock) \<and>
     network_validate (sp_network (tl_policy lock)) (tl_services lock) = Done (Ok ()) \<and>
     verify_service_volumes lock = Ok ()"
  by (auto simp: verify_lock_def)

lemma verify_lock_no_panic: "verify_lock to_json sha256_hex lock \<noteq> Panic"
  using network_validate_no_panic [of "sp_network (tl_policy lock)" "tl_services lock"]
  by (cases "network_validate (sp_network (tl_policy lock)) (tl_services lock)")
    (auto simp: verify_lock_def exec_then_eq_Panic)

subsection \<open>Services\<close>

lemma insert_locked_Ok: "insert_locked f m (k, x) = Ok m' \<longleftrightarrow> (\<exists>v. f (k, x) = Ok v \<and> m' = bt_insert k v m)"
  by (auto simp: insert_locked_def)

lemma insert_locked_fold:
  assumes "try_fold (insert_locked f) m xs = Ok m'" and "bt_wf m"
  shows "bt_wf m' \<and> set (bt_keys m') = set (bt_keys m) \<union> fst ` set xs \<and>
    (\<forall>k v. bt_get m' k = Some v \<longrightarrow> bt_get m k = Some v \<or> (\<exists>x. (k, x) \<in> set xs \<and> f (k, x) = Ok v))"
  using assms
proof (induction xs arbitrary: m)
  case (Cons e xs)
  obtain k x where e: "e = (k, x)" by (cases e)
  from Cons.prems(1) obtain v where v: "f (k, x) = Ok v" "try_fold (insert_locked f) (bt_insert k v m) xs = Ok m'"
    by (auto simp: insert_locked_Ok e)
  have wf: "bt_wf (bt_insert k v m)" using Cons.prems(2) by (rule bt_wf_insert)
  have keys: "set (bt_keys (bt_insert k v m)) = insert k (set (bt_keys m))"
    by (simp add: bt_keys_def fst_set_bt_insert)
  note IH = Cons.IH [OF v(2) wf, unfolded keys bt_get_insert [OF Cons.prems(2)]]
  have "bt_get m k' = Some v' \<or> (\<exists>x. (k', x) \<in> set (e # xs) \<and> f (k', x) = Ok v')" if "bt_get m' k' = Some v'" for k' v'
    using IH [THEN conjunct2, THEN conjunct2, rule_format, OF that] v(1) by (auto simp: e split: if_splits)
  with IH show ?case by (simp add: e)
qed simp

lemma check_service_Ok:
  assumes "check_service names networks volumes name service = Ok build"
  shows "ls_image (build img) = img"
    and "length (ls_volumes (build img)) \<le> 64"
    and "\<forall>v \<in> set (ls_volumes (build img)). mount_ok volumes v"
    and "distinct (map vol_destination (ls_volumes (build img)))"
    and "bt_wf (ls_depends_on (build img))"
    and "set (bt_keys (ls_depends_on (build img))) \<subseteq> names - {name}"
    and "ls_root_filesystem (build img) = WritableRoot \<longleftrightarrow> si_read_only service = Some False"
proof -
  from assms obtain specs D deps where
    mounts: "try_fold (lock_mount volumes name) ([], {}) (si_volumes service) = Ok (specs, D)"
    and deps: "try_fold (insert_locked (lock_dependency names name)) [] (si_depends_on service) = Ok deps"
    and few: "length (si_volumes service) \<le> 64"
    and build: "\<And>img. ls_image (build img) = img" "\<And>img. ls_volumes (build img) = specs"
      "\<And>img. ls_depends_on (build img) = deps"
      "\<And>img. ls_root_filesystem (build img) = (if si_read_only service = Some False then WritableRoot else ReadOnlyRoot)"
    by (auto simp: check_service_def Let_def split: if_splits)
  have specs: "(\<forall>v \<in> set specs. mount_ok volumes v) \<and> distinct (map vol_destination specs) \<and>
      length specs = length (si_volumes service)"
    using lock_mounts_Ok [of volumes name "[]" "si_volumes service" specs D] mounts by simp
  have wf: "bt_wf deps" and keys: "set (bt_keys deps) = fst ` set (si_depends_on service)"
    and from_input: "\<And>k v. bt_get deps k = Some v \<Longrightarrow> \<exists>x. lock_dependency names name (k, x) = Ok v"
    using insert_locked_fold [OF deps bt_wf_Nil] by (simp_all add: bt_keys_def bt.get_empty) blast
  have "k \<in> names - {name}" if "k \<in> set (bt_keys deps)" for k
  proof -
    from that obtain v where "bt_get deps k = Some v"
      by (auto simp: bt_contains_iff [symmetric] bt_contains_def)
    from from_input [OF this] show ?thesis by (auto simp: lock_dependency_def)
  qed
  then have "set (bt_keys deps) \<subseteq> names - {name}" by blast
  with specs wf few build show "ls_image (build img) = img" "length (ls_volumes (build img)) \<le> 64"
    "\<forall>v \<in> set (ls_volumes (build img)). mount_ok volumes v"
    "distinct (map vol_destination (ls_volumes (build img)))" "bt_wf (ls_depends_on (build img))"
    "set (bt_keys (ls_depends_on (build img))) \<subseteq> names - {name}"
    "ls_root_filesystem (build img) = WritableRoot \<longleftrightarrow> si_read_only service = Some False"
    by auto
qed

lemma lock_services_Ok:
  assumes "lock_services resolve check s acc xs = (Ok services, s')" and "bt_wf acc"
  shows "bt_wf services \<and> set (bt_keys services) = set (bt_keys acc) \<union> fst ` set xs \<and>
    (\<forall>k l. bt_get services k = Some l \<longrightarrow> bt_get acc k = Some l \<or>
       (\<exists>input build img. (k, input) \<in> set xs \<and> check k input = Ok build \<and> l = build img))"
  using assms
proof (induction resolve check s acc xs rule: lock_services.induct)
  case (2 resolve check s acc name service rest)
  from 2(2) obtain build img t where step: "check name service = Ok build"
    "resolve s (si_image service) = (Ok img, t)"
    "lock_services resolve check t (bt_insert name (build img) acc) rest = (Ok services, s')"
    by (auto split: sum.splits prod.splits)
  have wf: "bt_wf (bt_insert name (build img) acc)" using 2(3) by (rule bt_wf_insert)
  have keys: "set (bt_keys (bt_insert name (build img) acc)) = insert name (set (bt_keys acc))"
    by (simp add: bt_keys_def fst_set_bt_insert)
  note IH = 2(1) [OF step(1) step(2) [symmetric] refl step(3) wf, unfolded keys bt_get_insert [OF 2(3)]]
  have "bt_get acc k = Some l \<or>
      (\<exists>input build img. (k, input) \<in> set ((name, service) # rest) \<and> check k input = Ok build \<and> l = build img)"
    if "bt_get services k = Some l" for k l
    using IH [THEN conjunct2, THEN conjunct2, rule_format, OF that] step(1) by (auto split: if_splits)
  with IH show ?case by simp
qed simp

subsection \<open>Compilation\<close>

lemma healthy_each_no_panic:
  assumes "set (bt_keys deps) \<subseteq> set (bt_keys services)"
  shows "exec_each (healthy_dependency services name) deps \<noteq> Panic"
proof (rule exec_each_no_panic)
  fix entry assume "entry \<in> set deps"
  with assms have "fst entry \<in> set (bt_keys services)" by (auto simp: bt_keys_def)
  then have "bt_get services (fst entry) \<noteq> None"
    by (simp add: bt_contains_iff [symmetric] bt_contains_def)
  then show "healthy_dependency services name entry \<noteq> Panic" by (auto simp: healthy_dependency_def)
qed

lemma sandbox_policy_default_Done: "\<exists>d. sandbox_policy_default = Done d"
proof -
  obtain strict where "strict_profile = Done strict" using strict_profile_exists exec.exhaust by blast
  then show ?thesis unfolding sandbox_policy_default_def by simp blast
qed

lemma compile_policy_total: "compile_policy input \<noteq> Panic"
proof -
  obtain d where d: "sandbox_policy_default = Done d" using sandbox_policy_default_Done by blast
  show ?thesis unfolding compile_policy_def d by (simp add: exec_then_eq_Panic)
qed

lemma compile_policy_Ok:
  assumes "compile_policy input = Done (Ok policy)"
  shows "reviewed (sp_guest_profile policy) \<noteq> None \<and> sp_network policy = ci_network_policy input"
proof -
  obtain d where d: "sandbox_policy_default = Done d" using sandbox_policy_default_Done by blast
  from assms show ?thesis unfolding compile_policy_def d by (auto split: if_splits)
qed

text \<open>
  What \<open>compile\<close> has established when it reaches the checks on the whole topology.
\<close>

definition services_closed ::
  "(string, locked_volume) btree_map \<Rightarrow> (string, locked_service) btree_map \<Rightarrow> bool" where
  "services_closed volumes services \<longleftrightarrow> bt_wf services \<and>
     (\<forall>(name, service) \<in> set services. length (ls_volumes service) \<le> 64 \<and>
        (\<forall>v \<in> set (ls_volumes service). mount_ok volumes v) \<and>
        distinct (map vol_destination (ls_volumes service)) \<and>
        set (bt_keys (ls_depends_on service)) \<subseteq> set (bt_keys services) - {name})"

lemma compile_services:
  assumes "lock_services resolve (check_service (set (bt_keys (ci_services input))) networks volumes) s []
      (ci_services input) = (Ok services, s')"
  shows "services_closed volumes services \<and> set (bt_keys services) = set (bt_keys (ci_services input)) \<and>
    (\<forall>(name, service) \<in> set services. \<exists>si. (name, si) \<in> set (ci_services input) \<and>
       (ls_root_filesystem service = WritableRoot \<longleftrightarrow> si_read_only si = Some False))"
proof -
  let ?check = "check_service (set (bt_keys (ci_services input))) networks volumes"
  from lock_services_Ok [OF assms bt_wf_Nil]
  have wf: "bt_wf services" and keys: "set (bt_keys services) = set (bt_keys (ci_services input))"
    and built: "\<And>k l. bt_get services k = Some l \<Longrightarrow>
       \<exists>si build img. (k, si) \<in> set (ci_services input) \<and> ?check k si = Ok build \<and> l = build img"
    by (simp_all add: bt_keys_def bt.get_empty)
  have each: "\<exists>si build img. (name, si) \<in> set (ci_services input) \<and> ?check name si = Ok build \<and> service = build img"
    if "(name, service) \<in> set services" for name service
    using that built wf by (simp add: bt_get_in_set)
  have "length (ls_volumes service) \<le> 64 \<and> (\<forall>v \<in> set (ls_volumes service). mount_ok volumes v) \<and>
      distinct (map vol_destination (ls_volumes service)) \<and>
      set (bt_keys (ls_depends_on service)) \<subseteq> set (bt_keys services) - {name} \<and>
      (\<exists>si. (name, si) \<in> set (ci_services input) \<and>
         (ls_root_filesystem service = WritableRoot \<longleftrightarrow> si_read_only si = Some False))"
    if here: "(name, service) \<in> set services" for name service
  proof -
    from each [OF here] obtain si build img where b: "(name, si) \<in> set (ci_services input)"
      "?check name si = Ok build" "service = build img" by blast
    from check_service_Ok [OF b(2), of img] b(1,3) show ?thesis unfolding keys by blast
  qed
  with wf keys show ?thesis by (auto simp: services_closed_def)
qed

lemma compile_tail_no_panic:
  assumes "services_closed volumes services"
  shows "compile_tail to_json sha256_hex input name volumes networks services \<noteq> Panic"
proof -
  have "exec_each (\<lambda>(service_name, service).
      exec_each (healthy_dependency services service_name) (ls_depends_on service)) services \<noteq> Panic"
  proof (rule exec_each_no_panic)
    fix entry assume here: "entry \<in> set services"
    obtain n service where e: "entry = (n, service)" by (cases entry) auto
    have "set (bt_keys (ls_depends_on service)) \<subseteq> set (bt_keys services)"
      using assms here unfolding services_closed_def e by blast
    then show "(case entry of (service_name, service) \<Rightarrow>
        exec_each (healthy_dependency services service_name) (ls_depends_on service)) \<noteq> Panic"
      unfolding e prod.case by (rule healthy_each_no_panic)
  qed
  moreover have "exec_bind (network_validate p services) (\<lambda>r. Done (map_err Compose r)) \<noteq> Panic" for p
    using network_validate_no_panic [of p services] by (cases "network_validate p services") auto
  ultimately show ?thesis
    by (simp add: compile_tail_def exec_then_eq_Panic compile_policy_total Let_def)
qed

lemma compile_tail_Ok:
  assumes "compile_tail to_json sha256_hex input name volumes networks services = Done (Ok lock)"
    and closed: "services_closed volumes services"
  shows "verify_lock to_json sha256_hex lock = Done (Ok ()) \<and> tl_services lock = services \<and>
    tl_networks lock = networks \<and> tl_volumes lock = volumes \<and> tl_name lock = name \<and>
    valid_order services (tl_startup_order lock) \<and> reviewed (sp_guest_profile (tl_policy lock)) \<noteq> None \<and>
    (\<forall>(n, service) \<in> set services. \<forall>(d, condition) \<in> set (ls_depends_on service).
       condition = DepHealthy \<longrightarrow> (\<exists>dep. bt_get services d = Some dep \<and> ls_healthcheck dep \<noteq> None))"
proof -
  from assms(1) obtain order policy digest where
    healthy: "\<forall>(n, service) \<in> set services. \<forall>entry \<in> set (ls_depends_on service).
        healthy_dependency services n entry = Done (Ok ())"
    and order: "startup_order services = Ok order"
    and policy: "compile_policy input = Done (Ok policy)"
    and network: "network_validate (sp_network policy) services = Done (Ok ())"
    and digest: "topology_digest_of to_json sha256_hex (lock_digest_input
        \<lparr>tl_schema_version = LOCK_SCHEMA_VERSION, tl_topology_digest = [], tl_name = name,
           tl_services = services, tl_networks = networks, tl_volumes = volumes,
           tl_startup_order = order, tl_policy = policy\<rparr>) = Ok digest"
    and lock: "lock = \<lparr>tl_schema_version = LOCK_SCHEMA_VERSION, tl_topology_digest = digest, tl_name = name,
           tl_services = services, tl_networks = networks, tl_volumes = volumes,
           tl_startup_order = order, tl_policy = policy\<rparr>"
    by (auto simp: compile_tail_def Let_def split: prod.splits)
  have "verify_lock to_json sha256_hex lock = Done (Ok ())"
    unfolding verify_lock_Ok verify_service_volumes_Ok using digest network closed
    by (auto simp: lock lock_digest_input_def services_closed_def)
  moreover have "valid_order services order"
    using startup_order_valid [OF _ order] closed by (simp add: services_closed_def)
  moreover have "\<forall>(n, service) \<in> set services. \<forall>(d, condition) \<in> set (ls_depends_on service).
       condition = DepHealthy \<longrightarrow> (\<exists>dep. bt_get services d = Some dep \<and> ls_healthcheck dep \<noteq> None)"
    using healthy by (fastforce simp: healthy_dependency_def split: option.splits if_splits)
  ultimately show ?thesis using compile_policy_Ok [OF policy] by (simp add: lock)
qed

lemma compile_Ok:
  assumes "compile to_json sha256_hex resolve s input = (Done (Ok lock), s')"
  obtains name volumes networks services where "compile_head input = Ok (name, volumes, networks)"
    and "lock_services resolve (check_service (set (bt_keys (ci_services input))) networks volumes) s []
      (ci_services input) = (Ok services, s')"
    and "compile_tail to_json sha256_hex input name volumes networks services = Done (Ok lock)"
  using assms by (auto simp: compile_def split: sum.splits prod.splits)

lemma compile_head_Ok:
  assumes "compile_head input = Ok (name, volumes, networks)"
  shows "ci_services input \<noteq> []" and "length (ci_services input) \<le> 32"
    and "\<forall>(n, network) \<in> set networks. ln_internal network \<and> ln_driver network = ''bridge''"
proof -
  from assms have fold: "try_fold (insert_locked lock_network) []
      (if ci_networks input = [] then [(''default'', network_input_default)] else ci_networks input) = Ok networks"
    and "ci_services input \<noteq> []" "length (ci_services input) \<le> MAX_SERVICES"
    by (auto simp: compile_head_def Let_def split del: if_split)
  then show "ci_services input \<noteq> []" "length (ci_services input) \<le> 32" by (simp_all add: MAX_SERVICES_def)
  from insert_locked_fold [OF fold bt_wf_Nil]
  have wf: "bt_wf networks" and l: "\<And>k v. bt_get networks k = Some v \<Longrightarrow> \<exists>x. lock_network (k, x) = Ok v"
    by (simp_all add: bt.get_empty) blast
  have "ln_internal network \<and> ln_driver network = ''bridge''" if "(n, network) \<in> set networks" for n network
  proof -
    from that wf have "bt_get networks n = Some network" by (simp add: bt_get_in_set)
    from l [OF this] show ?thesis by (auto simp: lock_network_def)
  qed
  then show "\<forall>(n, network) \<in> set networks. ln_internal network \<and> ln_driver network = ''bridge''" by blast
qed

lemma length_le_keys: "bt_wf m \<Longrightarrow> set (bt_keys m) \<subseteq> set xs \<Longrightarrow> length m \<le> length xs"
  by (metis List.finite_set bt.distinct_keys card_length card_mono distinct_card le_trans length_bt_keys)

text \<open>
  C7: Whatever the compiler accepts, every daemon accepts: the lock passes \<open>verify_lock\<close>. It
  has between 1 and 32 services, those of the input; its startup order runs every
  dependency first; a service required to be healthy has a health check; every network is
  internal; the guest profile is a reviewed one; and a root file system is writable only
  where the input says \<open>read_only: false\<close>.
\<close>

theorem compiled_lock_verifies:
  assumes "compile to_json sha256_hex resolve s input = (Done (Ok lock), s')"
  shows "verify_lock to_json sha256_hex lock = Done (Ok ()) \<and>
    set (bt_keys (tl_services lock)) = set (bt_keys (ci_services input)) \<and>
    0 < length (tl_services lock) \<and> length (tl_services lock) \<le> 32 \<and>
    valid_order (tl_services lock) (tl_startup_order lock) \<and>
    (\<forall>(n, service) \<in> set (tl_services lock). \<forall>(d, condition) \<in> set (ls_depends_on service).
       condition = DepHealthy \<longrightarrow>
         (\<exists>dep. bt_get (tl_services lock) d = Some dep \<and> ls_healthcheck dep \<noteq> None)) \<and>
    (\<forall>(n, network) \<in> set (tl_networks lock). ln_internal network \<and> ln_driver network = ''bridge'') \<and>
    reviewed (sp_guest_profile (tl_policy lock)) \<noteq> None \<and>
    (\<forall>(n, service) \<in> set (tl_services lock). ls_root_filesystem service = WritableRoot \<longrightarrow>
       (\<exists>si. (n, si) \<in> set (ci_services input) \<and> si_read_only si = Some False))"
proof -
  from assms obtain name volumes networks services where head: "compile_head input = Ok (name, volumes, networks)"
    and locked: "lock_services resolve (check_service (set (bt_keys (ci_services input))) networks volumes) s []
      (ci_services input) = (Ok services, s')"
    and tail: "compile_tail to_json sha256_hex input name volumes networks services = Done (Ok lock)"
    by (rule compile_Ok)
  note services = compile_services [OF locked]
  note result = compile_tail_Ok [OF tail services [THEN conjunct1]]
  have keys: "set (bt_keys services) = set (bt_keys (ci_services input))" using services by blast
  have "bt_wf services" using services by (simp add: services_closed_def)
  from length_le_keys [OF this, of "bt_keys (ci_services input)"] keys
  have "length services \<le> 32" using compile_head_Ok(2) [OF head] by simp
  moreover have "0 < length services"
    using keys compile_head_Ok(1) [OF head] by (cases services) (auto simp: bt_keys_def)
  moreover have "\<forall>(n, service) \<in> set services. ls_root_filesystem service = WritableRoot \<longrightarrow>
       (\<exists>si. (n, si) \<in> set (ci_services input) \<and> si_read_only si = Some False)"
    using services by fast
  ultimately show ?thesis using result keys compile_head_Ok(3) [OF head] by simp
qed

subsection \<open>Volume usage\<close>

definition quota_of :: "topology_lock \<Rightarrow> string \<Rightarrow> nat" where
  "quota_of lock i = (case bt_get (tl_volumes lock) i of None \<Rightarrow> 0 | Some d \<Rightarrow> unat (lv_quota_bytes d))"

lemma sum_quotas_exact:
  assumes "\<forall>i \<in> set ids. bt_get (tl_volumes lock) i \<noteq> None"
  shows "\<exists>r. sum_quotas lock acc ids = Done r \<and>
    (\<forall>q. r = Ok q \<longleftrightarrow> unat q = unat acc + sum_list (map (quota_of lock) ids))"
  using assms
proof (induction ids arbitrary: acc)
  case Nil
  then show ?case by (auto simp: word_unat_eq_iff)
next
  case (Cons i ids)
  then obtain d where d: "bt_get (tl_volumes lock) i = Some d" by auto
  then have quota: "quota_of lock i = unat (lv_quota_bytes d)" by (simp add: quota_of_def)
  show ?case
  proof (cases "checked_add acc (lv_quota_bytes d)")
    case None
    then have "2 ^ 64 \<le> unat acc + unat (lv_quota_bytes d)" by (simp add: checked_add_eq_None)
    moreover have "unat q < 2 ^ 64" for q :: u64 by (rule unat_u64_lt)
    ultimately have "unat q \<noteq> unat acc + (unat (lv_quota_bytes d) + sum_list (map (quota_of lock) ids))" for q :: u64
      by (metis add.assoc leD le_add1 le_trans)
    with None d show ?thesis by (simp add: quota)
  next
    case (Some acc')
    then have "unat acc' = unat acc + unat (lv_quota_bytes d)" by (simp add: checked_add_eq_Some)
    with Some d Cons.IH [of acc'] Cons.prems show ?thesis by (simp add: quota add.assoc)
  qed
qed

definition mounted_volumes :: "topology_lock \<Rightarrow> string set" where
  "mounted_volumes lock = {vol_id v | n service v. (n, service) \<in> set (tl_services lock) \<and> v \<in> set (ls_volumes service)}"

lemma used_volume_ids: "set (used_volume_ids lock) = mounted_volumes lock" "distinct (used_volume_ids lock)"
  by (auto simp: used_volume_ids_def mounted_volumes_def bt_values_def) force+

lemma mounted_volumes_defined:
  assumes "verify_lock to_json sha256_hex lock = Done (Ok ())" and "i \<in> mounted_volumes lock"
  shows "bt_get (tl_volumes lock) i \<noteq> None"
  using assms by (fastforce simp: mounted_volumes_def verify_lock_Ok verify_service_volumes_Ok mount_ok_def)

lemma topology_volume_usage_no_panic: "topology_volume_usage to_json sha256_hex lock \<noteq> Panic"
  using verify_lock_no_panic [of to_json sha256_hex lock]
    sum_quotas_exact [of "used_volume_ids lock" lock 0] mounted_volumes_defined [of to_json sha256_hex lock]
  by (auto simp: topology_volume_usage_def exec_then_eq_Panic used_volume_ids)

text \<open>
  C31: No lookup behind these functions panics, whatever the input: compiling a Compose input
  with any image provider, verifying any lock and computing the volume usage of any lock all
  return a value or an error.
\<close>

theorem topology_code_never_panics:
  "fst (compile to_json sha256_hex resolve s input) \<noteq> Panic \<and>
   verify_lock to_json sha256_hex lock \<noteq> Panic \<and> topology_volume_usage to_json sha256_hex lock \<noteq> Panic"
proof (intro conjI)
  show "fst (compile to_json sha256_hex resolve s input) \<noteq> Panic"
    using compile_tail_no_panic compile_services
    by (fastforce simp: compile_def split: sum.splits prod.splits)
  show "verify_lock to_json sha256_hex lock \<noteq> Panic" by (rule verify_lock_no_panic)
  show "topology_volume_usage to_json sha256_hex lock \<noteq> Panic" by (rule topology_volume_usage_no_panic)
qed

text \<open>
  C32: The volume usage charged for a verified lock is exact: it counts every mounted volume
  once however many services share it, and adds their quotas without wrap-around; when the
  sum does not fit 64 bits the result is an error.
\<close>

theorem volume_usage_is_exact:
  assumes "verify_lock to_json sha256_hex lock = Done (Ok ())"
  shows "\<exists>r. topology_volume_usage to_json sha256_hex lock = Done r \<and>
    (\<forall>u. r = Ok u \<longleftrightarrow> vru_count u = card (mounted_volumes lock) \<and>
       unat (vru_quota_bytes u) = (\<Sum>i \<in> mounted_volumes lock. quota_of lock i))"
proof -
  have "\<forall>i \<in> set (used_volume_ids lock). bt_get (tl_volumes lock) i \<noteq> None"
    using mounted_volumes_defined [OF assms] used_volume_ids(1) by blast
  from sum_quotas_exact [OF this, of 0] obtain r where r: "sum_quotas lock 0 (used_volume_ids lock) = Done r"
    "\<And>q. r = Ok q \<longleftrightarrow> unat q = (\<Sum>i \<in> mounted_volumes lock. quota_of lock i)"
    by (auto simp: sum_list_distinct_conv_sum_set used_volume_ids)
  have count: "length (used_volume_ids lock) = card (mounted_volumes lock)"
    using distinct_card [OF used_volume_ids(2), of lock] by (simp add: used_volume_ids(1))
  show ?thesis
  proof (cases r)
    case (Inl e)
    with r(2) have "unat q \<noteq> (\<Sum>i \<in> mounted_volumes lock. quota_of lock i)" for q :: u64 by auto
    with Inl r(1) assms show ?thesis by (simp add: topology_volume_usage_def)
  next
    case (Inr q)
    then have q: "unat q = (\<Sum>i \<in> mounted_volumes lock. quota_of lock i)" using r(2) by blast
    have "topology_volume_usage to_json sha256_hex lock =
        Done (Ok \<lparr>vru_count = card (mounted_volumes lock), vru_quota_bytes = q\<rparr>)"
      using Inr r(1) assms by (simp add: topology_volume_usage_def count)
    moreover have "\<lparr>vru_count = card (mounted_volumes lock), vru_quota_bytes = q\<rparr> = u \<longleftrightarrow>
        vru_count u = card (mounted_volumes lock) \<and> unat (vru_quota_bytes u) = unat q" for u
      by (cases u) (auto simp: word_unat_eq_iff)
    ultimately show ?thesis using q by auto
  qed
qed

subsection \<open>One image per reference\<close>

lemma cached_resolve_Ok:
  assumes "cached_resolve provider s reference = (Ok img, s')" and "bt_wf (fst s)"
  shows "bt_wf (fst s')" and "bt_get (fst s') reference = Some img"
    and "bt_get (fst s) r = Some i \<Longrightarrow> bt_get (fst s') r = Some i"
  using assms by (auto simp: cached_resolve_def bt_simps split: option.splits sum.splits prod.splits)

lemma lock_services_cached:
  assumes "lock_services (cached_resolve provider) check s acc xs = (Ok services, s')"
    and "bt_wf acc" and "bt_wf (fst s)" and "distinct (map fst xs)" and "fst ` set xs \<inter> set (bt_keys acc) = {}"
  shows "(\<forall>r i. bt_get (fst s) r = Some i \<longrightarrow> bt_get (fst s') r = Some i) \<and>
    (\<forall>k l. bt_get acc k = Some l \<longrightarrow> bt_get services k = Some l) \<and>
    (\<forall>(k, si) \<in> set xs. \<exists>build img. check k si = Ok build \<and> bt_get services k = Some (build img) \<and>
       bt_get (fst s') (si_image si) = Some img)"
  using assms
proof (induction "cached_resolve provider" check s acc xs rule: lock_services.induct)
  case (2 check s acc name service rest)
  from 2(2) obtain build img t where step: "check name service = Ok build"
    "cached_resolve provider s (si_image service) = (Ok img, t)"
    "lock_services (cached_resolve provider) check t (bt_insert name (build img) acc) rest = (Ok services, s')"
    by (auto split: sum.splits prod.splits)
  note cache = cached_resolve_Ok [OF step(2) 2(4)]
  have wf: "bt_wf (bt_insert name (build img) acc)" using 2(3) by (rule bt_wf_insert)
  have fresh: "bt_get acc name = None"
    using 2(6) by (auto simp: bt_contains_iff [symmetric] bt_contains_def)
  have keys: "fst ` set rest \<inter> set (bt_keys (bt_insert name (build img) acc)) = {}"
    using 2(5,6) by (auto simp: bt_keys_def fst_set_bt_insert)
  from 2(5) have dist: "distinct (map fst rest)" by simp
  note IH = 2(1) [OF step(1) step(2) [symmetric] refl step(3) wf cache(1) dist keys, unfolded bt_get_insert [OF 2(3)]]
  have acc: "bt_get services k = Some l" if "bt_get acc k = Some l" for k l
    using IH that fresh by (cases "k = name") auto
  have "bt_get services name = Some (build img)" using IH by simp
  moreover have "bt_get (fst s') (si_image service) = Some img" using IH cache(2) by blast
  ultimately show ?case using IH acc cache(3) step(1) by auto
qed simp

text \<open>
  Within one compilation a reference is resolved at most once: two services of the input
  that name the same image reference are locked to the same image, even if the registry moves
  the tag and the provider would answer differently the second time.
\<close>

theorem one_image_per_reference:
  assumes "lock_compose to_json sha256_hex read_file from_yaml provider p path = (Done (Ok lock), s')"
    and "read_file path = Ok bytes" and "from_yaml bytes = Ok input" and "bt_wf (ci_services input)"
    and "bt_get (ci_services input) a = Some x" and "bt_get (ci_services input) b = Some y"
    and "si_image x = si_image y"
  shows "\<exists>l m. bt_get (tl_services lock) a = Some l \<and> bt_get (tl_services lock) b = Some m \<and>
    ls_image l = ls_image m"
proof -
  from assms(1-3) have "compile to_json sha256_hex (cached_resolve provider) ([], p) input = (Done (Ok lock), s')"
    by (auto simp: lock_compose_def split: if_splits)
  then obtain name volumes networks services where
    locked: "lock_services (cached_resolve provider) (check_service (set (bt_keys (ci_services input))) networks volumes)
      ([], p) [] (ci_services input) = (Ok services, s')"
    and tail: "compile_tail to_json sha256_hex input name volumes networks services = Done (Ok lock)"
    by (rule compile_Ok)
  have services: "tl_services lock = services"
    using compile_tail_Ok [OF tail compile_services [OF locked, THEN conjunct1]] by blast
  have dist: "distinct (map fst (ci_services input))"
    using bt.distinct_keys [OF assms(4)] by (simp add: bt_keys_def)
  have img: "\<exists>l. bt_get services k = Some l \<and> bt_get (fst s') (si_image si) = Some (ls_image l)"
    if "bt_get (ci_services input) k = Some si" for k si
  proof -
    have "(k, si) \<in> set (ci_services input)" using that assms(4) by (simp add: bt_get_in_set)
    with lock_services_cached [OF locked bt_wf_Nil _ dist]
    obtain build i where "check_service (set (bt_keys (ci_services input))) networks volumes k si = Ok build"
      "bt_get services k = Some (build i)" "bt_get (fst s') (si_image si) = Some i"
      by (auto simp: bt_keys_def)
    then show ?thesis using check_service_Ok(1) by fastforce
  qed
  from img [OF assms(5)] img [OF assms(6)] assms(7) show ?thesis unfolding services by fastforce
qed

subsection \<open>A sample topology\<close>

definition sample_image :: locked_image where
  "sample_image = (let d = \<lparr>ld_media_type = ''m'', ld_digest = ''d'', ld_size = 1\<rparr> in
     \<lparr>li_source = ''x'', li_exact_reference = ''x'', li_image_id = ''x'', li_index = None, li_manifest = d,
      li_config = d, li_layers = [d], li_operating_system = ''linux'', li_architecture = ''amd64'',
      li_variant = None\<rparr>)"

definition sample_service :: "(string, dependency_condition) btree_map \<Rightarrow> service_input" where
  "sample_service deps = \<lparr>si_image = ''x'', si_command = [], si_entrypoint = [], si_environment = [],
     si_depends_on = deps,
     si_healthcheck = Some \<lparr>hi_test = [''CMD'', ''true''], hi_interval_ms = 100, hi_timeout_ms = 1000, hi_retries = 30\<rparr>,
     si_networks = [], si_working_dir = None, si_read_only = None,
     si_volumes = [\<lparr>sv_source = ''shared'', sv_target = ''/data'', sv_read_only = None\<rparr>]\<rparr>"

definition sample_compose :: compose_input where
  "sample_compose = \<lparr>ci_name = Some ''demo'',
     ci_services = [(''a'', sample_service [(''b'', DepHealthy)]), (''b'', sample_service [])],
     ci_networks = [], ci_volumes = [(''shared'', \<lparr>vi_persistence_class = VolPersistent,
       vi_snapshot_policy = None, vi_quota_bytes = Some 8388608, vi_content_digest = None\<rparr>)],
     ci_guest_profile = None, ci_network_policy = network_policy_default\<rparr>"

definition sample_resolve :: "unit resolver" where
  "sample_resolve s reference = (Ok sample_image, s)"

lemma sample_compile_parts:
  "compile_head sample_compose = Ok (''demo'',
     [(''shared'', \<lparr>lv_persistence_class = VolPersistent, lv_snapshot_policy = Required,
        lv_quota_bytes = 8388608, lv_content_digest = None\<rparr>)],
     [(''default'', \<lparr>ln_internal = True, ln_driver = ''bridge''\<rparr>)])"
  by (simp add: compile_head_def sample_compose_def validate_identifier_def ascii_defs MAX_SERVICES_def
      MAX_VOLUMES_def MAX_NETWORKS_def insert_locked_def lock_volume_def parse_volume_id_def identifier_ok_def
      identifier_byte_def lock_network_def network_input_default_def default_snapshot_policy_def)

definition sample_locked :: "(string, dependency_condition) btree_map \<Rightarrow> locked_image \<Rightarrow> locked_service" where
  "sample_locked deps img = \<lparr>ls_image = img, ls_command = [], ls_entrypoint = [], ls_environment = [],
     ls_depends_on = deps,
     ls_healthcheck = Some \<lparr>lh_command = [''true''], lh_interval_ms = 100, lh_timeout_ms = 1000, lh_retries = 30\<rparr>,
     ls_networks = [''default''], ls_working_dir = ''/work'', ls_root_filesystem = ReadOnlyRoot,
     ls_volumes = [\<lparr>vol_schema_version = 1, vol_id = ''shared'', vol_destination = ''/data'',
       vol_read_only = False, vol_persistence_class = VolPersistent, vol_snapshot_policy = Required,
       vol_quota_bytes = 8388608, vol_content_digest = None\<rparr>]\<rparr>"

lemma sample_check:
  assumes "\<forall>(d, c) \<in> set deps. d \<noteq> n \<and> d \<in> {''a'', ''b''}" and "n \<in> {''a'', ''b''}" and "length deps \<le> 1"
  shows "check_service {''a'', ''b''} [(''default'', \<lparr>ln_internal = True, ln_driver = ''bridge''\<rparr>)]
     [(''shared'', \<lparr>lv_persistence_class = VolPersistent, lv_snapshot_policy = Required,
        lv_quota_bytes = 8388608, lv_content_digest = None\<rparr>)] n (sample_service deps) = Ok (sample_locked deps)"
proof -
  have ident: "validate_identifier ''service'' n = Ok ()"
    using assms(2) by (auto simp: validate_identifier_def ascii_defs)
  have deps: "try_fold (insert_locked (lock_dependency {''a'', ''b''} n)) [] deps = Ok deps"
    using assms(1,3) by (cases deps) (auto simp: insert_locked_def lock_dependency_def)
  show ?thesis
    unfolding check_service_def ident
    by (simp add: sample_service_def sample_locked_def [abs_def] deps validate_values_def validate_value_def
        MAX_ENVIRONMENT_def MAX_ARGUMENTS_def MAX_VALUE_BYTES_def lock_mount_def bt_get_def parse_volume_id_def
        identifier_ok_def identifier_byte_def ascii_defs volume_validate_def validate_destination_def
        VOLUME_SPEC_VERSION_def MINIMUM_NAMED_VOLUME_BYTES_def components_def nul_def select_network_def
        bt_contains_def lock_healthcheck_def validate_image_reference_def)
qed

definition sample_services :: "(string, locked_service) btree_map" where
  "sample_services = [(''a'', sample_locked [(''b'', DepHealthy)] sample_image), (''b'', sample_locked [] sample_image)]"

lemma sample_services_wf: "bt_wf sample_services"
  by (simp add: sample_services_def bt_wf_def)

lemma sample_order: "startup_order sample_services = Ok [''b'', ''a'']"
  by (simp add: startup_order_def sample_services_def sample_locked_def bt_map_values_def bt_keys_def
      order_loop.simps bt_remove_def)

lemma sample_lock_services:
  "lock_services resolve (check_service (set (bt_keys (ci_services sample_compose)))
       [(''default'', \<lparr>ln_internal = True, ln_driver = ''bridge''\<rparr>)]
       [(''shared'', \<lparr>lv_persistence_class = VolPersistent, lv_snapshot_policy = Required,
          lv_quota_bytes = 8388608, lv_content_digest = None\<rparr>)]) s [] (ci_services sample_compose) =
   (Ok sample_services, s')" if "resolve s ''x'' = (Ok sample_image, t)" "resolve t ''x'' = (Ok sample_image, s')"
proof -
  have keys: "set (bt_keys (ci_services sample_compose)) = {''a'', ''b''}"
    by (simp add: sample_compose_def bt_keys_def)
  have image: "si_image (sample_service deps) = ''x''" for deps by (simp add: sample_service_def)
  show ?thesis
    unfolding keys using that by (simp add: sample_compose_def sample_check image sample_services_def)
qed

lemma sample_policy_limits: "network_validate network_policy_default services = Done (Ok ())"
  by (simp add: network_validate_def profile_check_def policy_default_defs limits_out_of_bounds_def)

definition sample_topology_policy :: sandbox_policy where
  "sample_topology_policy = \<lparr>sp_guest_profile = GuestProfileIdentity ''strict'' 1, sp_runtime = ''runsc'',
      sp_memory_bytes_per_service = 134217728, sp_cpu_per_service_millis = 500, sp_pids_per_service = 96,
      sp_tmpfs_bytes = 16777216, sp_writable_root_bytes_per_service = 67108864,
      sp_maximum_output_bytes = 1048576, sp_network = network_policy_default\<rparr>"

definition sample_lock :: topology_lock where
  "sample_lock = \<lparr>tl_schema_version = LOCK_SCHEMA_VERSION, tl_topology_digest = ''sha256:00'', tl_name = ''demo'',
     tl_services = sample_services, tl_networks = [(''default'', \<lparr>ln_internal = True, ln_driver = ''bridge''\<rparr>)],
     tl_volumes = [(''shared'', \<lparr>lv_persistence_class = VolPersistent, lv_snapshot_policy = Required,
        lv_quota_bytes = 8388608, lv_content_digest = None\<rparr>)],
     tl_startup_order = [''b'', ''a''], tl_policy = sample_topology_policy\<rparr>"

lemma sample_compile_tail:
  "compile_tail (\<lambda>_. Ok []) (\<lambda>_. ''00'') sample_compose ''demo'' (tl_volumes sample_lock) (tl_networks sample_lock)
     sample_services = Done (Ok sample_lock)"
proof -
  obtain strict where strict: "strict_profile = Done strict" using strict_profile_exists exec.exhaust by blast
  let ?d = "sample_topology_policy\<lparr>sp_guest_profile := profile_identity strict\<rparr>"
  have d: "sandbox_policy_default = Done ?d"
    unfolding sandbox_policy_default_def strict by (simp add: sample_topology_policy_def)
  have e: "?d\<lparr>sp_guest_profile := GuestProfileIdentity ''strict'' 1, sp_network := network_policy_default\<rparr> = sample_topology_policy"
    by (simp add: sample_topology_policy_def)
  have r: "reviewed (GuestProfileIdentity ''strict'' 1) \<noteq> None"
    using strict gp_parse_samples(1)
    by (auto simp: strict_profile_def reviewed_named_def split: option.splits sum.splits)
  have "compile_policy sample_compose = Done (Ok (?d\<lparr>sp_guest_profile := GuestProfileIdentity ''strict'' 1,
      sp_network := network_policy_default\<rparr>))"
    unfolding compile_policy_def d using r gp_parse_samples(1) by (simp add: sample_compose_def)
  then have "compile_policy sample_compose = Done (Ok sample_topology_policy)" unfolding e .
  moreover have "exec_each (\<lambda>(service_name, service).
      exec_each (healthy_dependency sample_services service_name) (ls_depends_on service)) sample_services = Done (Ok ())"
    by (simp add: sample_services_def sample_locked_def healthy_dependency_def bt_get_def)
  moreover have "sp_network sample_topology_policy = network_policy_default" by (simp add: sample_topology_policy_def)
  ultimately show ?thesis
    by (simp add: compile_tail_def sample_order sample_policy_limits topology_digest_of_def Let_def sample_lock_def)
qed

lemma sample_compile_with:
  assumes "resolve s ''x'' = (Ok sample_image, t)" and "resolve t ''x'' = (Ok sample_image, s')"
  shows "compile (\<lambda>_. Ok []) (\<lambda>_. ''00'') resolve s sample_compose = (Done (Ok sample_lock), s')"
proof -
  have "tl_volumes sample_lock = [(''shared'', \<lparr>lv_persistence_class = VolPersistent, lv_snapshot_policy = Required,
         lv_quota_bytes = 8388608, lv_content_digest = None\<rparr>)]"
    "tl_networks sample_lock = [(''default'', \<lparr>ln_internal = True, ln_driver = ''bridge''\<rparr>)]"
    by (simp_all add: sample_lock_def)
  then show ?thesis
    using sample_compile_tail sample_lock_services [of resolve s t s', OF assms]
    by (simp add: compile_def sample_compile_parts)
qed

lemma sample_resolve_x: "sample_resolve () ''x'' = (Ok sample_image, ())"
  by (simp add: sample_resolve_def)

lemma sample_lock_parts:
  "compile (\<lambda>_. Ok []) (\<lambda>_. ''00'') sample_resolve () sample_compose = (Done (Ok sample_lock), ())"
  "tl_services sample_lock = sample_services" "verify_lock (\<lambda>_. Ok []) (\<lambda>_. ''00'') sample_lock = Done (Ok ())"
proof -
  show "compile (\<lambda>_. Ok []) (\<lambda>_. ''00'') sample_resolve () sample_compose = (Done (Ok sample_lock), ())"
    by (rule sample_compile_with [of sample_resolve "()" "()" "()", OF sample_resolve_x sample_resolve_x])
  show "tl_services sample_lock = sample_services" by (simp add: sample_lock_def)
  have "services_closed (tl_volumes sample_lock) sample_services"
    using compile_services [OF sample_lock_services [of sample_resolve "()" "()" "()", OF sample_resolve_x sample_resolve_x]]
    by (simp add: sample_lock_def)
  then show "verify_lock (\<lambda>_. Ok []) (\<lambda>_. ''00'') sample_lock = Done (Ok ())"
    using compile_tail_Ok [OF sample_compile_tail] by blast
qed

theorem startup_order_is_complete_witness:
  "bt_wf sample_services \<and> startup_order sample_services = Ok [''b'', ''a''] \<and>
   valid_order sample_services [''b'', ''a'']"
  using startup_order_is_complete [OF sample_services_wf] sample_order sample_services_wf by blast

theorem compiled_lock_verifies_witness:
  "\<exists>lock. compile (\<lambda>_. Ok []) (\<lambda>_. ''00'') sample_resolve () sample_compose = (Done (Ok lock), ()) \<and>
     valid_order (tl_services lock) (tl_startup_order lock) \<and> 0 < length (tl_services lock)"
proof -
  obtain lock where *: "compile (\<lambda>_. Ok []) (\<lambda>_. ''00'') sample_resolve () sample_compose = (Done (Ok lock), ())"
    using sample_lock_parts by blast
  from compiled_lock_verifies [OF *] * show ?thesis by blast
qed

theorem volume_usage_is_exact_witness:
  "\<exists>lock r. verify_lock (\<lambda>_. Ok []) (\<lambda>_. ''00'') lock = Done (Ok ()) \<and> tl_services lock = sample_services \<and>
     topology_volume_usage (\<lambda>_. Ok []) (\<lambda>_. ''00'') lock = Done r"
proof -
  obtain lock where *: "verify_lock (\<lambda>_. Ok []) (\<lambda>_. ''00'') lock = Done (Ok ())" "tl_services lock = sample_services"
    using sample_lock_parts by blast
  from volume_usage_is_exact [OF *(1)] * show ?thesis by blast
qed

theorem one_image_per_reference_witness:
  "\<exists>lock s' l m. lock_compose (\<lambda>_. Ok []) (\<lambda>_. ''00'') (\<lambda>_. Ok []) (\<lambda>_. Ok sample_compose) sample_resolve () ''p'' =
       (Done (Ok lock), s') \<and>
     bt_get (tl_services lock) ''a'' = Some l \<and> bt_get (tl_services lock) ''b'' = Some m \<and> ls_image l = ls_image m"
proof -
  let ?c = "cached_resolve sample_resolve"
  have c: "?c ([], ()) ''x'' = (Ok sample_image, ([(''x'', sample_image)], ()))"
    "?c ([(''x'', sample_image)], ()) ''x'' = (Ok sample_image, ([(''x'', sample_image)], ()))"
    by (simp_all add: cached_resolve_def sample_resolve_def bt_get_def)
  obtain lock where "compile (\<lambda>_. Ok []) (\<lambda>_. ''00'') ?c ([], ()) sample_compose =
      (Done (Ok lock), ([(''x'', sample_image)], ()))"
    using sample_compile_with [of ?c "([], ())" "([(''x'', sample_image)], ())", OF c] by blast
  then have *: "lock_compose (\<lambda>_. Ok []) (\<lambda>_. ''00'') (\<lambda>_. Ok []) (\<lambda>_. Ok sample_compose) sample_resolve () ''p'' =
      (Done (Ok lock), ([(''x'', sample_image)], ()))"
    by (simp add: lock_compose_def)
  have "\<exists>l m. bt_get (tl_services lock) ''a'' = Some l \<and> bt_get (tl_services lock) ''b'' = Some m \<and> ls_image l = ls_image m"
    by (rule one_image_per_reference [OF * refl refl, where x = "sample_service [(''b'', DepHealthy)]"
          and y = "sample_service []"])
      (simp_all add: sample_compose_def bt_wf_def bt_get_def sample_service_def)
  with * show ?thesis by blast
qed

end
