(* ===== verification/Protocol.thy ===== *)
theory Protocol
  imports Snapshot Worker_Pool Topology Ip_Addr
begin

text \<open>
  \<^verbatim>\<open>crates/sandbox-protocol/src/lib.rs\<close> and \<^verbatim>\<open>bins/sandboxd/src/protocol/message.rs\<close>: the
  requests a broker forwards, the responses a worker sends back and their validation. The
  JSON encoder, \<open>sha256\<close> and the hexadecimal encoder are parameters.
\<close>

definition PROTOCOL_VERSION :: u32 where "PROTOCOL_VERSION = 2"
definition LEGACY_OPERATOR_PROTOCOL_VERSION :: u32 where "LEGACY_OPERATOR_PROTOCOL_VERSION = 1"

record worker_advertisement =
  wa_worker_id :: worker_id
  wa_pool_name :: string
  wa_topology :: string
  wa_resource_shape :: string
  wa_compatibility_cohort :: string
  wa_broker_address :: "ip_addr \<times> u16"
  wa_resource_ceilings :: resource_ceilings

datatype operation =
    OpPing
  | OpReady
  | OpStats
  | OpAdmit topology_lock
  | OpRun topology_lock (op_project: string) (op_wait_for: string) (op_timeout: u64)
  | OpCreate topology_lock string (op_timeout: u64)
  | OpRestore topology_lock string (op_snapshot: string) (op_timeout: u64) (op_fenced_source_epoch: "u64 option")
  | OpInspect string
  | OpPause string
  | OpResume string
  | OpStop string
  | OpLogs string (op_container: string)
  | OpSnapshot string (op_snapshot: string) (op_mode: snapshot_mode)
  | OpPublishArtifact (op_source: string) (op_artifact_digest: string)
  | OpGarbageCollectArtifacts (op_minimum_age_seconds: u64)
  | OpShutdown

fun work_order_operation :: "operation \<Rightarrow> work_order_operation option" where
  "work_order_operation OpPing = Some WoPing"
| "work_order_operation OpReady = None"
| "work_order_operation OpStats = Some WoStats"
| "work_order_operation (OpAdmit _) = Some WoAdmit"
| "work_order_operation (OpRun _ _ _ _) = Some WoRun"
| "work_order_operation (OpCreate _ _ _) = Some WoCreate"
| "work_order_operation (OpRestore _ _ _ _ _) = Some WoRestore"
| "work_order_operation (OpInspect _) = Some WoInspect"
| "work_order_operation (OpPause _) = Some WoPause"
| "work_order_operation (OpResume _) = Some WoResume"
| "work_order_operation (OpStop _) = Some WoStop"
| "work_order_operation (OpLogs _ _) = Some WoLogs"
| "work_order_operation (OpSnapshot _ _ _) = Some WoSnapshot"
| "work_order_operation (OpPublishArtifact _ _) = None"
| "work_order_operation (OpGarbageCollectArtifacts _) = None"
| "work_order_operation OpShutdown = None"

fun operation_sandbox :: "operation \<Rightarrow> string option" where
  "operation_sandbox (OpRun _ project _ _) = Some project"
| "operation_sandbox (OpCreate _ sandbox _) = Some sandbox"
| "operation_sandbox (OpRestore _ sandbox _ _ _) = Some sandbox"
| "operation_sandbox (OpInspect sandbox) = Some sandbox"
| "operation_sandbox (OpPause sandbox) = Some sandbox"
| "operation_sandbox (OpResume sandbox) = Some sandbox"
| "operation_sandbox (OpStop sandbox) = Some sandbox"
| "operation_sandbox (OpLogs sandbox _) = Some sandbox"
| "operation_sandbox (OpSnapshot sandbox _ _) = Some sandbox"
| "operation_sandbox _ = None"

type_synonym operation_to_json = "operation \<Rightarrow> (string, string) result"

definition operation_digest ::
  "operation_to_json \<Rightarrow> (string \<Rightarrow> string) \<Rightarrow> (string \<Rightarrow> string) \<Rightarrow> operation \<Rightarrow> (string, string) result" where
  "operation_digest to_json sha256 hex_encode op =
     map_err (\<lambda>e. ''encode operation digest: '' @ e)
       (and_then (to_json op) (\<lambda>bytes. Ok (''sha256:'' @ hex_encode (sha256 bytes))))"

fun operation_timeout_ms :: "operation \<Rightarrow> u64 option" where
  "operation_timeout_ms (OpRun _ _ _ timeout) = Some timeout"
| "operation_timeout_ms (OpCreate _ _ timeout) = Some timeout"
| "operation_timeout_ms (OpRestore _ _ _ timeout _) = Some timeout"
| "operation_timeout_ms _ = None"

fun operation_topology :: "operation \<Rightarrow> topology_lock option" where
  "operation_topology (OpAdmit topology) = Some topology"
| "operation_topology (OpRun topology _ _ _) = Some topology"
| "operation_topology (OpCreate topology _ _) = Some topology"
| "operation_topology (OpRestore topology _ _ _ _) = Some topology"
| "operation_topology _ = None"

definition valid_request_id :: "string \<Rightarrow> bool" where
  "valid_request_id val \<longleftrightarrow> val \<noteq> [] \<and> length val \<le> 64 \<and>
     list_all (\<lambda>b. is_ascii_alphanumeric b \<or> b \<in> {CHR ''-'', CHR ''_''}) val"

definition lowercase_hex :: "string \<Rightarrow> bool" where
  "lowercase_hex val \<longleftrightarrow> list_all (\<lambda>b. is_ascii_digit b \<or> b \<in> set ''abcdef'') val"

text \<open>\<open>WorkloadRequest\<close>: its authorization has the one form of a signed work order.\<close>

datatype workload_authorization = WlWorkOrder signed_work_order

record workload_request =
  wr_schema_version :: u32
  wr_request_id :: string
  wr_authorization :: workload_authorization
  wr_operation :: operation

text \<open>A JSON value of the result is a parameter type.\<close>

record 'v workload_response =
  rs_schema_version :: u32
  rs_request_id :: string
  rs_ok :: bool
  rs_result :: "'v option"
  rs_error :: "string option"

definition response_validate_for :: "'v workload_response \<Rightarrow> string \<Rightarrow> (unit, string) result" where
  "response_validate_for r request_id =
     (if rs_schema_version r \<noteq> PROTOCOL_VERSION \<or> rs_request_id r \<noteq> request_id \<or>
         \<not> valid_request_id (rs_request_id r)
      then Err ''response identity does not match the request''
      else if (rs_ok r \<and> rs_error r \<noteq> None) \<or>
              (\<not> rs_ok r \<and> (rs_result r \<noteq> None \<or>
                 (case rs_error r of None \<Rightarrow> True | Some e \<Rightarrow> e = []))) \<or>
              (case rs_error r of None \<Rightarrow> False | Some e \<Rightarrow> length e > 4 * 1024)
      then Err ''response result and error fields are inconsistent''
      else Ok ())"

definition request_validate :: "workload_request \<Rightarrow> (unit, string) result" where
  "request_validate r =
     (if wr_schema_version r \<noteq> PROTOCOL_VERSION \<or> \<not> valid_request_id (wr_request_id r)
      then Err ''invalid protocol version or request ID''
      else (case wr_authorization r of WlWorkOrder work_order \<Rightarrow>
        and_then (map_err (\<lambda>_. ''invalid work-order claims'') (claims_validate (wo_claims work_order))) (\<lambda>_.
        if wo_schema_version (wo_claims work_order) \<noteq> WORK_ORDER_VERSION \<or>
           wo_request_id (wo_claims work_order) \<noteq> wr_request_id r \<or>
           length (wo_signature work_order) \<noteq> 64 \<or>
           \<not> lowercase_hex (wo_signature work_order)
        then Err ''work order does not match the request''
        else and_then (ok_or ''operator operation is not brokerable''
                         (work_order_operation (wr_operation r))) (\<lambda>op.
        if wo_operation (wo_claims work_order) \<noteq> op
        then Err ''operation does not match the work order''
        else if wo_sandbox_id (wo_claims work_order) \<noteq> operation_sandbox (wr_operation r)
        then Err ''sandbox identity does not match the work order''
        else Ok ()))))"

subsection \<open>The daemon's request\<close>

datatype request_authorization =
    AuthOperator tenant_id workspace_id subject_id
  | AuthWorkOrder signed_work_order

record request =
  rq_schema_version :: u32
  rq_request_id :: string
  rq_authorization :: "request_authorization option"
  rq_operation :: operation

text \<open>
  A workload request on the wire is a daemon request: the tag and the fields of its
  authorization are those of \<open>AuthWorkOrder\<close>.
\<close>

definition as_request :: "workload_request \<Rightarrow> request" where
  "as_request r = \<lparr>rq_schema_version = wr_schema_version r, rq_request_id = wr_request_id r,
     rq_authorization = Some (case wr_authorization r of WlWorkOrder w \<Rightarrow> AuthWorkOrder w),
     rq_operation = wr_operation r\<rparr>"

subsection \<open>Properties\<close>

lemma requires_sandbox_iff:
  "work_order_operation op = Some w \<Longrightarrow> requires_sandbox w \<longleftrightarrow> operation_sandbox op \<noteq> None"
  by (cases op) (auto simp: requires_sandbox_def)

lemma timeout_has_sandbox: "operation_timeout_ms op \<noteq> None \<Longrightarrow> operation_sandbox op \<noteq> None"
  by (cases op) auto

lemma request_validate_Ok:
  assumes "request_validate r = Ok ()" and "wr_authorization r = WlWorkOrder w"
  shows "wr_schema_version r = PROTOCOL_VERSION" "valid_request_id (wr_request_id r)"
    "claims_validate (wo_claims w) = Ok ()" "wo_request_id (wo_claims w) = wr_request_id r"
    "work_order_operation (wr_operation r) = Some (wo_operation (wo_claims w))"
    "wo_sandbox_id (wo_claims w) = operation_sandbox (wr_operation r)"
    "length (wo_signature w) = 64" "lowercase_hex (wo_signature w)"
  using assms by (auto simp: request_validate_def split: if_splits)

end
