(* ===== verification/Work_Order_Verifier.thy ===== *)
theory Work_Order_Verifier
  imports Protocol Replay Compiler_Correct Worker_Pool_Correct
begin

text \<open>
  \<^verbatim>\<open>bins/sandboxd/src/authorization/verifier.rs\<close> and the authorization half of
  \<^verbatim>\<open>bins/sandboxd/src/server/connection.rs\<close>: how a request becomes an access context. The
  JSON encoders, \<open>sha256\<close>, the \<open>hex\<close> crate and the HMAC are parameters, gathered in
  \<open>verifier_codec\<close>.
\<close>

unbundle bit_operations_syntax

definition CLOCK_SKEW_MILLIS :: u64 where "CLOCK_SKEW_MILLIS = 30000"
definition KEY_BYTES :: nat where "KEY_BYTES = 32"

record verifier_codec =
  vc_operation_json :: operation_to_json
  vc_lock_json :: "digest_input \<Rightarrow> (string, string) result"
  vc_claims_json :: "work_order_claims \<Rightarrow> (string, string) result"
  vc_replay_json :: replay_to_json
  vc_sha256 :: "string \<Rightarrow> string"
  vc_hex_encode :: "string \<Rightarrow> string"
  vc_hex_decode :: "string \<Rightarrow> (string, string) result"
  vc_mac_accepts_key :: "string \<Rightarrow> bool"
  vc_mac_verifies :: "string \<Rightarrow> string \<Rightarrow> string \<Rightarrow> bool"

record work_order_verifier =
  wv_key :: string
  wv_replay :: replay_cache

text \<open>
  What the file system says of the key file: whether it is a regular file, its owner and its
  mode, or why that could not be read; and its text.
\<close>

definition from_key_file ::
  "(string \<Rightarrow> (string, string) result) \<Rightarrow> (bool \<times> u32 \<times> u32, string) result \<Rightarrow> (string, string) result \<Rightarrow>
     (replay_cache, sandbox_error) result \<Rightarrow> (work_order_verifier, sandbox_error) result" where
  "from_key_file hex_decode metadata contents opened =
     and_then (map_err (\<lambda>e. Runtime (''read work-order key metadata: '' @ e)) metadata) (\<lambda>(is_file, uid, mode).
     if \<not> is_file \<or> uid \<noteq> 0 \<or> mode AND 18 \<noteq> 0 \<or> mode AND 7 \<noteq> 0
     then Err (Runtime ''work-order key must be a root-owned regular file without group write or world access'')
     else and_then (map_err (\<lambda>e. Runtime (''read work-order key: '' @ e)) contents) (\<lambda>raw.
       let encoded = (case strip_suffix [CHR 0x0D, CHR 0x0A] raw of
                        Some s \<Rightarrow> s
                      | None \<Rightarrow> (case strip_suffix [CHR 0x0A] raw of Some s \<Rightarrow> s | None \<Rightarrow> raw))
       in if trim_changes encoded
          then Err (Runtime ''work-order key contains surrounding whitespace'')
          else and_then (map_err (\<lambda>_. Runtime ''work-order key is not hexadecimal'') (hex_decode encoded)) (\<lambda>key.
            if length key \<noteq> KEY_BYTES
            then Err (Runtime ''work-order key must contain exactly 32 bytes'')
            else and_then opened (\<lambda>replay. Ok \<lparr>wv_key = key, wv_replay = replay\<rparr>))))"

definition verify_signature ::
  "verifier_codec \<Rightarrow> string \<Rightarrow> signed_work_order \<Rightarrow> (unit, sandbox_error) result" where
  "verify_signature vc key work_order =
     (if length (wo_signature work_order) \<noteq> 64 \<or> \<not> list_all is_ascii_hexdigit (wo_signature work_order)
      then Err (Runtime ''work-order signature is invalid'')
      else and_then (map_err (\<lambda>_. Runtime ''work-order signature is invalid'')
                       (vc_hex_decode vc (wo_signature work_order))) (\<lambda>signature.
        and_then (map_err (\<lambda>e. Runtime (''encode work-order claims: '' @ e))
                    (vc_claims_json vc (wo_claims work_order))) (\<lambda>payload.
        if \<not> vc_mac_accepts_key vc key then Err (Runtime ''initialize work-order verifier'')
        else if vc_mac_verifies vc key payload signature then Ok ()
        else Err (Runtime ''work-order signature is invalid''))))"

text \<open>\<open>u64::try_from\<close> of a \<open>usize\<close>\<close>

definition u64_try_from :: "nat \<Rightarrow> (u64, unit) result" where
  "u64_try_from n = (if n < 2 ^ 64 then Ok (word_of_nat n) else Err ())"

definition over_ceilings ::
  "topology_lock \<Rightarrow> volume_resource_usage \<Rightarrow> u64 \<Rightarrow> resource_ceilings \<Rightarrow> bool" where
  "over_ceilings topology usage output_bytes ceilings \<longleftrightarrow>
     (let policy = tl_policy topology in
      length (tl_services topology) > unat (ceil_maximum_services ceilings) \<or>
      vru_count usage > unat (ceil_maximum_volumes ceilings) \<or>
      vru_quota_bytes usage > ceil_maximum_volume_bytes ceilings \<or>
      sp_guest_profile policy \<notin> set (allowed_guest_profiles ceilings) \<or>
      sp_memory_bytes_per_service policy > memory_bytes_per_service ceilings \<or>
      sp_cpu_per_service_millis policy > cpu_per_service_millis ceilings \<or>
      sp_pids_per_service policy > pids_per_service ceilings \<or>
      sp_tmpfs_bytes policy > ceil_tmpfs_bytes ceilings \<or>
      sp_writable_root_bytes_per_service policy > writable_root_bytes_per_service ceilings \<or>
      output_bytes > ceil_maximum_output_bytes ceilings)"

definition enforce_resource_ceilings ::
  "verifier_codec \<Rightarrow> operation \<Rightarrow> work_order_claims \<Rightarrow> (unit, sandbox_error) result exec" where
  "enforce_resource_ceilings vc op claims =
     (let ceilings = wo_resource_ceilings claims in
      if (case operation_timeout_ms op of None \<Rightarrow> False | Some t \<Rightarrow> t > ceil_maximum_timeout_ms ceilings)
      then Done (Err (Runtime ''request exceeds the authorized timeout''))
      else (case operation_topology op of
              None \<Rightarrow> Done (Ok ())
            | Some topology \<Rightarrow>
                exec_then (topology_volume_usage (vc_lock_json vc) (\<lambda>b. vc_hex_encode vc (vc_sha256 vc b)) topology)
                  (\<lambda>usage. exec_then (Done (map_err (\<lambda>_. Runtime ''topology output limit cannot be represented'')
                              (u64_try_from (sp_maximum_output_bytes (tl_policy topology))))) (\<lambda>output_bytes.
                   if over_ceilings topology usage output_bytes ceilings
                   then Done (Err (Runtime ''topology exceeds authorized resource ceilings''))
                   else Done (Ok ())))))"

definition claims_scope :: "work_order_claims \<Rightarrow> tenant_scope" where
  "claims_scope claims = TenantScope (wo_tenant_id claims) (wo_workspace_id claims)"

text \<open>
  The comparison of the digest is the last of four joined by \<open>||\<close>, so the digest is computed
  only when the first three agree.
\<close>

definition authorizes ::
  "verifier_codec \<Rightarrow> request \<Rightarrow> work_order_claims \<Rightarrow> (bool, sandbox_error) result" where
  "authorizes vc rq claims =
     (if wo_request_id claims \<noteq> rq_request_id rq \<or>
         Some (wo_operation claims) \<noteq> work_order_operation (rq_operation rq) \<or>
         wo_sandbox_id claims \<noteq> operation_sandbox (rq_operation rq)
      then Ok False
      else and_then (map_err Runtime (operation_digest (vc_operation_json vc) (vc_sha256 vc) (vc_hex_encode vc)
                                        (rq_operation rq)))
             (\<lambda>digest. Ok (wo_operation_digest claims = digest)))"

text \<open>The checks of \<open>verify_at\<close>, up to the use of the nonce.\<close>

definition verify_checks ::
  "verifier_codec \<Rightarrow> string \<Rightarrow> request \<Rightarrow> signed_work_order \<Rightarrow> u64 \<Rightarrow> (unit, sandbox_error) result exec" where
  "verify_checks vc key rq work_order now =
     (let claims = wo_claims work_order in
      exec_then (Done (map_err (\<lambda>e. Runtime (core_error_display e)) (claims_validate claims))) (\<lambda>_.
      exec_then (Done (verify_signature vc key work_order)) (\<lambda>_.
      if wo_issued_unix_millis claims > saturating_add now CLOCK_SKEW_MILLIS \<or>
         wo_expires_unix_millis claims \<le> now
      then Done (Err (Runtime ''work order is expired or not yet valid''))
      else exec_then (Done (authorizes vc rq claims)) (\<lambda>authorized.
        if \<not> authorized then Done (Err (Runtime ''work order does not authorize this request''))
        else enforce_resource_ceilings vc (rq_operation rq) claims))))"

definition verify_at ::
  "verifier_codec \<Rightarrow> (nat \<Rightarrow> (unit, sandbox_error) result) \<Rightarrow> request \<Rightarrow> signed_work_order \<Rightarrow> u64 \<Rightarrow>
     work_order_verifier \<Rightarrow> (verified_tenant, sandbox_error) result exec \<times> work_order_verifier" where
  "verify_at vc wait rq work_order now v =
     (let claims = wo_claims work_order in
      case verify_checks vc (wv_key v) rq work_order now of
        Panic \<Rightarrow> (Panic, v)
      | Done (Inl e) \<Rightarrow> (Done (Err e), v)
      | Done (Inr _) \<Rightarrow>
          (case consume (vc_replay_json vc) (vc_sha256 vc) (vc_hex_encode vc) wait (claims_scope claims)
                  (wo_nonce claims) (wo_expires_unix_millis claims) now (wv_replay v) of
             (Inl e, c) \<Rightarrow> (Done (Err e), v\<lparr>wv_replay := c\<rparr>)
           | (Inr _, c) \<Rightarrow>
               (Done (Ok \<lparr>vt_scope = claims_scope claims, vt_subject_id = wo_subject_id claims,
                          vt_assignment_epoch = wo_assignment_epoch claims\<rparr>), v\<lparr>wv_replay := c\<rparr>)))"

subsection \<open>Endpoints\<close>

text \<open>The identities \<open>TenantId::parse("local").expect(..)\<close> and so on of a legacy operator.\<close>

definition expect_ok :: "('a, 'e) result \<Rightarrow> 'a exec" where
  "expect_ok r = (case r of Inl _ \<Rightarrow> Panic | Inr x \<Rightarrow> Done x)"

definition authorize_operator :: "request \<Rightarrow> (access_context, sandbox_error) result exec" where
  "authorize_operator rq =
     (let invalid = Done (Err (Runtime ''operator request authorization is invalid'')) in
      case rq_authorization rq of
        None \<Rightarrow>
          if rq_schema_version rq = LEGACY_OPERATOR_PROTOCOL_VERSION
          then exec_bind (expect_ok (parse_tenant_id ''local'')) (\<lambda>tenant.
               exec_bind (expect_ok (parse_workspace_id ''local'')) (\<lambda>workspace.
               exec_bind (expect_ok (parse_subject_id ''legacy-root'')) (\<lambda>subject.
                 Done (Ok (Operator (TenantScope tenant workspace) subject)))))
          else invalid
      | Some (AuthOperator tenant workspace subject) \<Rightarrow>
          if rq_schema_version rq = PROTOCOL_VERSION
          then Done (Ok (Operator (TenantScope tenant workspace) subject)) else invalid
      | Some (AuthWorkOrder _) \<Rightarrow> invalid)"

text \<open>A clock before 1970 or past 64 bits of milliseconds is the error \<open>now\<close>.\<close>

definition authorize_workload ::
  "verifier_codec \<Rightarrow> (nat \<Rightarrow> (unit, sandbox_error) result) \<Rightarrow> (u64, sandbox_error) result \<Rightarrow> request \<Rightarrow>
     work_order_verifier option \<Rightarrow>
     (access_context, sandbox_error) result exec \<times> work_order_verifier option" where
  "authorize_workload vc wait clock rq verifier =
     (if rq_schema_version rq \<noteq> PROTOCOL_VERSION
      then (Done (Err (Runtime ''workload endpoint requires protocol version 2'')), verifier)
      else (case rq_authorization rq of
              Some (AuthWorkOrder work_order) \<Rightarrow>
                (case verifier of
                   None \<Rightarrow> (Done (Err (Runtime ''workload endpoint is not configured'')), verifier)
                 | Some v \<Rightarrow>
                     (case clock of
                        Inl e \<Rightarrow> (Done (Err e), verifier)
                      | Inr now \<Rightarrow>
                          (case verify_at vc wait rq work_order now v of
                             (r, v') \<Rightarrow> (exec_then r (\<lambda>tenant. Done (Ok (Tenant tenant))), Some v'))))
            | _ \<Rightarrow> (Done (Err (Runtime ''workload endpoint requires a signed work order'')), verifier)))"

definition authorize_request ::
  "verifier_codec \<Rightarrow> (nat \<Rightarrow> (unit, sandbox_error) result) \<Rightarrow> (u64, sandbox_error) result \<Rightarrow> request \<Rightarrow>
     connection_endpoint \<Rightarrow> work_order_verifier option \<Rightarrow>
     (access_context, sandbox_error) result exec \<times> work_order_verifier option" where
  "authorize_request vc wait clock rq endpoint verifier =
     (if \<not> valid_request_id (rq_request_id rq)
      then (Done (Err (Runtime ''invalid request identifier'')), verifier)
      else (case endpoint of
              OperatorEndpoint \<Rightarrow> (authorize_operator rq, verifier)
            | Workload _ \<Rightarrow> authorize_workload vc wait clock rq verifier))"

subsection \<open>What a verified request was authorized to do\<close>

text \<open>
  The grant that a work order makes of a request, written from the meaning of the claims: the
  key holder signed exactly these claims, they are in force at \<open>now\<close>, they name this request,
  this operation, this sandbox and the digest of all the operation's parameters, and what the
  operation asks for is within the ceilings.
\<close>

definition within_ceilings :: "verifier_codec \<Rightarrow> operation \<Rightarrow> resource_ceilings \<Rightarrow> bool" where
  "within_ceilings vc op ceilings \<longleftrightarrow>
     (\<forall>t. operation_timeout_ms op = Some t \<longrightarrow> t \<le> ceil_maximum_timeout_ms ceilings) \<and>
     (\<forall>lock. operation_topology op = Some lock \<longrightarrow>
        verify_lock (vc_lock_json vc) (\<lambda>b. vc_hex_encode vc (vc_sha256 vc b)) lock = Done (Ok ()) \<and>
        length (tl_services lock) \<le> unat (ceil_maximum_services ceilings) \<and>
        card (mounted_volumes lock) \<le> unat (ceil_maximum_volumes ceilings) \<and>
        (\<Sum>i \<in> mounted_volumes lock. quota_of lock i) \<le> unat (ceil_maximum_volume_bytes ceilings) \<and>
        sp_guest_profile (tl_policy lock) \<in> set (allowed_guest_profiles ceilings) \<and>
        sp_memory_bytes_per_service (tl_policy lock) \<le> memory_bytes_per_service ceilings \<and>
        sp_cpu_per_service_millis (tl_policy lock) \<le> cpu_per_service_millis ceilings \<and>
        sp_pids_per_service (tl_policy lock) \<le> pids_per_service ceilings \<and>
        sp_tmpfs_bytes (tl_policy lock) \<le> ceil_tmpfs_bytes ceilings \<and>
        sp_writable_root_bytes_per_service (tl_policy lock) \<le> writable_root_bytes_per_service ceilings \<and>
        sp_maximum_output_bytes (tl_policy lock) \<le> unat (ceil_maximum_output_bytes ceilings))"

definition grants :: "verifier_codec \<Rightarrow> string \<Rightarrow> request \<Rightarrow> signed_work_order \<Rightarrow> nat \<Rightarrow> bool" where
  "grants vc key rq w now \<longleftrightarrow>
     (\<exists>payload tag. vc_claims_json vc (wo_claims w) = Ok payload \<and>
        vc_hex_decode vc (wo_signature w) = Ok tag \<and> vc_mac_verifies vc key payload tag) \<and>
     unat (wo_issued_unix_millis (wo_claims w)) \<le> now + 30000 \<and> now < unat (wo_expires_unix_millis (wo_claims w)) \<and>
     wo_request_id (wo_claims w) = rq_request_id rq \<and>
     work_order_operation (rq_operation rq) = Some (wo_operation (wo_claims w)) \<and>
     operation_sandbox (rq_operation rq) = wo_sandbox_id (wo_claims w) \<and>
     operation_digest (vc_operation_json vc) (vc_sha256 vc) (vc_hex_encode vc) (rq_operation rq) =
       Ok (wo_operation_digest (wo_claims w)) \<and>
     within_ceilings vc (rq_operation rq) (wo_resource_ceilings (wo_claims w))"

lemma u64_try_from_Ok: "u64_try_from n = Ok w \<longleftrightarrow> unat w = n"
  using unat_u64_lt [of w] by (auto simp: u64_try_from_def unat_of_nat take_bit_nat_eq_self_iff word_unat_eq_iff)

lemma topology_volume_usage_Ok:
  assumes "topology_volume_usage to_json sha256_hex lock = Done (Ok u)"
  shows "verify_lock to_json sha256_hex lock = Done (Ok ())" "vru_count u = card (mounted_volumes lock)"
    "unat (vru_quota_bytes u) = (\<Sum>i \<in> mounted_volumes lock. quota_of lock i)"
proof -
  from assms show v: "verify_lock to_json sha256_hex lock = Done (Ok ())"
    by (auto simp: topology_volume_usage_def)
  from assms have q: "sum_quotas lock 0 (used_volume_ids lock) = Done (Ok (vru_quota_bytes u))"
    and c: "vru_count u = length (used_volume_ids lock)"
    by (auto simp: topology_volume_usage_def)
  show "vru_count u = card (mounted_volumes lock)"
    using c distinct_card [OF used_volume_ids(2), of lock] by (simp add: used_volume_ids(1))
  have "\<forall>i \<in> set (used_volume_ids lock). bt_get (tl_volumes lock) i \<noteq> None"
    using mounted_volumes_defined [OF v] used_volume_ids(1) by blast
  from sum_quotas_exact [OF this, of 0] q
  show "unat (vru_quota_bytes u) = (\<Sum>i \<in> mounted_volumes lock. quota_of lock i)"
    by (auto simp: sum_list_distinct_conv_sum_set used_volume_ids)
qed

lemma enforce_resource_ceilings_Ok:
  assumes "enforce_resource_ceilings vc op claims = Done (Ok ())"
  shows "within_ceilings vc op (wo_resource_ceilings claims)"
proof -
  have t: "t \<le> ceil_maximum_timeout_ms (wo_resource_ceilings claims)" if "operation_timeout_ms op = Some t" for t
    using assms that by (auto simp: enforce_resource_ceilings_def Let_def split: if_splits)
  have "\<exists>u out. topology_volume_usage (vc_lock_json vc) (\<lambda>b. vc_hex_encode vc (vc_sha256 vc b)) lock = Done (Ok u) \<and>
      u64_try_from (sp_maximum_output_bytes (tl_policy lock)) = Ok out \<and>
      \<not> over_ceilings lock u out (wo_resource_ceilings claims)" if "operation_topology op = Some lock" for lock
    using assms that by (auto simp: enforce_resource_ceilings_def Let_def split: if_splits)
  then show ?thesis
    using t by (fastforce simp: within_ceilings_def over_ceilings_def Let_def not_less word_le_nat_alt u64_try_from_Ok
        dest: topology_volume_usage_Ok)
qed

lemma verify_checks_no_panic: "verify_checks vc key rq w now \<noteq> Panic"
  using topology_volume_usage_no_panic
  by (auto simp: verify_checks_def enforce_resource_ceilings_def Let_def exec_then_eq_Panic split: option.splits)

lemma verify_checks_Ok:
  assumes "verify_checks vc key rq w now = Done (Ok ())"
  shows "grants vc key rq w (unat now)" "claims_validate (wo_claims w) = Ok ()"
proof -
  let ?c = "wo_claims w"
  from assms have s: "verify_signature vc key w = Ok ()" and v: "claims_validate ?c = Ok ()"
    and t: "\<not> saturating_add now CLOCK_SKEW_MILLIS < wo_issued_unix_millis ?c" "now < wo_expires_unix_millis ?c"
    and a: "authorizes vc rq ?c = Ok True"
    and e: "enforce_resource_ceilings vc (rq_operation rq) ?c = Done (Ok ())"
    by (auto simp: verify_checks_def Let_def split: if_splits)
  show "claims_validate ?c = Ok ()" by (rule v)
  have "unat (saturating_add now CLOCK_SKEW_MILLIS) \<le> unat now + 30000"
    using unat_saturating_add [of now CLOCK_SKEW_MILLIS] by (simp add: CLOCK_SKEW_MILLIS_def)
  with t have "unat (wo_issued_unix_millis ?c) \<le> unat now + 30000" "unat now < unat (wo_expires_unix_millis ?c)"
    by (simp_all add: not_less word_le_nat_alt word_less_nat_alt)
  moreover have "\<exists>payload tag. vc_claims_json vc ?c = Ok payload \<and>
        vc_hex_decode vc (wo_signature w) = Ok tag \<and> vc_mac_verifies vc key payload tag"
    using s by (auto simp: verify_signature_def split: if_splits)
  moreover have "wo_request_id ?c = rq_request_id rq" "work_order_operation (rq_operation rq) = Some (wo_operation ?c)"
    "operation_sandbox (rq_operation rq) = wo_sandbox_id ?c"
    "operation_digest (vc_operation_json vc) (vc_sha256 vc) (vc_hex_encode vc) (rq_operation rq) =
       Ok (wo_operation_digest ?c)"
    using a by (auto simp: authorizes_def split: if_splits)
  ultimately show "grants vc key rq w (unat now)"
    using enforce_resource_ceilings_Ok [OF e] by (simp add: grants_def)
qed

lemma verify_at_Ok:
  assumes "verify_at vc wait rq w now v = (Done (Ok tenant), v')"
  shows "verify_checks vc (wv_key v) rq w now = Done (Ok ())" "wv_key v' = wv_key v"
    "tenant = \<lparr>vt_scope = claims_scope (wo_claims w), vt_subject_id = wo_subject_id (wo_claims w),
       vt_assignment_epoch = wo_assignment_epoch (wo_claims w)\<rparr>"
    "consume (vc_replay_json vc) (vc_sha256 vc) (vc_hex_encode vc) wait (claims_scope (wo_claims w))
       (wo_nonce (wo_claims w)) (wo_expires_unix_millis (wo_claims w)) now (wv_replay v) = (Ok (), wv_replay v')"
  using assms by (auto simp: verify_at_def Let_def split: exec.splits sum.splits prod.splits)

text \<open>
  Whatever a broker's connection is allowed to do, the key holder granted: when the
  workload endpoint authorizes a request, the context is the tenant context of a work order
  that grants this very request, under the daemon's own key and at the current time. So no
  operation reserved to the operator is ever authorized there.
\<close>
theorem workload_access_is_granted:
  assumes "authorize_request vc wait clock rq (Workload uid) verifier = (Done (Ok context), verifier')"
  shows "\<exists>w v now. rq_authorization rq = Some (AuthWorkOrder w) \<and> verifier = Some v \<and> clock = Ok now \<and>
    grants vc (wv_key v) rq w (unat now) \<and> claims_validate (wo_claims w) = Ok () \<and>
    context = Tenant \<lparr>vt_scope = claims_scope (wo_claims w), vt_subject_id = wo_subject_id (wo_claims w),
       vt_assignment_epoch = wo_assignment_epoch (wo_claims w)\<rparr>"
proof -
  from assms obtain w v now tenant v' where *: "rq_authorization rq = Some (AuthWorkOrder w)" "verifier = Some v"
      "clock = Ok now" "verify_at vc wait rq w now v = (Done (Ok tenant), v')" "context = Tenant tenant"
    by (auto simp: authorize_request_def authorize_workload_def
        split: if_splits option.splits request_authorization.splits sum.splits prod.splits)
  with verify_checks_Ok [OF verify_at_Ok(1) [OF *(4)]] verify_at_Ok(3) [OF *(4)] show ?thesis by blast
qed

subsection \<open>A work order is used once\<close>

lemma consume_Ok_guarded:
  assumes "consume to_json sha256 hex_encode wait scope nonce x now c = (Ok (), c')" and "bt_wf (rc_entries c)"
  shows "guarded (consume_key sha256 hex_encode scope nonce) x c'"
proof -
  let ?k = "consume_key sha256 hex_encode scope nonce"
  obtain app rep c1 where b: "consume_begin to_json ?k x now c = (Ok (app, rep), c1)"
    and e: "consume_end ?k x (map_option wait app) (map_option wait rep) c1 = (Ok (), c')"
    using assms(1) by (auto simp: consume_def Let_def split: sum.splits prod.splits)
  have "guarded ?k x c1"
    using assms(2) b consume_begin_entries [of to_json ?k x now c]
    by (auto simp: consume_begin_def Let_def guarded_def bt_simps split: if_splits)
  moreover have "c' = c1" using e by (auto simp: consume_end_def split: option.splits sum.splits)
  ultimately show ?thesis by simp
qed

lemma consume_guarded:
  assumes "guarded (consume_key sha256 hex_encode scope nonce) x c" and "now < x"
  shows "fst (consume to_json sha256 hex_encode wait scope nonce x' now c) =
    Err (Runtime ''work order has already been consumed'')"
proof -
  have "bt_contains (retain_live now (rc_entries c)) (consume_key sha256 hex_encode scope nonce)"
    using assms bt_get_retain [of "rc_entries c" now "consume_key sha256 hex_encode scope nonce" x]
    by (simp add: guarded_def bt_contains_def)
  then show ?thesis by (simp add: consume_def consume_begin_def Let_def)
qed

text \<open>
  C19: no request is carried out twice on one work order. After the daemon has accepted a
  request on a work order, every later presentation of a work order with that tenant scope and
  nonce is refused until the first one expires, with whatever other requests, and whatever
  other uses of the replay cache, in between.
\<close>
theorem work_order_is_single_use:
  assumes "bt_wf (rc_entries (wv_replay v))"
    and "verify_at vc wait rq w t v = (Done (Ok tenant), v1)"
    and "run (det (replay_apply (vc_replay_json vc))) (wv_replay v1) evs c2"
    and "list_all (leaves (consume_key (vc_sha256 vc) (vc_hex_encode vc) (claims_scope (wo_claims w))
           (wo_nonce (wo_claims w))) (wo_expires_unix_millis (wo_claims w))) evs"
    and "claims_scope (wo_claims w') = claims_scope (wo_claims w)" and "wo_nonce (wo_claims w') = wo_nonce (wo_claims w)"
    and "now < wo_expires_unix_millis (wo_claims w)"
  shows "\<exists>e. fst (verify_at vc wait' rq' w' now (v1\<lparr>wv_replay := c2\<rparr>)) = Done (Err e)"
proof -
  let ?k = "consume_key (vc_sha256 vc) (vc_hex_encode vc) (claims_scope (wo_claims w)) (wo_nonce (wo_claims w))"
  have "guarded ?k (wo_expires_unix_millis (wo_claims w)) (wv_replay v1)"
    by (rule consume_Ok_guarded [OF verify_at_Ok(4) [OF assms(2)] assms(1)])
  then have g: "guarded ?k (wo_expires_unix_millis (wo_claims w)) c2"
    using guarded_run assms(3,4) by (simp add: run_det)
  note c = consume_guarded [OF g assms(7), of "vc_replay_json vc" wait' "wo_expires_unix_millis (wo_claims w')"]
  show ?thesis
  proof (cases "verify_checks vc (wv_key v1) rq' w' now")
    case Panic
    then show ?thesis using verify_checks_no_panic by blast
  next
    case (Done r)
    with c assms(5,6) show ?thesis
      by (cases r) (auto simp: verify_at_def Let_def split: prod.splits sum.splits)
  qed
qed

subsection \<open>Concrete instances\<close>

text \<open>A codec whose hash is constant, a signed ping and a daemon with an empty replay cache.\<close>

definition ping_codec :: verifier_codec where
  "ping_codec = \<lparr>vc_operation_json = (\<lambda>_. Ok ''ping''), vc_lock_json = (\<lambda>_. Ok []),
     vc_claims_json = (\<lambda>_. Ok ''claims''), vc_replay_json = (\<lambda>_. Ok []), vc_sha256 = (\<lambda>_. []),
     vc_hex_encode = (\<lambda>_. replicate 64 (CHR ''a'')), vc_hex_decode = (\<lambda>_. Ok ''tag''),
     vc_mac_accepts_key = (\<lambda>_. True),
     vc_mac_verifies = (\<lambda>key payload tag. key = ''key'' \<and> payload = ''claims'' \<and> tag = ''tag'')\<rparr>"

definition ping_claims :: work_order_claims where
  "ping_claims = \<lparr>wo_schema_version = 4, wo_tenant_id = ''tenant'', wo_workspace_id = ''team'',
     wo_subject_id = ''broker'', wo_request_id = ''r-1'', wo_operation = WoPing, wo_sandbox_id = None,
     wo_assignment_epoch = 1, wo_issued_unix_millis = 1000, wo_expires_unix_millis = 2000, wo_nonce = ''n-1'',
     wo_operation_digest = ''sha256:'' @ replicate 64 (CHR ''a''), wo_resource_ceilings = sample_ceilings\<rparr>"

definition ping_order :: signed_work_order where
  "ping_order = \<lparr>wo_claims = ping_claims, wo_signature = replicate 64 (CHR ''0'')\<rparr>"

definition ping_request :: request where
  "ping_request = \<lparr>rq_schema_version = 2, rq_request_id = ''r-1'',
     rq_authorization = Some (AuthWorkOrder ping_order), rq_operation = OpPing\<rparr>"

definition ping_verifier :: work_order_verifier where
  "ping_verifier = \<lparr>wv_key = ''key'', wv_replay = default_replay_cache\<rparr>"

definition ping_verified :: work_order_verifier where
  "ping_verified = ping_verifier\<lparr>wv_replay := default_replay_cache
     \<lparr>rc_entries := [(ReplayKey (TenantScope ''tenant'' ''team'') (replicate 64 (CHR ''a'')), 2000)],
      rc_appends_since_compaction := 1\<rparr>\<rparr>"

definition ping_tenant :: verified_tenant where
  "ping_tenant = \<lparr>vt_scope = TenantScope ''tenant'' ''team'', vt_subject_id = ''broker'', vt_assignment_epoch = 1\<rparr>"

lemma ping_claims_valid: "claims_validate ping_claims = Ok ()"
  unfolding claims_validate_iff
  by (simp add: ping_claims_def sample_ceilings_valid bounded_token_def list_all_iff ascii_defs)

lemma ping_checks: "verify_checks ping_codec ''key'' ping_request ping_order 1500 = Done (Ok ())"
proof -
  have "verify_signature ping_codec ''key'' ping_order = Ok ()"
    by (simp add: verify_signature_def ping_order_def ping_codec_def list_all_iff ascii_defs)
  moreover have "authorizes ping_codec ping_request ping_claims = Ok True"
    by (simp add: authorizes_def operation_digest_def ping_claims_def ping_request_def ping_codec_def)
  moreover have "\<not> saturating_add 1500 CLOCK_SKEW_MILLIS < wo_issued_unix_millis ping_claims"
    "\<not> wo_expires_unix_millis ping_claims \<le> 1500"
    by (simp_all add: ping_claims_def saturating_add_def CLOCK_SKEW_MILLIS_def word_less_nat_alt word_le_nat_alt)
  ultimately show ?thesis
    by (simp add: verify_checks_def ping_claims_valid enforce_resource_ceilings_def ping_order_def ping_request_def)
qed

lemma ping_consume:
  "consume (vc_replay_json ping_codec) (vc_sha256 ping_codec) (vc_hex_encode ping_codec) wait
     (claims_scope ping_claims) (wo_nonce ping_claims) (wo_expires_unix_millis ping_claims) 1500 default_replay_cache =
   (Ok (), wv_replay ping_verified)"
  by (simp add: consume_def consume_begin_def consume_end_def consume_key_def retain_live_def bt_contains_def bt_get_def
      default_replay_cache_def enqueue_record_def enqueue_encoded_def ping_codec_def claims_scope_def ping_claims_def
      ping_verified_def MAXIMUM_LIVE_NONCES_def replay_COMPACTION_INTERVAL_def)

lemma ping_verify: "verify_at ping_codec wait ping_request ping_order 1500 ping_verifier = (Done (Ok ping_tenant), ping_verified)"
  using ping_checks ping_consume [of wait]
  by (simp add: verify_at_def ping_verifier_def ping_order_def ping_verified_def ping_tenant_def claims_scope_def
      ping_claims_def)

theorem workload_access_is_granted_witness:
  "authorize_request ping_codec (\<lambda>_. Ok ()) (Ok 1500) ping_request (Workload 7) (Some ping_verifier) =
     (Done (Ok (Tenant ping_tenant)), Some ping_verified) \<and> grants ping_codec ''key'' ping_request ping_order 1500"
proof -
  have *: "authorize_request ping_codec (\<lambda>_. Ok ()) (Ok 1500) ping_request (Workload 7) (Some ping_verifier) =
     (Done (Ok (Tenant ping_tenant)), Some ping_verified)"
    using ping_verify
    by (simp add: authorize_request_def authorize_workload_def ping_request_def PROTOCOL_VERSION_def
        valid_request_id_def ascii_defs)
  from workload_access_is_granted [OF this] * show ?thesis by (auto simp: ping_request_def ping_verifier_def)
qed

theorem work_order_is_single_use_witness:
  "verify_at ping_codec (\<lambda>_. Ok ()) ping_request ping_order 1500 ping_verifier =
     (Done (Ok ping_tenant), ping_verified) \<and>
   (\<exists>e. fst (verify_at ping_codec (\<lambda>_. Ok ()) ping_request ping_order 1600
     (ping_verified\<lparr>wv_replay := replay_apply (vc_replay_json ping_codec) (wv_replay ping_verified)
        (Begin (ReplayKey (TenantScope ''other'' ''team'') ''b'') 3000 1550)\<rparr>)) = Done (Err e))"
proof -
  let ?e = "Begin (ReplayKey (TenantScope ''other'' ''team'') ''b'') 3000 1550"
  let ?c = "replay_apply (vc_replay_json ping_codec) (wv_replay ping_verified) ?e"
  have wf: "bt_wf (rc_entries (wv_replay ping_verifier))" by (simp add: ping_verifier_def default_replay_cache_def)
  have r: "run (det (replay_apply (vc_replay_json ping_codec))) (wv_replay ping_verified) [?e] ?c"
    by (simp add: run_det)
  have x: "wo_expires_unix_millis (wo_claims ping_order) = 2000" by (simp add: ping_order_def ping_claims_def)
  have l: "list_all (leaves (consume_key (vc_sha256 ping_codec) (vc_hex_encode ping_codec)
      (claims_scope (wo_claims ping_order)) (wo_nonce (wo_claims ping_order)))
      (wo_expires_unix_millis (wo_claims ping_order))) [?e]"
    and n: "1600 < wo_expires_unix_millis (wo_claims ping_order)"
    unfolding x by (simp_all add: word_less_nat_alt)
  from work_order_is_single_use [OF wf ping_verify r l refl refl n] ping_verify show ?thesis by blast
qed

end
