(* ===== verification/Worker_Slot.thy ===== *)
theory Worker_Slot
  imports Worker_Pool Tenancy Machines
begin

text \<open>
  \<^verbatim>\<open>bins/sandboxd/src/worker.rs\<close>: the slot of a worker, which serves one sandbox and is then
  recycled. The state is the slot behind its lock together with the files it writes: the
  terminal marker, which tells the next start of the daemon that this worker is used up, and
  the temporary file the marker is renamed from. An \<open>Instant\<close> is a natural number of a
  monotonic clock and a \<open>Duration\<close> a number of the same unit.
\<close>

definition TERMINAL_MARKER :: string where "TERMINAL_MARKER = ''worker-terminal.json''"
definition TERMINAL_MARKER_SCHEMA_VERSION :: u32 where "TERMINAL_MARKER_SCHEMA_VERSION = 1"

record terminal_marker =
  tm_schema_version :: u32
  tm_state :: worker_state
  tm_reason :: string

record slot_state =
  sl_state :: worker_state
  sl_generation :: u64
  sl_assignment :: "sandbox_key option"
  sl_recycle_required :: bool
  sl_clean_since :: "nat option"

record worker_slot =
  ws_control_root :: string
  ws_shape :: worker_resource_shape
  ws_minimum_clean_age :: nat
  ws_slot :: slot_state
  ws_marker :: "terminal_marker option"
  ws_temporary :: bool

record worker_status =
  wst_state :: worker_state
  wst_generation :: u64
  wst_ready :: bool
  wst_recycle_required :: bool
  wst_resource_shape :: worker_resource_shape

text \<open>The derived \<open>Debug\<close> text.\<close>

fun worker_state_debug :: "worker_state \<Rightarrow> string" where
  "worker_state_debug Starting = ''Starting''"
| "worker_state_debug Clean = ''Clean''"
| "worker_state_debug Leased = ''Leased''"
| "worker_state_debug WorkerRunning = ''Running''"
| "worker_state_debug Draining = ''Draining''"
| "worker_state_debug Cleaning = ''Cleaning''"
| "worker_state_debug Quarantined = ''Quarantined''"

text \<open>The calls on the file system that may fail, and encoding the marker.\<close>

datatype marker_io =
    MarkerMetadata | MarkerParent | MarkerCreate | MarkerEncode | MarkerWrite | MarkerRename | MarkerSync | MarkerRemove

definition invalid_transition :: "worker_state \<Rightarrow> worker_state \<Rightarrow> sandbox_error" where
  "invalid_transition from_state to_state =
     Runtime (''invalid worker transition from '' @ worker_state_debug from_state @ '' to '' @ worker_state_debug to_state)"

definition set_state :: "worker_state \<Rightarrow> slot_state \<Rightarrow> (unit, sandbox_error) result \<times> slot_state" where
  "set_state next_state s =
     (case checked_add (sl_generation s) 1 of
        None \<Rightarrow> (Err (Runtime ''worker state generation overflow''), s)
      | Some g \<Rightarrow> (Ok (), s\<lparr>sl_generation := g, sl_state := next_state,
                     sl_clean_since := (if next_state \<noteq> Clean then None else sl_clean_since s)\<rparr>))"

definition require_assignment :: "slot_state \<Rightarrow> sandbox_key \<Rightarrow> (unit, sandbox_error) result" where
  "require_assignment s key =
     (if sl_assignment s = Some key then Ok ()
      else Err (Runtime ''worker slot assignment does not match the request''))"

definition marker_path :: "string \<Rightarrow> string" where
  "marker_path root = root @ ''/'' @ TERMINAL_MARKER"

text \<open>\<open>open\<close>: no slot when the marker is there.\<close>

definition slot_open ::
  "marker_io faults \<Rightarrow> string \<Rightarrow> worker_resource_shape \<Rightarrow> nat \<Rightarrow> terminal_marker option \<Rightarrow> bool \<Rightarrow>
     (worker_slot option, sandbox_error) result" where
  "slot_open f root shape minimum_clean_age marker temporary =
     and_then (map_err (\<lambda>e. Runtime (core_error_display e)) (shape_validate shape)) (\<lambda>_.
     case f MarkerMetadata of
       Some e \<Rightarrow> Err (io_error (marker_path root) e)
     | None \<Rightarrow>
         if marker \<noteq> None then Ok None
         else Ok (Some \<lparr>ws_control_root = root, ws_shape = shape, ws_minimum_clean_age = minimum_clean_age,
                ws_slot = \<lparr>sl_state = Starting, sl_generation = 0, sl_assignment = None,
                           sl_recycle_required = False, sl_clean_since = None\<rparr>,
                ws_marker = None, ws_temporary = temporary\<rparr>))"

text \<open>The closure of \<open>persist_terminal\<close>, up to the sync of the directory.\<close>

definition write_marker ::
  "marker_io faults \<Rightarrow> nat \<Rightarrow> worker_state \<Rightarrow> string \<Rightarrow> worker_slot \<Rightarrow> (unit, sandbox_error) result \<times> worker_slot" where
  "write_marker f pid state reason w =
     (let temporary = ws_control_root w @ ''/.worker-terminal-'' @ show_nat pid in
      case (if ws_temporary w then Some ''File exists (os error 17)'' else f MarkerCreate) of
        Some e \<Rightarrow> (Err (io_error temporary e), w)
      | None \<Rightarrow>
          let w1 = w\<lparr>ws_temporary := True\<rparr> in
          (case f MarkerEncode of
             Some e \<Rightarrow> (Err (Runtime (''encode worker terminal marker: '' @ e)), w1)
           | None \<Rightarrow>
               (case f MarkerWrite of
                  Some e \<Rightarrow> (Err (io_error temporary e), w1)
                | None \<Rightarrow>
                    (case f MarkerRename of
                       Some e \<Rightarrow> (Err (io_error (marker_path (ws_control_root w)) e), w1)
                     | None \<Rightarrow>
                         let w2 = w1\<lparr>ws_temporary := False,
                               ws_marker := Some \<lparr>tm_schema_version = TERMINAL_MARKER_SCHEMA_VERSION,
                                                  tm_state = state, tm_reason = reason\<rparr>\<rparr>
                         in (case f MarkerSync of
                               Some e \<Rightarrow> (Err (io_error (ws_control_root w) e), w2)
                             | None \<Rightarrow> (Ok (), w2))))))"

definition persist_terminal ::
  "marker_io faults \<Rightarrow> nat \<Rightarrow> worker_state \<Rightarrow> string \<Rightarrow> worker_slot \<Rightarrow> (unit, sandbox_error) result \<times> worker_slot" where
  "persist_terminal f pid state reason w =
     (case f MarkerMetadata of
        Some e \<Rightarrow> (Err (io_error (marker_path (ws_control_root w)) e), w)
      | None \<Rightarrow>
          if ws_marker w \<noteq> None then (Ok (), w)
          else if f MarkerParent \<noteq> None
          then (Err (Runtime ''worker marker has no parent directory''), w)
          else (case write_marker f pid state reason w of
                  (Inr _, w') \<Rightarrow> (Ok (), w')
                | (Inl e, w') \<Rightarrow>
                    (Err e, w'\<lparr>ws_temporary := (f MarkerRemove \<noteq> None \<and> ws_temporary w')\<rparr>)))"

subsection \<open>Operations\<close>

definition slot_is_ready :: "worker_slot \<Rightarrow> nat \<Rightarrow> bool" where
  "slot_is_ready w now \<longleftrightarrow> is_ready (sl_state (ws_slot w)) \<and>
     (case sl_clean_since (ws_slot w) of None \<Rightarrow> False | Some since \<Rightarrow> now - since \<ge> ws_minimum_clean_age w)"

definition mark_clean :: "nat \<Rightarrow> worker_slot \<Rightarrow> (unit, sandbox_error) result \<times> worker_slot" where
  "mark_clean now w =
     (if sl_state (ws_slot w) \<noteq> Starting then (Err (invalid_transition (sl_state (ws_slot w)) Clean), w)
      else (case set_state Clean (ws_slot w) of
              (Inl e, s) \<Rightarrow> (Err e, w\<lparr>ws_slot := s\<rparr>)
            | (Inr _, s) \<Rightarrow> (Ok (), w\<lparr>ws_slot := s\<lparr>sl_clean_since := Some now\<rparr>\<rparr>)))"

definition slot_lease :: "nat \<Rightarrow> sandbox_key \<Rightarrow> worker_slot \<Rightarrow> (unit, sandbox_error) result \<times> worker_slot" where
  "slot_lease now key w =
     (if \<not> slot_is_ready w now \<or> sl_assignment (ws_slot w) \<noteq> None
      then (Err (Runtime (''worker slot is not available: state is '' @ worker_state_debug (sl_state (ws_slot w)))), w)
      else (case set_state Leased ((ws_slot w)\<lparr>sl_assignment := Some key\<rparr>) of
              (r, s) \<Rightarrow> (r, w\<lparr>ws_slot := s\<rparr>)))"

definition slot_transition ::
  "sandbox_key option \<Rightarrow> worker_state \<Rightarrow> worker_state \<Rightarrow> worker_slot \<Rightarrow> (unit, sandbox_error) result \<times> worker_slot" where
  "slot_transition key expected next_state w =
     (case (case key of None \<Rightarrow> Ok () | Some k \<Rightarrow> require_assignment (ws_slot w) k) of
        Inl e \<Rightarrow> (Err e, w)
      | Inr _ \<Rightarrow>
          if sl_state (ws_slot w) \<noteq> expected then (Err (invalid_transition (sl_state (ws_slot w)) next_state), w)
          else (case set_state next_state (ws_slot w) of (r, s) \<Rightarrow> (r, w\<lparr>ws_slot := s\<rparr>)))"

definition mark_running :: "sandbox_key \<Rightarrow> worker_slot \<Rightarrow> (unit, sandbox_error) result \<times> worker_slot" where
  "mark_running key = slot_transition (Some key) Leased WorkerRunning"

definition begin_draining :: "sandbox_key \<Rightarrow> worker_slot \<Rightarrow> (unit, sandbox_error) result \<times> worker_slot" where
  "begin_draining key = slot_transition (Some key) WorkerRunning Draining"

definition begin_cleaning :: "sandbox_key \<Rightarrow> worker_slot \<Rightarrow> (unit, sandbox_error) result \<times> worker_slot" where
  "begin_cleaning key = slot_transition (Some key) Draining Cleaning"

definition cancel_draining :: "sandbox_key \<Rightarrow> worker_slot \<Rightarrow> (unit, sandbox_error) result \<times> worker_slot" where
  "cancel_draining key = slot_transition (Some key) Draining WorkerRunning"

definition set_recycle_required :: "worker_slot \<Rightarrow> worker_slot" where
  "set_recycle_required w = w\<lparr>ws_slot := (ws_slot w)\<lparr>sl_recycle_required := True\<rparr>\<rparr>"

definition recycle_clean ::
  "marker_io faults \<Rightarrow> nat \<Rightarrow> sandbox_key \<Rightarrow> worker_slot \<Rightarrow> (unit, sandbox_error) result \<times> worker_slot" where
  "recycle_clean f pid key w =
     (case require_assignment (ws_slot w) key of
        Inl e \<Rightarrow> (Err e, w)
      | Inr _ \<Rightarrow>
          if sl_state (ws_slot w) \<noteq> Cleaning then (Err (invalid_transition (sl_state (ws_slot w)) Cleaning), w)
          else (case persist_terminal f pid Cleaning ''single-use-assignment-complete'' w of
                  (Inl e, w') \<Rightarrow> (Err e, w')
                | (Inr _, w') \<Rightarrow> (Ok (), set_recycle_required w')))"

definition quarantine ::
  "marker_io faults \<Rightarrow> nat \<Rightarrow> sandbox_key option \<Rightarrow> string \<Rightarrow> worker_slot \<Rightarrow> (unit, sandbox_error) result \<times> worker_slot" where
  "quarantine f pid key reason w =
     (case (case key of None \<Rightarrow> Ok () | Some k \<Rightarrow> require_assignment (ws_slot w) k) of
        Inl e \<Rightarrow> (Err e, w)
      | Inr _ \<Rightarrow>
          if sl_state (ws_slot w) = Quarantined then (Ok (), set_recycle_required w)
          else (case set_state Quarantined (ws_slot w) of
                  (Inl e, s) \<Rightarrow> (Err e, w\<lparr>ws_slot := s\<rparr>)
                | (Inr _, s) \<Rightarrow>
                    (case persist_terminal f pid Quarantined reason (w\<lparr>ws_slot := s\<rparr>) of
                       (Inl e, w') \<Rightarrow> (Err e, w')
                     | (Inr _, w') \<Rightarrow> (Ok (), set_recycle_required w'))))"

definition slot_status :: "nat \<Rightarrow> worker_slot \<Rightarrow> worker_status" where
  "slot_status now w = \<lparr>wst_state = sl_state (ws_slot w), wst_generation = sl_generation (ws_slot w),
     wst_ready = slot_is_ready w now, wst_recycle_required = sl_recycle_required (ws_slot w),
     wst_resource_shape = ws_shape w\<rparr>"

definition recycle_required :: "worker_slot \<Rightarrow> bool" where
  "recycle_required w = sl_recycle_required (ws_slot w)"

subsection \<open>The slot as a machine\<close>

datatype slot_event =
    SMarkClean nat
  | SLease nat sandbox_key
  | SRun sandbox_key
  | SDrain sandbox_key
  | SClean sandbox_key
  | SCancel sandbox_key
  | SRecycle "marker_io faults" nat sandbox_key
  | SQuarantine "marker_io faults" nat "sandbox_key option" string

fun slot_call :: "slot_event \<Rightarrow> worker_slot \<Rightarrow> (unit, sandbox_error) result \<times> worker_slot" where
  "slot_call (SMarkClean now) w = mark_clean now w"
| "slot_call (SLease now key) w = slot_lease now key w"
| "slot_call (SRun key) w = mark_running key w"
| "slot_call (SDrain key) w = begin_draining key w"
| "slot_call (SClean key) w = begin_cleaning key w"
| "slot_call (SCancel key) w = cancel_draining key w"
| "slot_call (SRecycle f pid key) w = recycle_clean f pid key w"
| "slot_call (SQuarantine f pid key reason) w = quarantine f pid key reason w"

definition slot_apply :: "worker_slot \<Rightarrow> slot_event \<Rightarrow> worker_slot" where
  "slot_apply w ev = snd (slot_call ev w)"

fun event_key :: "slot_event \<Rightarrow> sandbox_key option" where
  "event_key (SMarkClean _) = None"
| "event_key (SLease _ key) = Some key"
| "event_key (SRun key) = Some key"
| "event_key (SDrain key) = Some key"
| "event_key (SClean key) = Some key"
| "event_key (SCancel key) = Some key"
| "event_key (SRecycle _ _ key) = Some key"
| "event_key (SQuarantine _ _ key _) = key"

lemmas slot_op_defs = mark_clean_def slot_lease_def mark_running_def begin_draining_def begin_cleaning_def
  cancel_draining_def slot_transition_def recycle_clean_def quarantine_def

lemma set_state_cases:
  obtains (over) e where "set_state n s = (Err e, s)" "sl_generation s = - 1"
  | (ok) "set_state n s = (Ok (), s\<lparr>sl_generation := sl_generation s + 1, sl_state := n,
      sl_clean_since := (if n \<noteq> Clean then None else sl_clean_since s)\<rparr>)" "sl_generation s \<noteq> - 1"
proof (cases "checked_add (sl_generation s) 1")
  case None
  then have "unat (sl_generation s) = 2 ^ 64 - 1"
    using unat_u64_lt [of "sl_generation s"] by (auto simp: checked_add_def split: if_splits)
  then have "sl_generation s = - 1"
    by (simp add: word_unat_eq_iff unsigned_minus_1_eq_mask mask_eq_exp_minus_1)
  with None over show ?thesis by (simp add: set_state_def)
next
  case (Some g)
  then have "g = sl_generation s + 1" "sl_generation s \<noteq> - 1"
    by (auto simp: checked_add_def unsigned_minus_1_eq_mask mask_eq_exp_minus_1 split: if_splits)
  with Some ok show ?thesis by (simp add: set_state_def)
qed

text \<open>What writing the marker changes, and what success of it means.\<close>

lemma persist_terminal_effect:
  assumes "persist_terminal f pid st reason w = (r, w')"
  shows "ws_slot w' = ws_slot w" "ws_control_root w' = ws_control_root w" "ws_shape w' = ws_shape w"
    "ws_marker w \<noteq> None \<Longrightarrow> ws_marker w' = ws_marker w" "r = Ok () \<Longrightarrow> ws_marker w' \<noteq> None"
    "ws_minimum_clean_age w' = ws_minimum_clean_age w"
  using assms
  by (auto simp: persist_terminal_def write_marker_def Let_def split: option.splits if_splits prod.splits sum.splits)

text \<open>The only changes of the slot itself: the state moves along the source's arrows.\<close>

fun slot_arrow :: "worker_state \<Rightarrow> worker_state \<Rightarrow> bool" where
  "slot_arrow Starting t = (t = Clean \<or> t = Quarantined)"
| "slot_arrow Clean t = (t = Leased \<or> t = Quarantined)"
| "slot_arrow Leased t = (t = WorkerRunning \<or> t = Quarantined)"
| "slot_arrow WorkerRunning t = (t = Draining \<or> t = Quarantined)"
| "slot_arrow Draining t = (t = Cleaning \<or> t = WorkerRunning \<or> t = Quarantined)"
| "slot_arrow Cleaning t = (t = Quarantined)"
| "slot_arrow Quarantined t = False"

lemma set_state_effect:
  "sl_assignment (snd (set_state n s)) = sl_assignment s"
  "sl_recycle_required (snd (set_state n s)) = sl_recycle_required s"
  "sl_state (snd (set_state n s)) = sl_state s \<or> sl_state (snd (set_state n s)) = n"
  "fst (set_state n s) = Ok () \<Longrightarrow> sl_state (snd (set_state n s)) = n"
  "n \<noteq> Clean \<Longrightarrow> sl_clean_since (snd (set_state n s)) \<noteq> None \<Longrightarrow> snd (set_state n s) = s"
  "sl_clean_since s = None \<Longrightarrow> sl_clean_since (snd (set_state n s)) = None"
  by (cases rule: set_state_cases [of n s]; simp)+

text \<open>What a call may do, whatever it returns.\<close>

definition slot_moves ::
  "slot_event \<Rightarrow> worker_slot \<Rightarrow> (unit, sandbox_error) result \<Rightarrow> worker_slot \<Rightarrow> bool" where
  "slot_moves ev w r w' \<longleftrightarrow>
     (sl_state (ws_slot w') = sl_state (ws_slot w) \<or> slot_arrow (sl_state (ws_slot w)) (sl_state (ws_slot w'))) \<and>
     (sl_assignment (ws_slot w') = sl_assignment (ws_slot w) \<or>
        sl_assignment (ws_slot w) = None \<and> sl_state (ws_slot w) = Clean) \<and>
     (\<forall>k. r = Ok () \<longrightarrow> event_key ev = Some k \<longrightarrow> sl_assignment (ws_slot w') = Some k) \<and>
     (ws_marker w \<noteq> None \<longrightarrow> ws_marker w' = ws_marker w) \<and> ws_control_root w' = ws_control_root w \<and> ws_shape w' = ws_shape w"

lemma transition_moves:
  assumes "slot_transition (Some key) a b w = (r, w')" and "slot_arrow a b" and "event_key ev = Some key"
  shows "slot_moves ev w r w'"
  using assms set_state_effect(1,3) [of b "ws_slot w"]
  by (auto simp: slot_moves_def slot_transition_def require_assignment_def split: if_splits prod.splits)

lemma slot_call_moves:
  assumes c: "slot_call ev w = (r, w')"
  shows "slot_moves ev w r w'"
proof (cases ev)
  case (SMarkClean now)
  with c set_state_effect(1,3) [of Clean "ws_slot w"] show ?thesis
    by (auto simp: slot_moves_def mark_clean_def split: if_splits prod.splits sum.splits)
next
  case (SLease now key)
  with c set_state_effect(1,3) [of Leased "(ws_slot w)\<lparr>sl_assignment := Some key\<rparr>"] show ?thesis
    by (auto simp: slot_moves_def slot_lease_def slot_is_ready_def is_ready_def split: if_splits prod.splits)
next
  case (SRecycle f pid key)
  with c show ?thesis
    by (auto simp: slot_moves_def recycle_clean_def require_assignment_def set_recycle_required_def
        persist_terminal_effect split: if_splits prod.splits sum.splits)
next
  case (SQuarantine f pid key reason)
  have arrow: "st = Quarantined \<or> slot_arrow st Quarantined" for st by (cases st) auto
  obtain q s where s: "set_state Quarantined (ws_slot w) = (q, s)" by fastforce
  then have e: "sl_assignment s = sl_assignment (ws_slot w)" "sl_state s = sl_state (ws_slot w) \<or> sl_state s = Quarantined"
    using set_state_effect(1,3) [of Quarantined "ws_slot w"] by simp_all
  obtain q' w1 where p: "persist_terminal f pid Quarantined reason (w\<lparr>ws_slot := s\<rparr>) = (q', w1)" by fastforce
  note pe = persist_terminal_effect(1-4) [OF p, simplified]
  have "w' \<in> {w, w\<lparr>ws_slot := s\<rparr>, w1, set_recycle_required w1} \<or>
      w' = set_recycle_required w \<and> sl_state (ws_slot w) = Quarantined"
    using c s p unfolding SQuarantine by (auto simp: quarantine_def split: if_splits sum.splits option.splits)
  moreover have "sl_assignment (ws_slot w) = Some k" if "r = Ok ()" "event_key ev = Some k" for k
    using c that unfolding SQuarantine
    by (auto simp: quarantine_def require_assignment_def split: if_splits sum.splits)
  ultimately show ?thesis
    using e pe arrow [of "sl_state (ws_slot w)"] by (auto simp: slot_moves_def set_recycle_required_def)
qed (use c in \<open>auto simp: mark_running_def begin_draining_def begin_cleaning_def cancel_draining_def
      intro: transition_moves\<close>)

subsection \<open>Properties\<close>

definition slot_wf :: "worker_slot \<Rightarrow> bool" where
  "slot_wf w \<longleftrightarrow>
     (sl_state (ws_slot w) \<in> {Leased, WorkerRunning, Draining, Cleaning} \<longrightarrow> sl_assignment (ws_slot w) \<noteq> None) \<and>
     (sl_state (ws_slot w) = Starting \<longrightarrow> sl_assignment (ws_slot w) = None) \<and>
     (sl_clean_since (ws_slot w) \<noteq> None \<longrightarrow> sl_state (ws_slot w) = Clean) \<and>
     (sl_recycle_required (ws_slot w) \<longrightarrow> sl_state (ws_slot w) \<in> {Cleaning, Quarantined})"

lemma set_state_Quarantined_wf:
  assumes "slot_wf w" and "set_state Quarantined (ws_slot w) = (q, s)"
  shows "slot_wf (w\<lparr>ws_slot := s\<rparr>) \<and> (q = Ok () \<longrightarrow> sl_state s = Quarantined \<and> sl_clean_since s = None)"
  by (cases rule: set_state_cases [of Quarantined "ws_slot w"]) (use assms in \<open>simp_all add: slot_wf_def\<close>)

lemma transition_wf:
  assumes "slot_wf w" and "slot_transition (Some key) a b w = (r, w')"
    and "(a, b) \<in> {(Leased, WorkerRunning), (WorkerRunning, Draining), (Draining, Cleaning), (Draining, WorkerRunning)}"
  shows "slot_wf w'"
proof (cases rule: set_state_cases [of b "ws_slot w"])
  case (over e)
  with assms(2) have "w' = w" by (auto simp: slot_transition_def split: sum.splits if_splits)
  with assms(1) show ?thesis by simp
next
  case ok
  let ?s = "snd (set_state b (ws_slot w))"
  have b: "b \<noteq> Clean" "b \<noteq> Starting" "a \<notin> {Cleaning, Quarantined}" using assms(3) by auto
  have s: "sl_state ?s = b" "sl_assignment ?s = sl_assignment (ws_slot w)" "sl_clean_since ?s = None"
    "sl_recycle_required ?s = sl_recycle_required (ws_slot w)"
    using b unfolding ok(1) by simp_all
  from assms(2) consider "w' = w" | "sl_assignment (ws_slot w) = Some key" "sl_state (ws_slot w) = a" "w' = w\<lparr>ws_slot := ?s\<rparr>"
    unfolding slot_transition_def require_assignment_def ok(1) by (auto split: if_splits)
  then show ?thesis using assms(1) b s by cases (simp_all add: slot_wf_def)
qed

lemma persist_wf: "persist_terminal f pid st reason w = (r, w') \<Longrightarrow> slot_wf w' \<longleftrightarrow> slot_wf w"
  by (simp add: slot_wf_def persist_terminal_effect)

lemma slot_call_wf:
  assumes wf: "slot_wf w" and c: "slot_call ev w = (r, w')"
  shows "slot_wf w'"
proof (cases ev)
  case (SMarkClean now)
  show ?thesis
    by (cases rule: set_state_cases [of Clean "ws_slot w"])
      (use c wf SMarkClean in \<open>auto simp: slot_wf_def mark_clean_def split: if_splits\<close>)
next
  case (SLease now key)
  show ?thesis
    by (cases rule: set_state_cases [of Leased "(ws_slot w)\<lparr>sl_assignment := Some key\<rparr>"])
      (use c wf SLease in \<open>auto simp: slot_wf_def slot_lease_def slot_is_ready_def is_ready_def split: if_splits\<close>)
next
  case (SRecycle f pid key)
  obtain q w1 where p: "persist_terminal f pid Cleaning ''single-use-assignment-complete'' w = (q, w1)" by fastforce
  with persist_wf [OF p] persist_terminal_effect(1) [OF p] c wf SRecycle show ?thesis
    by (auto simp: recycle_clean_def set_recycle_required_def slot_wf_def split: if_splits sum.splits)
next
  case (SQuarantine f pid key reason)
  obtain q s where s: "set_state Quarantined (ws_slot w) = (q, s)" by fastforce
  obtain q' w1 where p: "persist_terminal f pid Quarantined reason (w\<lparr>ws_slot := s\<rparr>) = (q', w1)" by fastforce
  note e = set_state_Quarantined_wf [OF wf s] persist_wf [OF p] persist_terminal_effect(1) [OF p]
  consider "w' = w" | "w' = w\<lparr>ws_slot := s\<rparr>" | "w' = w1" | "w' = set_recycle_required w1" "q = Ok ()"
    | "w' = set_recycle_required w" "sl_state (ws_slot w) = Quarantined"
    using c s p unfolding SQuarantine by (auto simp: quarantine_def split: if_splits sum.splits option.splits)
  then show ?thesis using wf e by cases (simp_all add: set_recycle_required_def slot_wf_def)
next
  case (SRun key)
  with transition_wf [OF wf, of key Leased WorkerRunning r w'] c show ?thesis by (simp add: mark_running_def)
next
  case (SDrain key)
  with transition_wf [OF wf, of key WorkerRunning Draining r w'] c show ?thesis by (simp add: begin_draining_def)
next
  case (SClean key)
  with transition_wf [OF wf, of key Draining Cleaning r w'] c show ?thesis by (simp add: begin_cleaning_def)
next
  case (SCancel key)
  with transition_wf [OF wf, of key Draining WorkerRunning r w'] c show ?thesis by (simp add: cancel_draining_def)
qed

definition opened_slot :: "worker_slot \<Rightarrow> bool" where
  "opened_slot w \<longleftrightarrow> (\<exists>f root shape age marker temporary. slot_open f root shape age marker temporary = Ok (Some w))"

lemma opened_slot_wf: "opened_slot w \<Longrightarrow> slot_wf w \<and> ws_marker w = None"
  by (auto simp: opened_slot_def slot_open_def slot_wf_def split: option.splits if_splits)

interpretation sm: invariant_machine opened_slot "det slot_apply" slot_wf
  by unfold_locales (auto simp: det_def slot_apply_def opened_slot_wf intro: slot_call_wf prod.collapse [symmetric])

text \<open>A slot that was leased to \<open>k\<close>: it stays with \<open>k\<close> and is never clean again.\<close>

definition taken :: "sandbox_key \<Rightarrow> worker_slot \<Rightarrow> bool" where
  "taken k w \<longleftrightarrow> sl_assignment (ws_slot w) = Some k \<and> sl_state (ws_slot w) \<notin> {Starting, Clean}"

lemma taken_step: "taken k w \<Longrightarrow> taken k (slot_apply w ev)"
  using slot_call_moves [of ev w "fst (slot_call ev w)" "slot_apply w ev"]
  by (cases "sl_state (ws_slot w)") (auto simp: taken_def slot_moves_def slot_apply_def)

lemma taken_run: "taken k w \<Longrightarrow> taken k (foldl slot_apply w evs)"
  by (induction evs arbitrary: w) (simp_all add: taken_step)

lemma lease_takes: "slot_lease now k w = (Ok (), w') \<Longrightarrow> taken k w'"
  by (cases rule: set_state_cases [of Leased "(ws_slot w)\<lparr>sl_assignment := Some k\<rparr>"])
    (auto simp: slot_lease_def taken_def split: if_splits)

lemma marker_step: "ws_marker w \<noteq> None \<Longrightarrow> ws_marker (slot_apply w ev) = ws_marker w"
  using slot_call_moves [of ev w "fst (slot_call ev w)" "slot_apply w ev"]
  by (simp add: slot_moves_def slot_apply_def)

lemma marker_run: "ws_marker w \<noteq> None \<Longrightarrow> ws_marker (foldl slot_apply w evs) = ws_marker w"
  by (induction evs arbitrary: w) (simp_all add: marker_step)

lemma recycle_marks: "recycle_clean f pid k w = (Ok (), w') \<Longrightarrow> ws_marker w' \<noteq> None"
  by (auto simp: recycle_clean_def set_recycle_required_def
      split: sum.splits prod.splits if_splits dest: persist_terminal_effect(5))

text \<open>
  C20: every slot the daemon can reach is well formed. It has an assignment in each of the
  states between the lease and the end of cleaning and none while starting, the time since it
  was clean is kept only while it is, and recycling is asked for only of a cleaned or
  quarantined worker.
\<close>
theorem worker_slot_well_formed:
  assumes "slot_open f root shape age marker temporary = Ok (Some w0)" and "run (det slot_apply) w0 evs w"
  shows "slot_wf w"
proof -
  have "opened_slot w0" using assms(1) unfolding opened_slot_def by blast
  then show ?thesis using assms(2) by (rule sm.reachable_inv)
qed

text \<open>
  C5: a worker serves one sandbox in its life. After a lease to \<open>k\<close>, whatever happens to the
  slot, no lease succeeds again and no call for another sandbox succeeds; and once the worker
  was recycled, no later start of the daemon on this control root opens a slot.
\<close>
theorem worker_is_single_use:
  assumes "slot_lease now k w = (Ok (), w1)" and "run (det slot_apply) w1 evs w2"
  shows "(\<forall>now' k'. \<exists>e. slot_lease now' k' w2 = (Err e, w2)) \<and>
    (\<forall>ev k' w3. event_key ev = Some k' \<longrightarrow> slot_call ev w2 = (Ok (), w3) \<longrightarrow> k' = k) \<and>
    (\<forall>f pid k' w3 evs' w4 f' shape age. recycle_clean f pid k' w2 = (Ok (), w3) \<longrightarrow>
       run (det slot_apply) w3 evs' w4 \<longrightarrow> 
       (\<forall>s. slot_open f' (ws_control_root w) shape age (ws_marker w4) (ws_temporary w4) \<noteq> Ok (Some s)))"
proof -
  have t: "taken k w2" using taken_run [OF lease_takes [OF assms(1)]] assms(2) by (simp add: run_det)
  have 1: "\<exists>e. slot_lease now' k' w2 = (Err e, w2)" for now' k'
    using t by (simp add: taken_def slot_lease_def)
  have 2: "k' = k" if "event_key ev = Some k'" "slot_call ev w2 = (Ok (), w3)" for ev k' w3
    using slot_call_moves [OF that(2)] that(1) taken_step [OF t, of ev] that(2)
    by (simp add: slot_moves_def taken_def slot_apply_def)
  have 3: "slot_open f' root shape age (ws_marker w4) (ws_temporary w4) \<noteq> Ok (Some s)"
    if "recycle_clean f pid k' w2 = (Ok (), w3)" "run (det slot_apply) w3 evs' w4" for f pid k' w3 evs' w4 f' root shape age s
    using marker_run [OF recycle_marks [OF that(1)]] recycle_marks [OF that(1)] that(2)
    by (auto simp: run_det slot_open_def split: option.splits)
  show ?thesis using 1 2 3 by blast
qed

subsection \<open>Concrete instances\<close>

definition small_shape :: worker_resource_shape where
  "small_shape = \<lparr>shape_schema_version = 1, shape_name = ''small'', sandbox_cpu_millis = 1000,
     sandbox_memory_bytes = 1073741824, sandbox_pids = 512, sandbox_ephemeral_storage_bytes = 1073741824,
     shape_maximum_services = 8\<rparr>"

definition fresh_slot :: worker_slot where
  "fresh_slot = \<lparr>ws_control_root = ''/run/s'', ws_shape = small_shape, ws_minimum_clean_age = 5,
     ws_slot = \<lparr>sl_state = Starting, sl_generation = 0, sl_assignment = None, sl_recycle_required = False,
        sl_clean_since = None\<rparr>, ws_marker = None, ws_temporary = False\<rparr>"

definition slot_key :: sandbox_key where
  "slot_key = SandboxKey (TenantScope ''tenant'' ''team'') ''sandbox''"

definition slot_in :: "worker_state \<Rightarrow> u64 \<Rightarrow> worker_slot" where
  "slot_in st g = fresh_slot\<lparr>ws_slot := \<lparr>sl_state = st, sl_generation = g, sl_assignment = Some slot_key,
     sl_recycle_required = False, sl_clean_since = None\<rparr>\<rparr>"

definition clean_slot :: worker_slot where
  "clean_slot = fresh_slot\<lparr>ws_slot := \<lparr>sl_state = Clean, sl_generation = 1, sl_assignment = None,
     sl_recycle_required = False, sl_clean_since = Some 10\<rparr>\<rparr>"

lemma small_shape_valid: "shape_validate small_shape = Ok ()"
  by (simp add: shape_validate_def small_shape_def valid_operator_name_def ascii_defs WORKER_RESOURCE_SHAPE_VERSION_def)

lemma fresh_slot_opens: "slot_open no_faults ''/run/s'' small_shape 5 None False = Ok (Some fresh_slot)"
  by (simp add: slot_open_def small_shape_valid fresh_slot_def)

lemma slot_lease_sample: "slot_lease 20 slot_key clean_slot = (Ok (), slot_in Leased 2)"
  by (simp add: slot_lease_def slot_is_ready_def is_ready_def clean_slot_def set_state_def checked_add_def slot_in_def
      fresh_slot_def)

lemma slot_life_sample:
  "mark_clean 10 fresh_slot = (Ok (), clean_slot)"
  "slot_apply (slot_in Leased 2) (SRun slot_key) = slot_in WorkerRunning 3"
  "slot_apply (slot_in WorkerRunning 3) (SDrain slot_key) = slot_in Draining 4"
  "slot_apply (slot_in Draining 4) (SClean slot_key) = slot_in Cleaning 5"
  by (simp_all add: mark_clean_def slot_apply_def mark_running_def begin_draining_def begin_cleaning_def
      slot_transition_def require_assignment_def set_state_def checked_add_def slot_in_def clean_slot_def fresh_slot_def)

theorem worker_slot_well_formed_witness:
  "run (det slot_apply) fresh_slot [SMarkClean 10, SLease 20 slot_key] (slot_in Leased 2) \<and> slot_wf (slot_in Leased 2)"
proof -
  have r: "run (det slot_apply) fresh_slot [SMarkClean 10, SLease 20 slot_key] (slot_in Leased 2)"
    using slot_life_sample(1) slot_lease_sample by (simp add: run_det slot_apply_def)
  from worker_slot_well_formed [OF fresh_slot_opens r] r show ?thesis by blast
qed

theorem worker_is_single_use_witness:
  "slot_lease 20 slot_key clean_slot = (Ok (), slot_in Leased 2) \<and>
   (\<exists>w. recycle_clean no_faults 7 slot_key (slot_in Cleaning 5) = (Ok (), w) \<and>
     (\<forall>s. slot_open no_faults ''/run/s'' small_shape 5 (ws_marker w) (ws_temporary w) \<noteq> Ok (Some s)) \<and>
     (\<forall>k'. \<exists>e. slot_lease 100 k' (slot_in Cleaning 5) = (Err e, slot_in Cleaning 5)))"
proof -
  have r: "run (det slot_apply) (slot_in Leased 2) [SRun slot_key, SDrain slot_key, SClean slot_key] (slot_in Cleaning 5)"
    by (simp add: run_det slot_life_sample)
  obtain w where w: "recycle_clean no_faults 7 slot_key (slot_in Cleaning 5) = (Ok (), w)"
    by (simp add: recycle_clean_def require_assignment_def persist_terminal_def write_marker_def slot_in_def fresh_slot_def)
  have root: "ws_control_root clean_slot = ''/run/s''" by (simp add: clean_slot_def fresh_slot_def)
  note u = worker_is_single_use [OF slot_lease_sample r, unfolded root]
  have n: "run (det slot_apply) w [] w" by simp
  from u [THEN conjunct2, THEN conjunct2, rule_format, OF w n] u [THEN conjunct1] w slot_lease_sample
  show ?thesis by (metis (no_types))
qed

text \<open>
  A quarantine whose marker could not be written leaves the slot quarantined; the next
  quarantine then reports success without writing it, and the next start of the daemon opens
  the worker as a fresh one.
\<close>

lemma repeated_quarantine_leaves_no_marker:
  "\<exists>e w w'. quarantine (no_faults(MarkerCreate := Some ''ENOSPC'')) 7 (Some slot_key) ''failed'' (slot_in Leased 2) = (Err e, w) \<and>
     quarantine no_faults 7 (Some slot_key) ''failed'' w = (Ok (), w') \<and> recycle_required w' \<and>
     slot_open no_faults ''/run/s'' small_shape 5 (ws_marker w') (ws_temporary w') = Ok (Some fresh_slot)"
  by (simp add: quarantine_def require_assignment_def set_state_def checked_add_def persist_terminal_def write_marker_def
      slot_in_def fresh_slot_def set_recycle_required_def recycle_required_def slot_open_def small_shape_valid)

end
