(* ===== verification/Daemon_State.thy ===== *)
theory Daemon_State
  imports Work_Order_Verifier Worker_Slot Assignment_Ledger Snapshot
begin

text \<open>
  \<^verbatim>\<open>bins/sandboxd/src/state.rs\<close>, \<^verbatim>\<open>service/reservation.rs\<close>, \<^verbatim>\<open>server/limit.rs\<close> and
  \<^verbatim>\<open>crates/sandbox-oci/src/provider/handle.rs\<close>: the state of a daemon and what guards it. What
  lies outside the process (the executor and its \<open>runsc\<close>, the image provider, the volume
  provider, the artifact store and the clock) is a parameter: \<open>backend\<close> gathers its operations,
  each of which reads and changes a world of type \<open>'x\<close>. A sandbox instance has type \<open>'i\<close>
  and an encoded JSON value type \<open>'v\<close>. Counters are words whose increments wrap.
\<close>

subsection \<open>Image handles\<close>

definition PROVIDER_METADATA_SCHEMA_VERSION :: u32 where "PROVIDER_METADATA_SCHEMA_VERSION = 1"

record prepared_image_handle =
  ph_provider :: string
  ph_activation_key :: string
  ph_image :: locked_image

record immutable_rootfs =
  ir_provider :: string
  ir_activation_key :: string
  ir_image :: locked_image
  ir_rootfs :: string
  ir_rootfs_digest :: string
  ir_rootfs_entries :: nat
  ir_rootfs_bytes :: u64

record provider_metadata =
  pm_schema_version :: u32
  pm_provider :: string
  pm_activation_key :: string
  pm_exact_reference :: string
  pm_image_id :: string
  pm_index :: "locked_descriptor option"
  pm_manifest :: locked_descriptor
  pm_config :: locked_descriptor
  pm_layers :: "locked_descriptor list"
  pm_operating_system :: string
  pm_architecture :: string
  pm_variant :: "string option"
  pm_rootfs_digest :: string
  pm_rootfs_entries :: nat
  pm_rootfs_bytes :: u64

definition from_rootfs :: "immutable_rootfs \<Rightarrow> provider_metadata" where
  "from_rootfs r = \<lparr>pm_schema_version = PROVIDER_METADATA_SCHEMA_VERSION, pm_provider = ir_provider r,
     pm_activation_key = ir_activation_key r, pm_exact_reference = li_exact_reference (ir_image r),
     pm_image_id = li_image_id (ir_image r), pm_index = li_index (ir_image r),
     pm_manifest = li_manifest (ir_image r), pm_config = li_config (ir_image r),
     pm_layers = li_layers (ir_image r), pm_operating_system = li_operating_system (ir_image r),
     pm_architecture = li_architecture (ir_image r), pm_variant = li_variant (ir_image r),
     pm_rootfs_digest = ir_rootfs_digest r, pm_rootfs_entries = ir_rootfs_entries r,
     pm_rootfs_bytes = ir_rootfs_bytes r\<rparr>"

definition metadata_matches :: "provider_metadata \<Rightarrow> string \<Rightarrow> string \<Rightarrow> locked_image \<Rightarrow> bool" where
  "metadata_matches m provider activation_key img \<longleftrightarrow>
     pm_schema_version m = PROVIDER_METADATA_SCHEMA_VERSION \<and> pm_provider m = provider \<and>
     pm_activation_key m = activation_key \<and> pm_exact_reference m = li_exact_reference img \<and>
     pm_image_id m = li_image_id img \<and> pm_index m = li_index img \<and> pm_manifest m = li_manifest img \<and>
     pm_config m = li_config img \<and> pm_layers m = li_layers img \<and>
     pm_operating_system m = li_operating_system img \<and> pm_architecture m = li_architecture img \<and>
     pm_variant m = li_variant img"

text \<open>Metadata written for a root matches an image exactly when it is that root's, its source text aside.\<close>

lemma metadata_matches_from_rootfs:
  "metadata_matches (from_rootfs r) provider key img \<longleftrightarrow>
     provider = ir_provider r \<and> key = ir_activation_key r \<and>
     img\<lparr>li_source := s\<rparr> = (ir_image r)\<lparr>li_source := s\<rparr>"
  by (cases img; cases "ir_image r") (auto simp: metadata_matches_def from_rootfs_def)

subsection \<open>The outside\<close>

record volume_provider_capabilities =
  vp_persistence_classes :: "volume_persistence_class set"
  vp_snapshot :: bool
  vp_clone :: bool
  vp_snapshot_portability :: snapshot_portability

record ('i, 'v, 'x) backend =
  be_verifier :: verifier_codec
  be_ledger_json :: assignment_to_json
  be_wait :: "'x \<Rightarrow> nat \<Rightarrow> (unit, sandbox_error) result"
  be_marker_faults :: "'x \<Rightarrow> marker_io faults"
  be_process_id :: nat
  be_now :: "'x \<Rightarrow> nat"
  be_unix_millis :: "'x \<Rightarrow> (u64, sandbox_error) result"
  be_image_verify :: "locked_image \<Rightarrow> 'x \<Rightarrow> (unit, sandbox_error) result \<times> 'x"
  be_image_unpack :: "locked_image \<Rightarrow> 'x \<Rightarrow> (unit, sandbox_error) result \<times> 'x"
  be_image_activate :: "locked_image \<Rightarrow> 'x \<Rightarrow> (prepared_image_handle, sandbox_error) result \<times> 'x"
  be_image_mount :: "prepared_image_handle \<Rightarrow> 'x \<Rightarrow> (immutable_rootfs, sandbox_error) result \<times> 'x"
  be_volume_capabilities :: volume_provider_capabilities
  be_canonicalize :: "'x \<Rightarrow> string \<Rightarrow> (string, string) result"
  be_is_dir :: "'x \<Rightarrow> string \<Rightarrow> bool"
  be_portability :: snapshot_portability
  be_run_admitted :: "topology_lock \<Rightarrow> string \<Rightarrow> string \<Rightarrow> u64 \<Rightarrow> (string, immutable_rootfs) btree_map \<Rightarrow> tenant_scope \<Rightarrow>
     'x \<Rightarrow> ('v, sandbox_error) result \<times> 'x"
  be_start_admitted :: "topology_lock \<Rightarrow> string \<Rightarrow> u64 \<Rightarrow> (string, immutable_rootfs) btree_map \<Rightarrow> tenant_scope \<Rightarrow>
     'x \<Rightarrow> ('i, sandbox_error) result \<times> 'x"
  be_restore_admitted :: "topology_lock \<Rightarrow> string \<Rightarrow> u64 \<Rightarrow> tenant_scope \<Rightarrow> snapshot_id \<Rightarrow> restore_target \<Rightarrow>
     (string, immutable_rootfs) btree_map \<Rightarrow> tenant_scope \<Rightarrow> 'x \<Rightarrow> ('i, sandbox_error) result \<times> 'x"
  be_status :: "'i \<Rightarrow> 'x \<Rightarrow> ('v, sandbox_error) result \<times> 'x"
  be_pause :: "'i \<Rightarrow> 'x \<Rightarrow> ('v, sandbox_error) result \<times> 'i \<times> 'x"
  be_resume :: "'i \<Rightarrow> 'x \<Rightarrow> ('v, sandbox_error) result \<times> 'i \<times> 'x"
  be_stop :: "'i \<Rightarrow> 'x \<Rightarrow> ('v, sandbox_error) result \<times> 'i \<times> 'x"
  be_completed_output :: "string \<Rightarrow> 'i \<Rightarrow> 'x \<Rightarrow> ('v, sandbox_error) result \<times> 'i \<times> 'x"
  be_fence_ingress :: "'i \<Rightarrow> 'x \<Rightarrow> (unit, sandbox_error) result \<times> 'x"
  be_activate_ingress :: "'i \<Rightarrow> 'x \<Rightarrow> (unit, sandbox_error) result \<times> 'x"
  be_snapshot :: "snapshot_id \<Rightarrow> snapshot_mode \<Rightarrow> sandbox_key \<Rightarrow> worker_id \<Rightarrow> assignment_epoch \<Rightarrow>
     'i \<Rightarrow> 'x \<Rightarrow> ('v, sandbox_error) result \<times> 'i \<times> 'x"
  be_is_executable :: "'i \<Rightarrow> bool"
  be_drop :: "'i \<Rightarrow> 'x \<Rightarrow> 'x"
  be_publish_transfer_grant :: "tenant_scope \<Rightarrow> snapshot_id \<Rightarrow> 'x \<Rightarrow> (unit, string) result \<times> 'x"
  be_publish_artifact :: "string \<Rightarrow> string \<Rightarrow> 'x \<Rightarrow> ('v, string) result \<times> 'x"
  be_garbage_collect_artifacts :: "u64 \<Rightarrow> 'x \<Rightarrow> ('v, string) result \<times> 'x"
  be_to_value :: "'v \<Rightarrow> ('v, string) result"
  be_project :: "'v \<Rightarrow> string option"
  be_set_field :: "string \<Rightarrow> string \<Rightarrow> 'v \<Rightarrow> 'v"

text \<open>The provided method \<open>admit\<close> of the trait \<open>ImageProvider\<close>.\<close>

definition provider_admit ::
  "('i, 'v, 'x) backend \<Rightarrow> locked_image \<Rightarrow> 'x \<Rightarrow> (immutable_rootfs, sandbox_error) result \<times> 'x" where
  "provider_admit be img x =
     (case be_image_verify be img x of
        (Inl e, x1) \<Rightarrow> (Err e, x1)
      | (Inr _, x1) \<Rightarrow>
          (case be_image_unpack be img x1 of
             (Inl e, x2) \<Rightarrow> (Err e, x2)
           | (Inr _, x2) \<Rightarrow>
               (case be_image_activate be img x2 of
                  (Inl e, x3) \<Rightarrow> (Err e, x3)
                | (Inr activated, x3) \<Rightarrow> be_image_mount be activated x3)))"

subsection \<open>The state\<close>

record counters =
  ct_requests :: u64
  ct_completed_runs :: u64
  ct_failed_runs :: u64
  ct_cache_hits :: u64
  ct_cache_misses :: u64
  ct_admission_ms :: u128
  ct_recovered_projects :: "string list"
  ct_rejected_connections :: u64
  ct_rejected_requests :: u64

record tenant_counters =
  tc_requests :: u64
  tc_completed_runs :: u64
  tc_failed_runs :: u64

definition tenant_counters_default :: tenant_counters where
  "tenant_counters_default = \<lparr>tc_requests = 0, tc_completed_runs = 0, tc_failed_runs = 0\<rparr>"

record ('i, 'x) daemon_state =
  ds_worker_id :: worker_id
  ds_guest_profiles :: "guest_profile list"
  ds_assignments :: assignment_ledger
  ds_worker :: worker_slot
  ds_work_orders :: "work_order_verifier option"
  ds_cache :: "(string, immutable_rootfs) btree_map"
  ds_active :: "sandbox_key set"
  ds_sandboxes :: "(sandbox_key, 'i) btree_map"
  ds_counters :: counters
  ds_tenant_counters :: "(tenant_scope, tenant_counters) btree_map"
  ds_shutdown :: bool
  ds_world :: 'x

type_synonym ('a, 'i, 'x) daemon_action = "('a, sandbox_error, ('i, 'x) daemon_state) action"

definition on_world ::
  "('x \<Rightarrow> ('a, sandbox_error) result \<times> 'x) \<Rightarrow> ('a, 'i, 'x) daemon_action" where
  "on_world = act_on ds_world (\<lambda>x d. d\<lparr>ds_world := x\<rparr>)"

definition on_worker ::
  "(worker_slot \<Rightarrow> ('a, sandbox_error) result \<times> worker_slot) \<Rightarrow> ('a, 'i, 'x) daemon_action" where
  "on_worker = act_on ds_worker (\<lambda>w d. d\<lparr>ds_worker := w\<rparr>)"

definition bump :: "(counters \<Rightarrow> counters) \<Rightarrow> ('i, 'x) daemon_state \<Rightarrow> ('i, 'x) daemon_state" where
  "bump f d = d\<lparr>ds_counters := f (ds_counters d)\<rparr>"

text \<open>\<open>entry(scope).or_default()\<close> and an update of the counters there.\<close>

definition bump_tenant ::
  "tenant_scope \<Rightarrow> (tenant_counters \<Rightarrow> tenant_counters) \<Rightarrow> ('i, 'x) daemon_state \<Rightarrow> ('i, 'x) daemon_state" where
  "bump_tenant scope f d = d\<lparr>ds_tenant_counters := bt_insert scope
     (f (case bt_get (ds_tenant_counters d) scope of None \<Rightarrow> tenant_counters_default | Some c \<Rightarrow> c))
     (ds_tenant_counters d)\<rparr>"

subsection \<open>Reservations\<close>

definition acquire :: "sandbox_key \<Rightarrow> (unit, 'i, 'x) daemon_action" where
  "acquire key d =
     (if ds_shutdown d then (Done (Err (Runtime ''sandboxd is shutting down'')), d)
      else if key \<in> ds_active d
      then (Done (Err (Runtime (''sandbox `'' @ key_sandbox_id key @ ''` already has an active operation''))), d)
      else (Done (Ok ()), d\<lparr>ds_active := insert key (ds_active d)\<rparr>))"

definition release :: "sandbox_key \<Rightarrow> ('i, 'x) daemon_state \<Rightarrow> ('i, 'x) daemon_state" where
  "release key d = d\<lparr>ds_active := ds_active d - {key}\<rparr>"

text \<open>\<open>let _reservation = acquire(..)?; body\<close>: the reservation is dropped however the body ends.\<close>

definition with_reservation :: "sandbox_key \<Rightarrow> ('a, 'i, 'x) daemon_action \<Rightarrow> ('a, 'i, 'x) daemon_action" where
  "with_reservation key body d =
     (case acquire key d of
        (Panic, d') \<Rightarrow> (Panic, d')
      | (Done (Inl e), d') \<Rightarrow> (Done (Err e), d')
      | (Done (Inr _), d') \<Rightarrow> (case body d' of (r, d'') \<Rightarrow> (r, release key d'')))"

subsection \<open>Connection permits\<close>

record connection_limiter =
  lim_active :: nat
  lim_maximum :: nat

definition limiter_new :: "nat \<Rightarrow> connection_limiter" where
  "limiter_new maximum = \<lparr>lim_active = 0, lim_maximum = maximum\<rparr>"

text \<open>
  \<open>fetch_update\<close> is one atomic step, and so is the \<open>fetch_sub\<close> of a dropped permit. The latter
  would wrap below zero: that point is a panic here, shown to be unreachable.
\<close>

definition try_acquire :: "connection_limiter \<Rightarrow> bool \<times> connection_limiter" where
  "try_acquire l = (if lim_active l < lim_maximum l then (True, l\<lparr>lim_active := lim_active l + 1\<rparr>) else (False, l))"

definition drop_permit :: "connection_limiter \<Rightarrow> connection_limiter exec" where
  "drop_permit l = (if lim_active l = 0 then Panic else Done (l\<lparr>lim_active := lim_active l - 1\<rparr>))"

definition limiter_is_idle :: "connection_limiter \<Rightarrow> bool" where
  "limiter_is_idle l \<longleftrightarrow> lim_active l = 0"

text \<open>
  The permits that connections hold: a connection asks for one, and gives up one it has. The
  counter is the number of permits held, never more than the maximum, and no permit is dropped
  at zero.
\<close>

inductive permits :: "nat \<Rightarrow> connection_limiter \<Rightarrow> nat \<Rightarrow> bool" for maximum where
  permits_new: "permits maximum (limiter_new maximum) 0"
| permits_acquire: "permits maximum l n \<Longrightarrow> try_acquire l = (got, l') \<Longrightarrow> permits maximum l' (if got then Suc n else n)"
| permits_drop: "permits maximum l (Suc n) \<Longrightarrow> drop_permit l = Done l' \<Longrightarrow> permits maximum l' n"

lemma permits_count: "permits maximum l n \<Longrightarrow> lim_active l = n \<and> n \<le> maximum \<and> lim_maximum l = maximum"
  by (induction rule: permits.induct)
    (auto simp: limiter_new_def try_acquire_def drop_permit_def split: if_splits)

lemma permits_never_panic: "permits maximum l (Suc n) \<Longrightarrow> drop_permit l \<noteq> Panic"
  by (auto simp: drop_permit_def dest: permits_count)

lemma idle_iff_no_permit: "permits maximum l n \<Longrightarrow> limiter_is_idle l \<longleftrightarrow> n = 0"
  by (simp add: limiter_is_idle_def permits_count)

end
