(* ===== verification/Admission.thy ===== *)
theory Admission
  imports Daemon_State
begin

text \<open>
  \<^verbatim>\<open>bins/sandboxd/src/service/admission.rs\<close>: whether this worker can carry a topology, and the
  image roots it runs on. The counters and the cache of admitted images belong to the daemon.
\<close>

fun persistence_class_debug :: "volume_persistence_class \<Rightarrow> string" where
  "persistence_class_debug VolEphemeral = ''Ephemeral''"
| "persistence_class_debug VolPersistent = ''Persistent''"
| "persistence_class_debug VolArtifact = ''Artifact''"
| "persistence_class_debug VolSecret = ''Secret''"

definition u16_try_from :: "u64 \<Rightarrow> (u16, unit) result" where
  "u16_try_from n = (if unat n < 2 ^ 16 then Ok (ucast n) else Err ())"

definition resource_demand :: "topology_lock \<Rightarrow> (sandbox_resource_demand, sandbox_error) result" where
  "resource_demand topology =
     (let policy = tl_policy topology in
      and_then (map_err (\<lambda>_. Lock ''service count cannot be represented'')
        (u64_try_from (length (tl_services topology)))) (\<lambda>services.
      and_then (map_err (\<lambda>_. Lock ''service count exceeds worker policy'') (u16_try_from services)) (\<lambda>services_u16.
      and_then (ok_or (Lock ''aggregate CPU demand overflow'')
        (checked_mul services (ucast (sp_cpu_per_service_millis policy)))) (\<lambda>cpu_millis.
      and_then (ok_or (Lock ''aggregate memory demand overflow'')
        (checked_add (sp_memory_bytes_per_service policy) (sp_tmpfs_bytes policy))) (\<lambda>memory_per_service.
      and_then (ok_or (Lock ''aggregate memory demand overflow'')
        (checked_mul services memory_per_service)) (\<lambda>memory_bytes.
      and_then (ok_or (Lock ''aggregate PID demand overflow'')
        (checked_mul services (ucast (sp_pids_per_service policy)))) (\<lambda>pids.
      and_then (map_err (\<lambda>_. Lock ''writable service count cannot be represented'')
        (u64_try_from (length (filter (\<lambda>s. ls_root_filesystem s = WritableRoot)
           (bt_values (tl_services topology)))))) (\<lambda>writable_services.
      and_then (ok_or (Lock ''writable-root demand overflow'')
        (checked_mul writable_services (sp_writable_root_bytes_per_service policy))) (\<lambda>writable_roots.
      and_then (try_fold (\<lambda>acc v. ok_or (Lock ''volume demand overflow'') (checked_add acc (lv_quota_bytes v))) 0
        (filter (\<lambda>v. lv_persistence_class v \<noteq> VolArtifact) (bt_values (tl_volumes topology)))) (\<lambda>volume_bytes.
      and_then (map_err (\<lambda>_. Lock ''output demand cannot be represented'')
        (u64_try_from (sp_maximum_output_bytes policy))) (\<lambda>output_bytes.
      and_then (ok_or (Lock ''ephemeral-storage demand overflow'')
        (case checked_add writable_roots volume_bytes of
           None \<Rightarrow> None | Some acc \<Rightarrow> checked_add acc output_bytes)) (\<lambda>ephemeral_storage_bytes.
      Ok \<lparr>demand_services = services_u16, demand_cpu_millis = cpu_millis, demand_memory_bytes = memory_bytes,
          demand_pids = pids, demand_ephemeral_storage_bytes = ephemeral_storage_bytes\<rparr>))))))))))))"

definition validate_volume_capabilities ::
  "volume_provider_capabilities \<Rightarrow> topology_lock \<Rightarrow> (unit, sandbox_error) result" where
  "validate_volume_capabilities capabilities topology =
     for_each (\<lambda>volume.
       if lv_persistence_class volume \<notin> vp_persistence_classes capabilities
       then Err (Unsupported (''volume provider does not support '' @
              persistence_class_debug (lv_persistence_class volume) @ '' volumes''))
       else if lv_persistence_class volume \<in> {VolEphemeral, VolPersistent} \<and>
               lv_snapshot_policy volume \<noteq> Excluded \<and> \<not> vp_snapshot capabilities
       then Err (Unsupported ''named-volume snapshots require CHOWN and DAC_OVERRIDE or idmapped storage'')
       else Ok ()) (bt_values (tl_volumes topology))"

text \<open>\<open>Path::join\<close> and \<open>Path::starts_with\<close>\<close>

definition path_join :: "string \<Rightarrow> string \<Rightarrow> string" where
  "path_join base rest =
     (if starts_with rest ''/'' then rest
      else if base = [] \<or> ends_with base ''/'' then base @ rest
      else base @ ''/'' @ rest)"

definition path_starts_with :: "string \<Rightarrow> string \<Rightarrow> bool" where
  "path_starts_with p base \<longleftrightarrow> take (length (components base)) (components p) = components base"

definition check_destination ::
  "(string \<Rightarrow> (string, string) result) \<Rightarrow> (string \<Rightarrow> bool) \<Rightarrow> string \<Rightarrow> string \<Rightarrow> volume_spec \<Rightarrow>
     (unit, sandbox_error) result" where
  "check_destination canonicalize is_dir service_name rootfs volume =
     (let shown = vol_destination volume in
      and_then (ok_or (Lock (''volume destination `'' @ shown @ ''` is not absolute''))
        (strip_prefix ''/'' shown)) (\<lambda>relative.
      and_then (map_err (\<lambda>_. Unsupported (''volume destination `'' @ shown @
          ''` does not exist in the admitted image for service `'' @ service_name @ ''`''))
        (canonicalize (path_join rootfs relative))) (\<lambda>destination.
      if \<not> path_starts_with destination rootfs \<or> \<not> is_dir destination
      then Err (Unsupported (''volume destination `'' @ shown @
             ''` is not a safe directory in the admitted image for service `'' @ service_name @ ''`''))
      else Ok ())))"

text \<open>\<open>images[..]\<close> panics when the image is missing.\<close>

definition validate_volume_destinations ::
  "(string \<Rightarrow> (string, string) result) \<Rightarrow> (string \<Rightarrow> bool) \<Rightarrow> topology_lock \<Rightarrow> (string, immutable_rootfs) btree_map \<Rightarrow>
     (unit, sandbox_error) result exec" where
  "validate_volume_destinations canonicalize is_dir topology images =
     exec_each (\<lambda>(service_name, service).
       exec_bind (expect (bt_get images (li_image_id (ls_image service)))) (\<lambda>img.
       exec_then (Done (map_err (\<lambda>e. Runtime (''canonicalize admitted root for service `'' @ service_name @ ''`: '' @ e))
         (canonicalize (ir_rootfs img)))) (\<lambda>rootfs.
       Done (for_each (check_destination canonicalize is_dir service_name rootfs) (ls_volumes service)))))
     (tl_services topology)"

definition cache_hit :: "counters \<Rightarrow> counters" where
  "cache_hit c = c\<lparr>ct_cache_hits := ct_cache_hits c + 1\<rparr>"

definition cache_miss :: "nat \<Rightarrow> counters \<Rightarrow> counters" where
  "cache_miss elapsed c = c\<lparr>ct_cache_misses := ct_cache_misses c + 1,
     ct_admission_ms := ct_admission_ms c + word_of_nat elapsed\<rparr>"

definition admit_image ::
  "('i, 'v, 'x) backend \<Rightarrow> locked_service \<Rightarrow> (immutable_rootfs, 'i, 'x) daemon_action" where
  "admit_image be service d =
     (let image_id = li_image_id (ls_image service) in
      case bt_get (ds_cache d) image_id of
        Some img \<Rightarrow>
          if li_exact_reference (ir_image img) \<noteq> li_exact_reference (ls_image service)
          then (Done (Err (Lock ''cached image identity conflicts with topology'')), d)
          else (Done (Ok img), bump cache_hit d)
      | None \<Rightarrow>
          (case provider_admit be (ls_image service) (ds_world d) of
             (Inl e, x) \<Rightarrow> (Done (Err e), d\<lparr>ds_world := x\<rparr>)
           | (Inr img, x) \<Rightarrow>
               (Done (Ok img),
                bump (cache_miss (be_now be x - be_now be (ds_world d)))
                  (d\<lparr>ds_world := x, ds_cache := bt_insert image_id img (ds_cache d)\<rparr>))))"

fun admit_images ::
  "('i, 'v, 'x) backend \<Rightarrow> locked_service list \<Rightarrow> (string, immutable_rootfs) btree_map \<Rightarrow>
     ((string, immutable_rootfs) btree_map, 'i, 'x) daemon_action" where
  "admit_images be [] images = act_return images"
| "admit_images be (service # rest) images =
     (if bt_contains images (li_image_id (ls_image service)) then admit_images be rest images
      else act_then (admit_image be service) (\<lambda>admitted.
             admit_images be rest (bt_insert (li_image_id (ls_image service)) admitted images)))"

definition admit_topology ::
  "('i, 'v, 'x) backend \<Rightarrow> topology_lock \<Rightarrow> ((string, immutable_rootfs) btree_map, 'i, 'x) daemon_action" where
  "admit_topology be topology =
     act_then (act_lift (verify_lock (vc_lock_json (be_verifier be))
         (\<lambda>b. vc_hex_encode (be_verifier be) (vc_sha256 (be_verifier be) b)) topology)) (\<lambda>_.
     act_then (act_lift (Done (resource_demand topology))) (\<lambda>demand.
     act_then (act_get (\<lambda>d. (ws_shape (ds_worker d), ds_guest_profiles d))) (\<lambda>(shape, profiles).
     act_then (act_lift (Done (map_err (\<lambda>e. Unsupported (core_error_display e)) (require_capacity shape demand)))) (\<lambda>_.
     if \<not> list_ex (\<lambda>profile. profile_identity profile = sp_guest_profile (tl_policy topology)) profiles
     then act_fail (Unsupported (''guest profile `'' @ gp_canonical (sp_guest_profile (tl_policy topology)) @
            ''` is not installed on this worker''))
     else
     act_then (act_lift (Done (validate_volume_capabilities (be_volume_capabilities be) topology))) (\<lambda>_.
     act_then (admit_images be (bt_values (tl_services topology)) []) (\<lambda>images.
     act_then (act_get ds_world) (\<lambda>x.
     act_then (act_lift (validate_volume_destinations (be_canonicalize be x) (be_is_dir be x) topology images)) (\<lambda>_.
     act_return images))))))))"

subsection \<open>Properties\<close>

text \<open>What a topology takes of its worker, in unbounded numbers.\<close>

definition service_count :: "topology_lock \<Rightarrow> nat" where
  "service_count t = length (tl_services t)"

definition cpu_total :: "topology_lock \<Rightarrow> nat" where
  "cpu_total t = service_count t * unat (sp_cpu_per_service_millis (tl_policy t))"

definition memory_total :: "topology_lock \<Rightarrow> nat" where
  "memory_total t =
     service_count t * (unat (sp_memory_bytes_per_service (tl_policy t)) + unat (sp_tmpfs_bytes (tl_policy t)))"

definition pids_total :: "topology_lock \<Rightarrow> nat" where
  "pids_total t = service_count t * unat (sp_pids_per_service (tl_policy t))"

definition storage_total :: "topology_lock \<Rightarrow> nat" where
  "storage_total t =
     length (filter (\<lambda>s. ls_root_filesystem s = WritableRoot) (bt_values (tl_services t))) *
       unat (sp_writable_root_bytes_per_service (tl_policy t)) +
     sum_list (map (unat \<circ> lv_quota_bytes)
       (filter (\<lambda>v. lv_persistence_class v \<noteq> VolArtifact) (bt_values (tl_volumes t)))) +
     sp_maximum_output_bytes (tl_policy t)"

lemmas total_defs = service_count_def cpu_total_def memory_total_def pids_total_def storage_total_def

lemma unat_ucast_u32: "unat (ucast (x :: u32) :: u64) = unat x"
  by (rule unat_ucast_widen) simp

lemma u16_try_from_Ok: "u16_try_from n = Ok w \<Longrightarrow> unat w = unat n"
  by (auto simp: u16_try_from_def unsigned_ucast_eq take_bit_nat_eq_self split: if_splits)

lemma quota_fold:
  "try_fold (\<lambda>acc v. ok_or e (checked_add acc (lv_quota_bytes v))) a vs = Ok b \<Longrightarrow>
     unat b = unat a + sum_list (map (unat \<circ> lv_quota_bytes) vs)"
  by (induction vs arbitrary: a) (auto simp: checked_add_eq_Some)

lemma resource_demand_exact:
  assumes "resource_demand t = Ok d"
  shows "unat (demand_services d) = service_count t" "unat (demand_cpu_millis d) = cpu_total t"
    "unat (demand_memory_bytes d) = memory_total t" "unat (demand_pids d) = pids_total t"
    "unat (demand_ephemeral_storage_bytes d) = storage_total t"
proof -
  from assms obtain n n16 cpu per mem pids wr roots vols out eph where
    1: "u64_try_from (length (tl_services t)) = Ok n" "u16_try_from n = Ok n16"
      "checked_mul n (ucast (sp_cpu_per_service_millis (tl_policy t))) = Some cpu"
      "checked_add (sp_memory_bytes_per_service (tl_policy t)) (sp_tmpfs_bytes (tl_policy t)) = Some per"
      "checked_mul n per = Some mem" "checked_mul n (ucast (sp_pids_per_service (tl_policy t))) = Some pids"
      "u64_try_from (length (filter (\<lambda>s. ls_root_filesystem s = WritableRoot) (bt_values (tl_services t)))) = Ok wr"
      "checked_mul wr (sp_writable_root_bytes_per_service (tl_policy t)) = Some roots"
      "try_fold (\<lambda>acc v. ok_or (Lock ''volume demand overflow'') (checked_add acc (lv_quota_bytes v))) 0
         (filter (\<lambda>v. lv_persistence_class v \<noteq> VolArtifact) (bt_values (tl_volumes t))) = Ok vols"
      "u64_try_from (sp_maximum_output_bytes (tl_policy t)) = Ok out"
      "(case checked_add roots vols of None \<Rightarrow> None | Some acc \<Rightarrow> checked_add acc out) = Some eph"
    and d: "d = \<lparr>demand_services = n16, demand_cpu_millis = cpu, demand_memory_bytes = mem, demand_pids = pids,
          demand_ephemeral_storage_bytes = eph\<rparr>"
    by (auto simp: resource_demand_def Let_def)
  from 1(11) obtain s where "checked_add roots vols = Some s" "checked_add s out = Some eph"
    by (auto split: option.splits)
  then have eph: "unat eph = unat roots + unat vols + unat out" by (simp add: checked_add_eq_Some)
  note n = 1(1) [unfolded u64_try_from_Ok] and wr = 1(7) [unfolded u64_try_from_Ok] and out = 1(10) [unfolded u64_try_from_Ok]
  show "unat (demand_services d) = service_count t" using u16_try_from_Ok [OF 1(2)] n d by (simp add: total_defs)
  show "unat (demand_cpu_millis d) = cpu_total t"
    using 1(3) [unfolded checked_mul_eq_Some] n d by (simp add: total_defs unat_ucast_u32)
  show "unat (demand_memory_bytes d) = memory_total t"
    using 1(5) [unfolded checked_mul_eq_Some] 1(4) n d by (simp add: total_defs checked_add_eq_Some)
  show "unat (demand_pids d) = pids_total t"
    using 1(6) [unfolded checked_mul_eq_Some] n d by (simp add: total_defs unat_ucast_u32)
  show "unat (demand_ephemeral_storage_bytes d) = storage_total t"
    using 1(8) [unfolded checked_mul_eq_Some] quota_fold [OF 1(9)] wr out eph d by (simp add: total_defs)
qed

text \<open>The images a topology is given: one for every service, and none besides.\<close>

definition provides :: "(string, immutable_rootfs) btree_map \<Rightarrow> locked_service list \<Rightarrow> bool" where
  "provides images services \<longleftrightarrow>
     bt_wf images \<and> (\<forall>s \<in> set services. bt_contains images (li_image_id (ls_image s)))"

lemma admit_images_Ok:
  assumes "admit_images be services images d = (Done (Ok images'), d')" and "bt_wf images"
  shows "bt_wf images' \<and> (\<forall>i. bt_contains images i \<longrightarrow> bt_contains images' i) \<and>
    (\<forall>s \<in> set services. bt_contains images' (li_image_id (ls_image s)))"
  using assms
proof (induction services arbitrary: images d)
  case Nil
  then show ?case by (simp add: act_return_def)
next
  case (Cons s ss)
  let ?i = "li_image_id (ls_image s)"
  show ?case
  proof (cases "bt_contains images ?i")
    case True
    with Cons.prems have *: "admit_images be ss images d = (Done (Ok images'), d')" by simp
    with Cons.IH [OF * Cons.prems(2)] True show ?thesis by auto
  next
    case False
    with Cons.prems(1) have "act_then (admit_image be s) (\<lambda>a. admit_images be ss (bt_insert ?i a images)) d =
        (Done (Ok images'), d')" by simp
    then obtain a u where *: "admit_images be ss (bt_insert ?i a images) u = (Done (Ok images'), d')"
      by (cases rule: act_match_cases) (auto simp: act_fail_def)
    have "bt_contains (bt_insert ?i a images) i \<longleftrightarrow> i = ?i \<or> bt_contains images i" for i
      using Cons.prems(2) by (simp add: bt_contains_def bt_simps)
    with Cons.IH [OF *] Cons.prems(2) show ?thesis by (simp add: bt_simps)
  qed
qed

lemma admit_images_provides:
  "admit_images be services [] d = (Done (Ok images), d') \<Longrightarrow> provides images services"
  using admit_images_Ok [of be services "[]" d images d'] by (simp add: provides_def)

lemma destinations_no_panic:
  assumes "provides images (bt_values (tl_services t))"
  shows "validate_volume_destinations canonicalize is_dir t images \<noteq> Panic"
  unfolding validate_volume_destinations_def
proof (rule exec_each_no_panic, clarify)
  fix name service
  assume "(name, service) \<in> set (tl_services t)"
  then have "service \<in> set (bt_values (tl_services t))" by (force simp: bt_values_def)
  with assms obtain img where "bt_get images (li_image_id (ls_image service)) = Some img"
    by (auto simp: provides_def bt_contains_def)
  then show "False" if "exec_bind (expect (bt_get images (li_image_id (ls_image service))))
      (\<lambda>img. exec_then (Done (map_err (\<lambda>e. Runtime (''canonicalize admitted root for service `'' @ name @ ''`: '' @ e))
         (canonicalize (ir_rootfs img)))) (\<lambda>rootfs.
       Done (for_each (check_destination canonicalize is_dir name rootfs) (ls_volumes service)))) = Panic"
    using that by (simp add: expect_def exec_then_eq_Panic)
qed

lemma admit_images_no_panic: "fst (admit_images be services images d) \<noteq> Panic"
proof (induction services arbitrary: images d)
  case (Cons s ss)
  have "fst (admit_image be s d) \<noteq> Panic"
    by (auto simp: admit_image_def Let_def split: option.splits prod.splits sum.splits)
  then show ?case
    using Cons by (auto simp: act_match_def act_fail_def split: prod.splits exec.splits sum.splits)
qed (simp add: act_return_def)

lemma admit_topology_no_panic: "fst (admit_topology be t d) \<noteq> Panic"
proof -
  obtain r u where "admit_images be (bt_values (tl_services t)) [] d = (r, u)" by fastforce
  moreover have "validate_volume_destinations c p t images \<noteq> Panic" if "r = Done (Ok images)" for images c p
    using destinations_no_panic [OF admit_images_provides] calculation that by blast
  ultimately show ?thesis
    using verify_lock_no_panic admit_images_no_panic [of be "bt_values (tl_services t)" "[]" d]
    by (auto simp: admit_topology_def act_match_def act_simps split: exec.splits sum.splits)
qed

lemma admit_topology_Ok:
  assumes "admit_topology be t d = (Done (Ok images), d')"
  shows "verify_lock (vc_lock_json (be_verifier be))
      (\<lambda>b. vc_hex_encode (be_verifier be) (vc_sha256 (be_verifier be) b)) t = Done (Ok ())"
    "\<exists>q. resource_demand t = Ok q \<and> require_capacity (ws_shape (ds_worker d)) q = Ok ()"
    "\<exists>p \<in> set (ds_guest_profiles d). profile_identity p = sp_guest_profile (tl_policy t)"
    "validate_volume_capabilities (be_volume_capabilities be) t = Ok ()"
    "admit_images be (bt_values (tl_services t)) [] d = (Done (Ok images), d')"
    "validate_volume_destinations (be_canonicalize be (ds_world d')) (be_is_dir be (ds_world d')) t images = Done (Ok ())"
  using assms
  by (auto simp: admit_topology_def act_match_def act_simps list_ex_iff
      split: exec.splits sum.splits prod.splits if_splits)

text \<open>
  C6: a topology is admitted only on a worker that can carry all of it. Its aggregate demand,
  computed without wrap-around, is within the worker's shape, its guest profile is installed,
  it has an image root for every service, and every volume of a service is mounted on a
  directory whose resolved path is inside that service's root.
\<close>
theorem admitted_topology_fits_worker:
  assumes "admit_topology be t d = (Done (Ok images), d')"
  shows "0 < service_count t \<and> service_count t \<le> unat (shape_maximum_services (ws_shape (ds_worker d))) \<and>
    cpu_total t \<le> unat (sandbox_cpu_millis (ws_shape (ds_worker d))) \<and>
    memory_total t \<le> unat (sandbox_memory_bytes (ws_shape (ds_worker d))) \<and>
    pids_total t \<le> unat (sandbox_pids (ws_shape (ds_worker d))) \<and>
    storage_total t \<le> unat (sandbox_ephemeral_storage_bytes (ws_shape (ds_worker d))) \<and>
    sp_guest_profile (tl_policy t) \<in> profile_identity ` set (ds_guest_profiles d) \<and>
    (\<forall>(name, s) \<in> set (tl_services t). \<exists>img root. bt_get images (li_image_id (ls_image s)) = Some img \<and>
       be_canonicalize be (ds_world d') (ir_rootfs img) = Ok root \<and>
       (\<forall>v \<in> set (ls_volumes s). \<exists>rel dest. vol_destination v = CHR ''/'' # rel \<and>
          be_canonicalize be (ds_world d') (path_join root rel) = Ok dest \<and> path_starts_with dest root \<and>
          be_is_dir be (ds_world d') dest))"
proof -
  obtain q where q: "resource_demand t = Ok q" "require_capacity (ws_shape (ds_worker d)) q = Ok ()"
    using admit_topology_Ok(2) [OF assms] by blast
  have "demand_services q \<noteq> 0" using q(2) by (auto simp: require_capacity_iff demand_validate_def split: if_splits)
  then have pos: "0 < service_count t" using resource_demand_exact(1) [OF q(1)] by (metis gr0I unat_eq_zero)
  have dest: "\<exists>img root. bt_get images (li_image_id (ls_image s)) = Some img \<and>
       be_canonicalize be (ds_world d') (ir_rootfs img) = Ok root \<and>
       (\<forall>v \<in> set (ls_volumes s). \<exists>rel dest. vol_destination v = CHR ''/'' # rel \<and>
          be_canonicalize be (ds_world d') (path_join root rel) = Ok dest \<and> path_starts_with dest root \<and>
          be_is_dir be (ds_world d') dest)" if "(name, s) \<in> set (tl_services t)" for name s
    using admit_topology_Ok(6) [OF assms] that
    by (fastforce simp: validate_volume_destinations_def check_destination_def Let_def expect_def split: option.splits)
  show ?thesis
    using q(2) resource_demand_exact [OF q(1)] pos admit_topology_Ok(3) [OF assms] dest
    by (auto simp: require_capacity_iff intro: rev_image_eqI)
qed

subsection \<open>A concrete backend\<close>

text \<open>
  A backend whose images and instances all come up, or whose starts fail; its paths resolve to
  themselves. The daemon on it has an empty cache and a clean worker.
\<close>

definition sample_codec :: verifier_codec where
  "sample_codec = ping_codec\<lparr>vc_hex_encode := (\<lambda>_. ''00'')\<rparr>"

definition sample_root :: immutable_rootfs where
  "sample_root = \<lparr>ir_provider = ''p'', ir_activation_key = ''k'', ir_image = sample_image, ir_rootfs = ''/roots/x'',
     ir_rootfs_digest = ''d'', ir_rootfs_entries = 1, ir_rootfs_bytes = 1\<rparr>"

definition sample_backend :: "bool \<Rightarrow> (unit, string, unit) backend" where
  "sample_backend up = \<lparr>be_verifier = sample_codec, be_ledger_json = (\<lambda>_. Ok ''{}''), be_wait = (\<lambda>_ _. Ok ()),
     be_marker_faults = (\<lambda>_. no_faults), be_process_id = 7, be_now = (\<lambda>_. 20), be_unix_millis = (\<lambda>_. Ok 1500),
     be_image_verify = (\<lambda>_ x. (Ok (), x)), be_image_unpack = (\<lambda>_ x. (Ok (), x)),
     be_image_activate = (\<lambda>img x. (Ok \<lparr>ph_provider = ''p'', ph_activation_key = ''k'', ph_image = img\<rparr>, x)),
     be_image_mount = (\<lambda>_ x. (Ok sample_root, x)),
     be_volume_capabilities = \<lparr>vp_persistence_classes = {VolEphemeral, VolPersistent}, vp_snapshot = True, vp_clone = True,
        vp_snapshot_portability = SameWorker\<rparr>,
     be_canonicalize = (\<lambda>_ p. Ok p), be_is_dir = (\<lambda>_ _. True), be_portability = SameWorker,
     be_run_admitted = (\<lambda>_ _ _ _ _ _ x. (Ok ''done'', x)),
     be_start_admitted = (\<lambda>_ _ _ _ _ x. (if up then Ok () else Err (Runtime ''start''), x)),
     be_restore_admitted = (\<lambda>_ _ _ _ _ _ _ _ x. (Ok (), x)), be_status = (\<lambda>_ x. (Ok ''up'', x)),
     be_pause = (\<lambda>i x. (Ok ''paused'', i, x)), be_resume = (\<lambda>i x. (Ok ''up'', i, x)), be_stop = (\<lambda>i x. (Ok ''stopped'', i, x)),
     be_completed_output = (\<lambda>_ i x. (Ok ''logs'', i, x)), be_fence_ingress = (\<lambda>_ x. (Ok (), x)),
     be_activate_ingress = (\<lambda>_ x. (Ok (), x)), be_snapshot = (\<lambda>_ _ _ _ _ i x. (Ok ''snap'', i, x)),
     be_is_executable = (\<lambda>_. True), be_drop = (\<lambda>_ x. x), be_publish_transfer_grant = (\<lambda>_ _ x. (Ok (), x)),
     be_publish_artifact = (\<lambda>_ _ x. (Ok ''published'', x)), be_garbage_collect_artifacts = (\<lambda>_ x. (Ok ''collected'', x)),
     be_to_value = Ok, be_project = (\<lambda>_. None), be_set_field = (\<lambda>_ _ v. v)\<rparr>"

lemma sample_backend_simps [simp]:
  "be_verifier (sample_backend up) = sample_codec" "be_ledger_json (sample_backend up) = (\<lambda>_. Ok ''{}'')"
  "be_wait (sample_backend up) = (\<lambda>_ _. Ok ())" "be_marker_faults (sample_backend up) = (\<lambda>_. no_faults)"
  "be_process_id (sample_backend up) = 7" "be_now (sample_backend up) = (\<lambda>_. 20)"
  "be_unix_millis (sample_backend up) = (\<lambda>_. Ok 1500)"
  "be_image_verify (sample_backend up) = (\<lambda>_ x. (Ok (), x))"
  "be_image_unpack (sample_backend up) = (\<lambda>_ x. (Ok (), x))"
  "be_image_activate (sample_backend up) = (\<lambda>img x. (Ok \<lparr>ph_provider = ''p'', ph_activation_key = ''k'', ph_image = img\<rparr>, x))"
  "be_image_mount (sample_backend up) = (\<lambda>_ x. (Ok sample_root, x))"
  "be_volume_capabilities (sample_backend up) = \<lparr>vp_persistence_classes = {VolEphemeral, VolPersistent}, vp_snapshot = True, vp_clone = True, vp_snapshot_portability = SameWorker\<rparr>"
  "be_canonicalize (sample_backend up) = (\<lambda>_ p. Ok p)" "be_is_dir (sample_backend up) = (\<lambda>_ _. True)"
  "be_portability (sample_backend up) = SameWorker"
  "be_run_admitted (sample_backend up) = (\<lambda>_ _ _ _ _ _ x. (Ok ''done'', x))"
  "be_start_admitted (sample_backend up) = (\<lambda>_ _ _ _ _ x. (if up then Ok () else Err (Runtime ''start''), x))"
  "be_restore_admitted (sample_backend up) = (\<lambda>_ _ _ _ _ _ _ _ x. (Ok (), x))"
  "be_status (sample_backend up) = (\<lambda>_ x. (Ok ''up'', x))"
  "be_pause (sample_backend up) = (\<lambda>i x. (Ok ''paused'', i, x))"
  "be_resume (sample_backend up) = (\<lambda>i x. (Ok ''up'', i, x))"
  "be_stop (sample_backend up) = (\<lambda>i x. (Ok ''stopped'', i, x))"
  "be_completed_output (sample_backend up) = (\<lambda>_ i x. (Ok ''logs'', i, x))"
  "be_fence_ingress (sample_backend up) = (\<lambda>_ x. (Ok (), x))"
  "be_activate_ingress (sample_backend up) = (\<lambda>_ x. (Ok (), x))"
  "be_snapshot (sample_backend up) = (\<lambda>_ _ _ _ _ i x. (Ok ''snap'', i, x))"
  "be_is_executable (sample_backend up) = (\<lambda>_. True)" "be_drop (sample_backend up) = (\<lambda>_ x. x)"
  "be_publish_transfer_grant (sample_backend up) = (\<lambda>_ _ x. (Ok (), x))"
  "be_publish_artifact (sample_backend up) = (\<lambda>_ _ x. (Ok ''published'', x))"
  "be_garbage_collect_artifacts (sample_backend up) = (\<lambda>_ x. (Ok ''collected'', x))"
  "be_to_value (sample_backend up) = Ok" "be_project (sample_backend up) = (\<lambda>_. None)"
  "be_set_field (sample_backend up) = (\<lambda>_ _ v. v)"
  by (simp_all add: sample_backend_def)

definition sample_profile :: guest_profile where
  "sample_profile = \<lparr>profile_identity = GuestProfileIdentity ''strict'' 1,
     restrictions = \<lparr>gr_uid = 65534, gr_gid = 65534, bounding_capabilities = [], effective_capabilities = [],
       inheritable_capabilities = [], permitted_capabilities = [], ambient_capabilities = [], no_new_privileges = True,
       isolated_namespaces = ISOLATED_NAMESPACES, masked_paths = MASKED_PATHS, readonly_paths = READONLY_PATHS,
       directfs_enabled = False, host_unix_sockets = False, host_fifos = False\<rparr>\<rparr>"

definition no_counts :: counters where
  "no_counts = \<lparr>ct_requests = 0, ct_completed_runs = 0, ct_failed_runs = 0, ct_cache_hits = 0, ct_cache_misses = 0,
     ct_admission_ms = 0, ct_recovered_projects = [], ct_rejected_connections = 0, ct_rejected_requests = 0\<rparr>"

definition sample_daemon :: "(sandbox_key, assignment_record) btree_map \<Rightarrow> (unit, unit) daemon_state" where
  "sample_daemon records = \<lparr>ds_worker_id = ''worker'', ds_guest_profiles = [sample_profile],
     ds_assignments = \<lparr>al_journal = \<lparr>sender_open = True, writer_alive = True, sent_commands = [], next_completion = 0\<rparr>,
        al_entries = records, al_appends_since_compaction = 0\<rparr>,
     ds_worker = clean_slot, ds_work_orders = None, ds_cache = [], ds_active = {}, ds_sandboxes = [], ds_counters = no_counts,
     ds_tenant_counters = [], ds_shutdown = False, ds_world = ()\<rparr>"

lemma unit_world [simp]: "d\<lparr>ds_world := x\<rparr> = d" for d :: "('i, unit) daemon_state"
  by (cases d) simp

lemma sample_demand:
  "resource_demand sample_lock = Ok \<lparr>demand_services = 2, demand_cpu_millis = 1000, demand_memory_bytes = 301989888,
     demand_pids = 192, demand_ephemeral_storage_bytes = 9437184\<rparr>"
  by (simp add: resource_demand_def sample_lock_def sample_services_def sample_locked_def sample_topology_policy_def
      bt_values_def u64_try_from_def u16_try_from_def checked_mul_def checked_add_def Let_def)

lemma sample_admitted:
  assumes "ws_shape (ds_worker d) = small_shape" and "ds_guest_profiles d = [sample_profile]" and "ds_cache d = []"
  shows "admit_topology (sample_backend up) sample_lock d =
    (Done (Ok [(''x'', sample_root)]), bump (cache_miss 0) (d\<lparr>ds_cache := [(''x'', sample_root)]\<rparr>))"
proof -
  have v: "verify_lock (vc_lock_json sample_codec) (\<lambda>b. vc_hex_encode sample_codec (vc_sha256 sample_codec b)) sample_lock = Done (Ok ())"
    using sample_lock_parts(3) by (simp add: sample_codec_def ping_codec_def)
  have q: "require_capacity small_shape \<lparr>demand_services = 2, demand_cpu_millis = 1000, demand_memory_bytes = 301989888,
     demand_pids = 192, demand_ephemeral_storage_bytes = 9437184\<rparr> = Ok ()"
    by (simp add: require_capacity_iff small_shape_def demand_validate_def small_shape_valid [unfolded small_shape_def])
  have c: "validate_volume_capabilities (be_volume_capabilities (sample_backend up)) sample_lock = Ok ()"
    by (simp add: validate_volume_capabilities_def sample_lock_def bt_values_def)
  have i: "admit_images (sample_backend up) (bt_values (tl_services sample_lock)) [] d =
      (Done (Ok [(''x'', sample_root)]), bump (cache_miss 0) (d\<lparr>ds_cache := [(''x'', sample_root)]\<rparr>))"
    by (simp add: sample_lock_def sample_services_def sample_locked_def bt_values_def sample_image_def bt_contains_def bt_get_def
        act_match_def act_simps admit_image_def provider_admit_def assms Let_def)
  have w: "validate_volume_destinations Ok (\<lambda>_. True) sample_lock [(''x'', sample_root)] = Done (Ok ())"
    by (simp add: validate_volume_destinations_def sample_lock_def sample_services_def sample_locked_def sample_image_def
        bt_get_def expect_def sample_root_def check_destination_def Let_def path_join_def path_starts_with_def
        components_def ends_with_def)
  have g: "profile_identity sample_profile = sp_guest_profile (tl_policy sample_lock)"
    by (simp add: sample_profile_def sample_lock_def sample_topology_policy_def)
  show ?thesis
    using v q c i w g
    by (simp add: admit_topology_def act_match_def act_simps sample_demand assms)
qed

theorem admitted_topology_fits_worker_witness:
  "\<exists>d'. admit_topology (sample_backend True) sample_lock (sample_daemon []) = (Done (Ok [(''x'', sample_root)]), d') \<and>
     memory_total sample_lock \<le> unat (sandbox_memory_bytes small_shape) \<and> storage_total sample_lock \<le> 1073741824"
proof -
  have s: "ws_shape (ds_worker (sample_daemon [])) = small_shape" by (simp add: sample_daemon_def clean_slot_def fresh_slot_def)
  obtain d' where a: "admit_topology (sample_backend True) sample_lock (sample_daemon []) = (Done (Ok [(''x'', sample_root)]), d')"
    using sample_admitted [of "sample_daemon []" True] s by (simp add: sample_daemon_def)
  from admitted_topology_fits_worker [OF a] show ?thesis unfolding s using a by (simp add: small_shape_def)
qed

end
