(* ===== verification/Daemon.thy ===== *)
theory Daemon
  imports Admission
begin

text \<open>
  \<^verbatim>\<open>bins/sandboxd/src/service/handler.rs\<close> and \<^verbatim>\<open>metrics.rs\<close>: what the daemon does for each
  operation, composed of the worker slot, the assignment ledger, admission and the backend. A
  handler runs to its end as one action. The JSON objects of the source are a datatype of
  replies; the constant description of the backend in the answer to a ping is left out.
\<close>

fun sandbox_error_display :: "sandbox_error \<Rightarrow> string" where
  "sandbox_error_display (Io path source) = ''I/O failed for `'' @ path @ ''`: '' @ source"
| "sandbox_error_display (Compose m) = ''invalid restricted Compose input: '' @ m"
| "sandbox_error_display (Lock m) = ''invalid topology lock: '' @ m"
| "sandbox_error_display (Docker m) = ''local Docker operation failed: '' @ m"
| "sandbox_error_display (ImageProvider m) = ''OCI image provider failed: '' @ m"
| "sandbox_error_display (Timeout m) = ''sandbox timed out: '' @ m"
| "sandbox_error_display (Runtime m) = ''sandbox runtime failed: '' @ m"
| "sandbox_error_display (Unsupported m) = ''unsupported sandbox feature: '' @ m"

datatype 'v reply =
    Capabilities worker_status
  | Readiness worker_status
  | OperatorStats worker_status counters nat "(string \<times> string \<times> string) list" "'v list"
  | TenantStats "tenant_counters option" "'v list"
  | Admitted "(string \<times> string \<times> string \<times> nat \<times> u64) list"
  | Value 'v
  | Snapshotted 'v "(nat \<times> nat) option"
  | ShuttingDown

subsection \<open>Steps on the parts of the state\<close>

text \<open>A ledger operation with the wait for its journal records.\<close>

definition settle ::
  "(nat \<Rightarrow> (unit, sandbox_error) result) \<Rightarrow> (operation_outcome, sandbox_error) result \<times> assignment_ledger \<Rightarrow>
     (assignment_epoch, sandbox_error) result \<times> assignment_ledger" where
  "settle wait p =
     (case p of
        (Inl e, l) \<Rightarrow> (Err e, l)
      | (Inr out, l) \<Rightarrow>
          (case out of (_, _, _, appended, replacement) \<Rightarrow>
             operation_end out (wait appended) (map_option wait replacement) l))"

definition on_ledger ::
  "('i, 'v, 'x) backend \<Rightarrow>
     (assignment_to_json \<Rightarrow> assignment_ledger \<Rightarrow> (operation_outcome, sandbox_error) result \<times> assignment_ledger) \<Rightarrow>
     (assignment_epoch, 'i, 'x) daemon_action" where
  "on_ledger be f d =
     act_on ds_assignments (\<lambda>l d. d\<lparr>ds_assignments := l\<rparr>)
       (\<lambda>l. settle (be_wait be (ds_world d)) (f (be_ledger_json be) l)) d"

definition lease :: "('i, 'v, 'x) backend \<Rightarrow> sandbox_key \<Rightarrow> (unit, 'i, 'x) daemon_action" where
  "lease be key d = on_worker (slot_lease (be_now be (ds_world d)) key) d"

definition insert_sandbox :: "sandbox_key \<Rightarrow> 'i \<Rightarrow> ('i, 'x) daemon_state \<Rightarrow> ('i, 'x) daemon_state" where
  "insert_sandbox key i d = d\<lparr>ds_sandboxes := bt_insert key i (ds_sandboxes d)\<rparr>"

definition remove_sandbox :: "sandbox_key \<Rightarrow> ('i, 'x) daemon_state \<Rightarrow> ('i, 'x) daemon_state" where
  "remove_sandbox key d = d\<lparr>ds_sandboxes := bt_remove key (ds_sandboxes d)\<rparr>"

text \<open>The end of an instance's life, now or when the function returns.\<close>

definition drop_instance :: "('i, 'v, 'x) backend \<Rightarrow> 'i \<Rightarrow> ('i, 'x) daemon_state \<Rightarrow> ('i, 'x) daemon_state" where
  "drop_instance be i d = d\<lparr>ds_world := be_drop be i (ds_world d)\<rparr>"

definition dropping :: "('i, 'v, 'x) backend \<Rightarrow> 'i \<Rightarrow> ('a, 'i, 'x) daemon_action \<Rightarrow> ('a, 'i, 'x) daemon_action" where
  "dropping be i m d = (case m d of (r, d') \<Rightarrow> (r, drop_instance be i d'))"

text \<open>A call on a locked instance, which stays in the map.\<close>

definition on_instance ::
  "sandbox_key \<Rightarrow> 'i \<Rightarrow> ('i \<Rightarrow> 'x \<Rightarrow> ('a, sandbox_error) result \<times> 'i \<times> 'x) \<Rightarrow> ('a \<Rightarrow> 'b) \<Rightarrow>
     (('b, sandbox_error) result \<times> 'i, 'i, 'x) daemon_action" where
  "on_instance key i f g d =
     (case f i (ds_world d) of
        (r, i', x) \<Rightarrow> (Done (Ok (and_then r (\<lambda>y. Ok (g y)), i')), insert_sandbox key i' (d\<lparr>ds_world := x\<rparr>)))"

definition quarantine_after_failure ::
  "('i, 'v, 'x) backend \<Rightarrow> sandbox_key \<Rightarrow> sandbox_error \<Rightarrow> ('a, 'i, 'x) daemon_action" where
  "quarantine_after_failure be key error d =
     (case quarantine (be_marker_faults be (ds_world d)) (be_process_id be) (Some key)
             ''sandbox-operation-failed'' (ds_worker d) of
        (r, w) \<Rightarrow>
          (Done (Err (case r of
                        Inr _ \<Rightarrow> error
                      | Inl q \<Rightarrow> Runtime (''sandbox operation failed: '' @ sandbox_error_display error @
                          ''; worker quarantine failed: '' @ sandbox_error_display q))),
           d\<lparr>ds_worker := w, ds_shutdown := True\<rparr>))"

definition mark_failed ::
  "('i, 'v, 'x) backend \<Rightarrow> sandbox_key \<Rightarrow> assignment_epoch \<Rightarrow> sandbox_error \<Rightarrow> ('a, 'i, 'x) daemon_action" where
  "mark_failed be key epoch error =
     act_match (on_ledger be (\<lambda>json. ledger_mark json key epoch AsFailed))
       (\<lambda>journal_error. quarantine_after_failure be key
          (Runtime (''sandbox operation failed: '' @ sandbox_error_display error @
             ''; assignment journal failed: '' @ sandbox_error_display journal_error)))
       (\<lambda>_. quarantine_after_failure be key error)"

definition complete_worker_cleanup ::
  "('i, 'v, 'x) backend \<Rightarrow> sandbox_key \<Rightarrow> (unit, 'i, 'x) daemon_action" where
  "complete_worker_cleanup be key =
     act_then (on_worker (begin_cleaning key)) (\<lambda>_.
     act_then (\<lambda>d. on_worker (recycle_clean (be_marker_faults be (ds_world d)) (be_process_id be) key) d) (\<lambda>_.
     act_modify (\<lambda>d. d\<lparr>ds_shutdown := True\<rparr>)))"

definition finish_terminal_assignment ::
  "('i, 'v, 'x) backend \<Rightarrow> sandbox_key \<Rightarrow> assignment_epoch \<Rightarrow> (unit, 'i, 'x) daemon_action" where
  "finish_terminal_assignment be key epoch =
     act_then (on_worker (begin_draining key)) (\<lambda>_.
     act_then (on_ledger be (\<lambda>json. ledger_mark json key epoch AsStopped)) (\<lambda>_.
     complete_worker_cleanup be key))"

definition record_run :: "access_context \<Rightarrow> bool \<Rightarrow> ('i, 'x) daemon_state \<Rightarrow> ('i, 'x) daemon_state" where
  "record_run context succeeded d =
     (let d1 = bump (\<lambda>c. if succeeded then c\<lparr>ct_completed_runs := ct_completed_runs c + 1\<rparr>
                         else c\<lparr>ct_failed_runs := ct_failed_runs c + 1\<rparr>) d
      in if is_operator context then d1
         else bump_tenant (context_scope context)
                (\<lambda>c. if succeeded then c\<lparr>tc_completed_runs := tc_completed_runs c + 1\<rparr>
                     else c\<lparr>tc_failed_runs := tc_failed_runs c + 1\<rparr>) d1)"

definition validate_timeout :: "u64 \<Rightarrow> (unit, sandbox_error) result" where
  "validate_timeout timeout_ms =
     (if timeout_ms = 0 \<or> timeout_ms > 300000
      then Err (Lock ''timeout must be between 1 and 300000 milliseconds'') else Ok ())"

definition key_of :: "access_context \<Rightarrow> string \<Rightarrow> (sandbox_key, sandbox_error) result" where
  "key_of context sandbox =
     and_then (map_err (\<lambda>e. Runtime (core_error_display e)) (parse_sandbox_id sandbox)) (\<lambda>sandbox_id.
       Ok (context_sandbox_key context sandbox_id))"

definition scoped_value :: "('i, 'v, 'x) backend \<Rightarrow> 'v \<Rightarrow> sandbox_key \<Rightarrow> bool \<Rightarrow> ('v reply, sandbox_error) result" where
  "scoped_value be v key operator =
     and_then (map_err (\<lambda>e. Runtime (''encode sandbox result: '' @ e)) (be_to_value be v)) (\<lambda>encoded.
       Ok (Value (case be_project be encoded of
                    None \<Rightarrow> encoded
                  | Some project \<Rightarrow>
                      let scoped = be_set_field be ''project'' (key_sandbox_id key) encoded
                      in if operator then be_set_field be ''runtime_project'' project scoped else scoped)))"

definition project_of :: "('i, 'v, 'x) backend \<Rightarrow> sandbox_key \<Rightarrow> assignment_epoch \<Rightarrow> string" where
  "project_of be key epoch =
     runtime_project (vc_sha256 (be_verifier be)) (vc_hex_encode (be_verifier be)) key epoch"

subsection \<open>Operations that use up the worker\<close>

definition daemon_run ::
  "('i, 'v, 'x) backend \<Rightarrow> access_context \<Rightarrow> topology_lock \<Rightarrow> string \<Rightarrow> string \<Rightarrow> u64 \<Rightarrow> ('v reply, 'i, 'x) daemon_action" where
  "daemon_run be context topology sandbox wait_for timeout_ms =
     act_then (act_lift (Done (validate_timeout timeout_ms))) (\<lambda>_.
     act_then (act_lift (Done (key_of context sandbox))) (\<lambda>key.
     with_reservation key (
     act_then (lease be key) (\<lambda>_.
     act_match (on_ledger be (\<lambda>json. ledger_begin json key (context_assignment_epoch context)))
       (quarantine_after_failure be key) (\<lambda>epoch.
     act_match (admit_topology be topology) (mark_failed be key epoch) (\<lambda>admitted.
     act_match (on_worker (mark_running key)) (mark_failed be key epoch) (\<lambda>_.
     act_match (on_world (be_run_admitted be topology (project_of be key epoch) wait_for timeout_ms admitted (key_scope key)))
       (\<lambda>error. act_then (act_modify (record_run context False)) (\<lambda>_. mark_failed be key epoch error)) (\<lambda>result.
     act_match (finish_terminal_assignment be key epoch) (quarantine_after_failure be key) (\<lambda>_.
     act_then (act_modify (record_run context True)) (\<lambda>_.
     act_lift (Done (scoped_value be result key (is_operator context)))))))))))))"

text \<open>The common end of \<open>create\<close> and \<open>restore\<close>, from the started instance on.\<close>

definition activate_instance ::
  "('i, 'v, 'x) backend \<Rightarrow> access_context \<Rightarrow> sandbox_key \<Rightarrow> assignment_epoch \<Rightarrow> 'i \<Rightarrow> ('v reply, 'i, 'x) daemon_action" where
  "activate_instance be context key epoch i =
     act_match (on_world (be_status be i)) (\<lambda>error. dropping be i (mark_failed be key epoch error)) (\<lambda>status.
     let abandon = (\<lambda>error. act_then (act_modify (drop_instance be i)) (\<lambda>_. mark_failed be key epoch error)) in
     act_match (on_ledger be (\<lambda>json. ledger_mark json key epoch AsActive)) abandon (\<lambda>_.
     act_match (on_world (be_activate_ingress be i)) abandon (\<lambda>_.
     act_match (on_worker (mark_running key)) abandon (\<lambda>_.
     act_then (act_modify (insert_sandbox key i)) (\<lambda>_.
     act_lift (Done (scoped_value be status key (is_operator context))))))))"

definition refuse_existing :: "sandbox_key \<Rightarrow> string \<Rightarrow> (unit, 'i, 'x) daemon_action" where
  "refuse_existing key sandbox d =
     (if bt_contains (ds_sandboxes d) key
      then (Done (Err (Runtime (''sandbox `'' @ sandbox @ ''` already exists''))), d) else (Done (Ok ()), d))"

definition create ::
  "('i, 'v, 'x) backend \<Rightarrow> access_context \<Rightarrow> topology_lock \<Rightarrow> string \<Rightarrow> u64 \<Rightarrow> ('v reply, 'i, 'x) daemon_action" where
  "create be context topology sandbox timeout_ms =
     act_then (act_lift (Done (validate_timeout timeout_ms))) (\<lambda>_.
     act_then (act_lift (Done (key_of context sandbox))) (\<lambda>key.
     act_then (refuse_existing key sandbox) (\<lambda>_.
     with_reservation key (
     act_then (lease be key) (\<lambda>_.
     act_match (on_ledger be (\<lambda>json. ledger_begin json key (context_assignment_epoch context)))
       (quarantine_after_failure be key) (\<lambda>epoch.
     act_match (admit_topology be topology) (mark_failed be key epoch) (\<lambda>admitted.
     act_match (on_world (be_start_admitted be topology (project_of be key epoch) timeout_ms admitted (key_scope key)))
       (mark_failed be key epoch) (\<lambda>i.
     activate_instance be context key epoch i))))))))"

definition restore_target_of ::
  "('i, 'v, 'x) backend \<Rightarrow> worker_id \<Rightarrow> sandbox_key \<Rightarrow> assignment_epoch \<Rightarrow> topology_lock \<Rightarrow> u64 option \<Rightarrow>
     (restore_target, sandbox_error) result" where
  "restore_target_of be worker key epoch topology fenced_source_epoch =
     and_then (case fenced_source_epoch of
                 None \<Rightarrow> Ok None
               | Some n \<Rightarrow> and_then (map_err (\<lambda>e. Runtime (core_error_display e)) (epoch_new n)) (\<lambda>e. Ok (Some e)))
       (\<lambda>fenced. Ok \<lparr>rt_tenant_id = scope_tenant_id (key_scope key), rt_workspace_id = scope_workspace_id (key_scope key),
          rt_sandbox_id = key_sandbox_id key, rt_worker_id = worker, rt_assignment_epoch = epoch,
          rt_artifact_portability = be_portability be, rt_guest_profile = sp_guest_profile (tl_policy topology),
          rt_fenced_source_epoch = fenced\<rparr>)"

definition restore ::
  "('i, 'v, 'x) backend \<Rightarrow> access_context \<Rightarrow> topology_lock \<Rightarrow> string \<Rightarrow> string \<Rightarrow> u64 \<Rightarrow> u64 option \<Rightarrow>
     ('v reply, 'i, 'x) daemon_action" where
  "restore be context topology sandbox snapshot timeout_ms fenced_source_epoch =
     act_then (act_lift (Done (validate_timeout timeout_ms))) (\<lambda>_.
     act_then (act_lift (Done (map_err (\<lambda>e. Runtime (core_error_display e)) (parse_snapshot_id snapshot)))) (\<lambda>snapshot_id.
     act_then (act_lift (Done (key_of context sandbox))) (\<lambda>key.
     act_then (refuse_existing key sandbox) (\<lambda>_.
     with_reservation key (
     act_then (lease be key) (\<lambda>_.
     act_match (on_ledger be (\<lambda>json. begin_restore json key (context_assignment_epoch context) snapshot_id))
       (quarantine_after_failure be key) (\<lambda>epoch.
     act_match (admit_topology be topology) (mark_failed be key epoch) (\<lambda>admitted.
     act_then (act_get ds_worker_id) (\<lambda>worker.
     act_then (act_lift (Done (restore_target_of be worker key epoch topology fenced_source_epoch))) (\<lambda>target.
     act_match (on_world (be_restore_admitted be topology (project_of be key epoch) timeout_ms (context_scope context)
         snapshot_id target admitted (key_scope key)))
       (mark_failed be key epoch) (\<lambda>i.
     activate_instance be context key epoch i)))))))))))"

subsection \<open>Operations on a running sandbox\<close>

definition current_epoch ::
  "sandbox_key \<Rightarrow> assignment_epoch option \<Rightarrow> (assignment_epoch, 'i, 'x) daemon_action" where
  "current_epoch key requested d = (Done (require_current key requested (ds_assignments d)), d)"

definition find_instance :: "sandbox_key \<Rightarrow> ('i, 'i, 'x) daemon_action" where
  "find_instance key d =
     (Done (ok_or (Runtime (''sandbox `'' @ key_sandbox_id key @ ''` does not exist'')) (bt_get (ds_sandboxes d) key)), d)"

definition with_key ::
  "('i, 'v, 'x) backend \<Rightarrow> sandbox_key \<Rightarrow> assignment_epoch \<Rightarrow> bool \<Rightarrow>
     ('i \<Rightarrow> 'x \<Rightarrow> ('v, sandbox_error) result \<times> 'i \<times> 'x) \<Rightarrow> ('v reply, 'i, 'x) daemon_action" where
  "with_key be key expected_epoch operator f =
     act_then (find_instance key) (\<lambda>i.
     act_then (current_epoch key (Some expected_epoch)) (\<lambda>_.
     act_then (on_instance key i f id) (\<lambda>(result, _).
     act_then (act_lift (Done result)) (\<lambda>v.
     act_lift (Done (scoped_value be v key operator))))))"

definition with_sandbox ::
  "('i, 'v, 'x) backend \<Rightarrow> access_context \<Rightarrow> string \<Rightarrow>
     ('i \<Rightarrow> 'x \<Rightarrow> ('v, sandbox_error) result \<times> 'i \<times> 'x) \<Rightarrow> ('v reply, 'i, 'x) daemon_action" where
  "with_sandbox be context sandbox f =
     act_then (act_lift (Done (key_of context sandbox))) (\<lambda>key.
     act_then (current_epoch key (context_assignment_epoch context)) (\<lambda>epoch.
     with_key be key epoch (is_operator context) f))"

definition inspect :: "('i, 'v, 'x) backend \<Rightarrow> access_context \<Rightarrow> string \<Rightarrow> ('v reply, 'i, 'x) daemon_action" where
  "inspect be context sandbox =
     with_sandbox be context sandbox (\<lambda>i x. case be_status be i x of (r, x') \<Rightarrow> (r, i, x'))"

definition stop :: "('i, 'v, 'x) backend \<Rightarrow> access_context \<Rightarrow> string \<Rightarrow> ('v reply, 'i, 'x) daemon_action" where
  "stop be context sandbox =
     act_then (act_lift (Done (key_of context sandbox))) (\<lambda>key.
     act_then (current_epoch key (context_assignment_epoch context)) (\<lambda>epoch.
     act_then (find_instance key) (\<lambda>i.
     act_then (current_epoch key (Some epoch)) (\<lambda>_.
     act_then (on_worker (begin_draining key)) (\<lambda>_.
     act_then (on_instance key i (be_stop be) id) (\<lambda>(stopped, i').
     act_match (act_lift (Done stopped)) (mark_failed be key epoch) (\<lambda>status.
     act_match (on_ledger be (\<lambda>json. ledger_mark json key epoch AsStopped)) (mark_failed be key epoch) (\<lambda>_.
     act_then (act_modify (remove_sandbox key)) (\<lambda>_.
     dropping be i' (
     act_match (complete_worker_cleanup be key) (quarantine_after_failure be key) (\<lambda>_.
     act_lift (Done (scoped_value be status key (is_operator context))))))))))))))"

text \<open>The fencing of a sandbox that is about to move, with its two ways back.\<close>

definition fence_source ::
  "('i, 'v, 'x) backend \<Rightarrow> sandbox_key \<Rightarrow> assignment_epoch \<Rightarrow> snapshot_id \<Rightarrow> 'i \<Rightarrow> (unit, 'i, 'x) daemon_action" where
  "fence_source be key epoch snapshot_id i =
     act_then (on_worker (begin_draining key)) (\<lambda>_.
     act_match (on_world (be_fence_ingress be i))
       (\<lambda>error. act_then (on_worker (cancel_draining key)) (\<lambda>_. act_fail error)) (\<lambda>_.
     act_match (on_ledger be (\<lambda>json. begin_fencing json key epoch snapshot_id))
       (\<lambda>error. act_then (on_world (be_activate_ingress be i)) (\<lambda>_.
          act_then (on_worker (cancel_draining key)) (\<lambda>_. act_fail error))) (\<lambda>_.
     act_return ())))"

text \<open>What follows a snapshot that failed.\<close>

definition snapshot_failed ::
  "('i, 'v, 'x) backend \<Rightarrow> sandbox_key \<Rightarrow> assignment_epoch \<Rightarrow> bool \<Rightarrow> 'i \<Rightarrow> sandbox_error \<Rightarrow> ('v reply, 'i, 'x) daemon_action" where
  "snapshot_failed be key epoch stop_and_move i error =
     (if stop_and_move \<and> be_is_executable be i
      then act_then (on_ledger be (\<lambda>json. ledger_mark json key epoch AsActive)) (\<lambda>_.
           act_then (on_world (be_activate_ingress be i)) (\<lambda>_.
           act_then (on_worker (cancel_draining key)) (\<lambda>_. act_fail error)))
      else if stop_and_move
      then act_then (act_modify (remove_sandbox key)) (\<lambda>_. dropping be i (mark_failed be key epoch error))
      else act_fail error)"

text \<open>What follows a snapshot of a sandbox that moves: the grant, the fence and the end of this worker.\<close>

definition conclude_transfer ::
  "('i, 'v, 'x) backend \<Rightarrow> sandbox_key \<Rightarrow> assignment_epoch \<Rightarrow> (assignment_epoch, sandbox_error) result exec \<Rightarrow>
     (unit, 'i, 'x) daemon_action" where
  "conclude_transfer be key epoch marked =
     act_then (act_modify (remove_sandbox key)) (\<lambda>_.
     act_match (act_lift marked) (mark_failed be key epoch) (\<lambda>_.
     act_match (complete_worker_cleanup be key) (quarantine_after_failure be key) (\<lambda>_.
     act_return ())))"

definition transfer_source ::
  "('i, 'v, 'x) backend \<Rightarrow> sandbox_key \<Rightarrow> assignment_epoch \<Rightarrow> snapshot_id \<Rightarrow> (unit, 'i, 'x) daemon_action" where
  "transfer_source be key epoch snapshot_id =
     act_match (on_world (\<lambda>x. case be_publish_transfer_grant be (key_scope key) snapshot_id x of
                    (r, x') \<Rightarrow> (map_err (\<lambda>e. Runtime (''publish snapshot transfer grant: '' @ e)) r, x')))
       (\<lambda>error. act_then (act_modify (remove_sandbox key)) (\<lambda>_. mark_failed be key epoch error)) (\<lambda>_.
     \<lambda>d. case on_ledger be (\<lambda>json. mark_transferable json key epoch snapshot_id) d of
       (marked, d') \<Rightarrow> conclude_transfer be key epoch marked d')"

definition snapshot_reply ::
  "('i, 'v, 'x) backend \<Rightarrow> sandbox_key \<Rightarrow> snapshot_mode \<Rightarrow> 'v \<Rightarrow> nat \<Rightarrow> nat \<Rightarrow> ('v reply, 'i, 'x) daemon_action" where
  "snapshot_reply be key mode summary fence_millis grant_started =
     act_then (act_get (be_now be \<circ> ds_world)) (\<lambda>now.
     act_lift (Done (and_then (map_err (\<lambda>e. Runtime (''encode snapshot result: '' @ e)) (be_to_value be summary)) (\<lambda>encoded.
       Ok (Snapshotted (be_set_field be ''source_sandbox'' (key_sandbox_id key) encoded)
             (if mode = StopAndMove then Some (fence_millis, now - grant_started) else None))))))"

definition after_snapshot ::
  "('i, 'v, 'x) backend \<Rightarrow> sandbox_key \<Rightarrow> assignment_epoch \<Rightarrow> snapshot_id \<Rightarrow> snapshot_mode \<Rightarrow> nat \<Rightarrow>
     ('v, sandbox_error) result \<Rightarrow> 'i \<Rightarrow> ('v reply, 'i, 'x) daemon_action" where
  "after_snapshot be key epoch snapshot_id mode fence_millis result i =
     act_match (act_lift (Done result)) (snapshot_failed be key epoch (mode = StopAndMove) i) (\<lambda>summary.
     act_then (act_get (be_now be \<circ> ds_world)) (\<lambda>grant_started.
     if mode = StopAndMove
     then dropping be i (
       act_then (transfer_source be key epoch snapshot_id) (\<lambda>_.
       snapshot_reply be key mode summary fence_millis grant_started))
     else snapshot_reply be key mode summary fence_millis grant_started))"

definition take_snapshot ::
  "('i, 'v, 'x) backend \<Rightarrow> sandbox_key \<Rightarrow> assignment_epoch \<Rightarrow> snapshot_id \<Rightarrow> snapshot_mode \<Rightarrow> 'i \<Rightarrow> nat \<Rightarrow>
     ('v reply, 'i, 'x) daemon_action" where
  "take_snapshot be key epoch snapshot_id mode i fence_started =
     act_then (act_get (\<lambda>d. (be_now be (ds_world d) - fence_started, ds_worker_id d))) (\<lambda>(fence_millis, worker).
     act_then (on_instance key i (be_snapshot be snapshot_id mode key worker epoch) id) (\<lambda>(result, i').
     after_snapshot be key epoch snapshot_id mode fence_millis result i'))"

definition snapshot_handler ::
  "('i, 'v, 'x) backend \<Rightarrow> access_context \<Rightarrow> string \<Rightarrow> string \<Rightarrow> snapshot_mode \<Rightarrow> ('v reply, 'i, 'x) daemon_action" where
  "snapshot_handler be context sandbox snapshot mode =
     act_then (act_lift (Done (map_err (\<lambda>e. Runtime (core_error_display e)) (parse_snapshot_id snapshot)))) (\<lambda>snapshot_id.
     act_then (act_lift (Done (key_of context sandbox))) (\<lambda>key.
     act_then (current_epoch key (context_assignment_epoch context)) (\<lambda>epoch.
     act_then (find_instance key) (\<lambda>i.
     act_then (current_epoch key (Some epoch)) (\<lambda>_.
     act_then (act_get (be_now be \<circ> ds_world)) (\<lambda>fence_started.
     if mode = StopAndMove
     then act_then (fence_source be key epoch snapshot_id i) (\<lambda>_.
          take_snapshot be key epoch snapshot_id mode i fence_started)
     else take_snapshot be key epoch snapshot_id mode i fence_started))))))"

subsection \<open>Operations on the daemon\<close>

definition readiness :: "('i, 'v, 'x) backend \<Rightarrow> access_context \<Rightarrow> ('v reply, 'i, 'x) daemon_action" where
  "readiness be context d =
     (if \<not> is_operator context
      then (Done (Err (Runtime ''worker readiness is restricted to the operator endpoint'')), d)
      else let status = slot_status (be_now be (ds_world d)) (ds_worker d)
           in if \<not> wst_ready status
              then (Done (Err (Runtime (''worker is not ready: state is '' @ worker_state_debug (wst_state status)))), d)
              else (Done (Ok (Readiness status)), d))"

definition admit :: "('i, 'v, 'x) backend \<Rightarrow> topology_lock \<Rightarrow> ('v reply, 'i, 'x) daemon_action" where
  "admit be topology =
     act_then (admit_topology be topology) (\<lambda>images.
       act_return (Admitted (map (\<lambda>img. (li_image_id (ir_image img), li_exact_reference (ir_image img),
          ir_rootfs_digest img, ir_rootfs_entries img, ir_rootfs_bytes img)) (bt_values images))))"

text \<open>The statuses of the sandboxes that \<open>filter_map\<close> keeps: those whose status can be read and encoded.\<close>

fun collect_statuses ::
  "('i, 'v, 'x) backend \<Rightarrow> (sandbox_key \<Rightarrow> 'v \<Rightarrow> 'v option) \<Rightarrow> (sandbox_key \<times> 'i) list \<Rightarrow> 'x \<Rightarrow> 'v list \<times> 'x" where
  "collect_statuses be present [] x = ([], x)"
| "collect_statuses be present ((key, i) # rest) x =
     (case be_status be i x of
        (r, x1) \<Rightarrow>
          (case collect_statuses be present rest x1 of
             (vs, x2) \<Rightarrow>
               (case and_then (map_err (\<lambda>_. ()) r) (\<lambda>v. map_err (\<lambda>_. ()) (be_to_value be v)) of
                  Inl _ \<Rightarrow> (vs, x2)
                | Inr v \<Rightarrow> (case present key v of None \<Rightarrow> (vs, x2) | Some v' \<Rightarrow> (v' # vs, x2)))))"

definition operator_view :: "('i, 'v, 'x) backend \<Rightarrow> sandbox_key \<Rightarrow> 'v \<Rightarrow> 'v option" where
  "operator_view be key v =
     (case be_project be v of
        None \<Rightarrow> None
      | Some project \<Rightarrow>
          Some (be_set_field be ''workspace_id'' (scope_workspace_id (key_scope key))
            (be_set_field be ''tenant_id'' (scope_tenant_id (key_scope key))
              (be_set_field be ''project'' (key_sandbox_id key)
                (be_set_field be ''runtime_project'' project v)))))"

definition collect_operator :: "('i, 'v, 'x) backend \<Rightarrow> ('v reply, 'i, 'x) daemon_action" where
  "collect_operator be d =
     (case collect_statuses be (operator_view be) (ds_sandboxes d) (ds_world d) of
        (vs, x) \<Rightarrow>
          (Done (Ok (OperatorStats (slot_status (be_now be (ds_world d)) (ds_worker d)) (ds_counters d) (card (ds_active d))
             (map (\<lambda>img. (li_image_id (ir_image img), li_exact_reference (ir_image img), ir_rootfs_digest img))
                (bt_values (ds_cache d))) vs)), d\<lparr>ds_world := x\<rparr>))"

definition collect_tenant ::
  "('i, 'v, 'x) backend \<Rightarrow> access_context \<Rightarrow> ('v reply, 'i, 'x) daemon_action" where
  "collect_tenant be context d =
     (case collect_statuses be (\<lambda>key v. Some (be_set_field be ''project'' (key_sandbox_id key) v))
             (filter (\<lambda>(key, _). key_scope key = context_scope context) (ds_sandboxes d)) (ds_world d) of
        (vs, x) \<Rightarrow>
          (Done (Ok (TenantStats (bt_get (ds_tenant_counters d) (context_scope context)) vs)), d\<lparr>ds_world := x\<rparr>))"

definition collect :: "('i, 'v, 'x) backend \<Rightarrow> access_context \<Rightarrow> ('v reply, 'i, 'x) daemon_action" where
  "collect be context = (if is_operator context then collect_operator be else collect_tenant be context)"

definition encode_reply :: "('i, 'v, 'x) backend \<Rightarrow> string \<Rightarrow> 'v \<Rightarrow> ('v reply, sandbox_error) result" where
  "encode_reply be message v = and_then (map_err (\<lambda>e. Runtime (message @ e)) (be_to_value be v)) (\<lambda>encoded. Ok (Value encoded))"

definition publish_artifact ::
  "('i, 'v, 'x) backend \<Rightarrow> access_context \<Rightarrow> string \<Rightarrow> string \<Rightarrow> ('v reply, 'i, 'x) daemon_action" where
  "publish_artifact be context source digest =
     (if \<not> is_operator context
      then act_fail (Runtime ''artifact publication is restricted to the operator endpoint'')
      else act_then (on_world (\<lambda>x. case be_publish_artifact be source digest x of
                       (r, x') \<Rightarrow> (map_err (\<lambda>e. Runtime (''publish artifact volume: '' @ e)) r, x'))) (\<lambda>publication.
           act_lift (Done (encode_reply be ''encode artifact publication: '' publication))))"

definition garbage_collect_artifacts ::
  "('i, 'v, 'x) backend \<Rightarrow> access_context \<Rightarrow> u64 \<Rightarrow> ('v reply, 'i, 'x) daemon_action" where
  "garbage_collect_artifacts be context minimum_age_seconds =
     (if \<not> is_operator context
      then act_fail (Runtime ''artifact garbage collection is restricted to the operator endpoint'')
      else if minimum_age_seconds > 31536000
      then act_fail (Runtime ''artifact garbage-collection grace cannot exceed one year'')
      else act_then (on_world (\<lambda>x. case be_garbage_collect_artifacts be minimum_age_seconds x of
                       (r, x') \<Rightarrow> (map_err (\<lambda>e. Runtime (''garbage collect artifact volumes: '' @ e)) r, x'))) (\<lambda>report.
           act_lift (Done (encode_reply be ''encode artifact garbage-collection report: '' report))))"

definition shutdown :: "access_context \<Rightarrow> ('v reply, 'i, 'x) daemon_action" where
  "shutdown context d =
     (if \<not> is_operator context
      then (Done (Err (Runtime ''shutdown is restricted to the operator endpoint'')), d)
      else if ds_active d \<noteq> {} \<or> ds_sandboxes d \<noteq> []
      then (Done (Err (Runtime ''refusing graceful shutdown with active sandboxes'')), d)
      else (Done (Ok ShuttingDown), d\<lparr>ds_shutdown := True\<rparr>))"

fun dispatch ::
  "('i, 'v, 'x) backend \<Rightarrow> operation \<Rightarrow> access_context \<Rightarrow> ('v reply, 'i, 'x) daemon_action" where
  "dispatch be OpPing context = act_get (\<lambda>d. Capabilities (slot_status (be_now be (ds_world d)) (ds_worker d)))"
| "dispatch be OpReady context = readiness be context"
| "dispatch be OpStats context = collect be context"
| "dispatch be (OpAdmit topology) context = admit be topology"
| "dispatch be (OpRun topology project wait_for timeout_ms) context =
     daemon_run be context topology project wait_for timeout_ms"
| "dispatch be (OpCreate topology sandbox timeout_ms) context = create be context topology sandbox timeout_ms"
| "dispatch be (OpRestore topology sandbox snapshot timeout_ms fenced_source_epoch) context =
     restore be context topology sandbox snapshot timeout_ms fenced_source_epoch"
| "dispatch be (OpInspect sandbox) context = inspect be context sandbox"
| "dispatch be (OpPause sandbox) context = with_sandbox be context sandbox (be_pause be)"
| "dispatch be (OpResume sandbox) context = with_sandbox be context sandbox (be_resume be)"
| "dispatch be (OpStop sandbox) context = stop be context sandbox"
| "dispatch be (OpLogs sandbox container) context = with_sandbox be context sandbox (be_completed_output be container)"
| "dispatch be (OpSnapshot sandbox snapshot mode) context = snapshot_handler be context sandbox snapshot mode"
| "dispatch be (OpPublishArtifact source digest) context = publish_artifact be context source digest"
| "dispatch be (OpGarbageCollectArtifacts minimum_age_seconds) context =
     garbage_collect_artifacts be context minimum_age_seconds"
| "dispatch be OpShutdown context = shutdown context"

definition count_request :: "access_context \<Rightarrow> ('i, 'x) daemon_state \<Rightarrow> ('i, 'x) daemon_state" where
  "count_request context d =
     (let d1 = bump (\<lambda>c. c\<lparr>ct_requests := ct_requests c + 1\<rparr>) d
      in if is_operator context then d1
         else bump_tenant (context_scope context) (\<lambda>c. c\<lparr>tc_requests := tc_requests c + 1\<rparr>) d1)"

definition handle ::
  "('i, 'v, 'x) backend \<Rightarrow> operation \<Rightarrow> access_context \<Rightarrow> ('v reply, 'i, 'x) daemon_action" where
  "handle be op context = act_then (act_modify (count_request context)) (\<lambda>_. dispatch be op context)"

end
