(* ===== verification/Daemon_Correct.thy ===== *)
theory Daemon_Correct
  imports Daemon Assignment_Ledger_Correct
begin

text \<open>
  Properties of the handlers of \<open>Daemon\<close>. A relation between the states before and after that
  every elementary step keeps is kept by every handler: \<open>handler_relation\<close> states that once,
  for the steps a handler may take in a given access context, and the interpretations give
  tenant isolation and the ownership of the worker.
\<close>

text \<open>The ledger operations a handler uses, all on the key it was asked about.\<close>

datatype ledger_call =
    CallBegin "assignment_epoch option"
  | CallRestore "assignment_epoch option" snapshot_id
  | CallFence assignment_epoch snapshot_id
  | CallTransfer assignment_epoch snapshot_id
  | CallMark assignment_epoch assignment_state

fun make_call ::
  "sandbox_key \<Rightarrow> ledger_call \<Rightarrow> assignment_to_json \<Rightarrow> assignment_ledger \<Rightarrow>
     (operation_outcome, sandbox_error) result \<times> assignment_ledger" where
  "make_call key (CallBegin e) json = ledger_begin json key e"
| "make_call key (CallRestore e s) json = begin_restore json key e s"
| "make_call key (CallFence e s) json = begin_fencing json key e s"
| "make_call key (CallTransfer e s) json = mark_transferable json key e s"
| "make_call key (CallMark e st) json = ledger_mark json key e st"

lemma act_keeps_lift:
  assumes "\<And>e. act_keeps R (h e)" and "\<And>x. r = Done (Ok x) \<Longrightarrow> act_keeps R (f x)" and "reflp R"
  shows "act_keeps R (act_match (act_lift r) h f)"
  unfolding act_keeps_def
proof
  fix s
  show "R s (snd (act_match (act_lift r) h f s))"
  proof (cases r)
    case Panic
    with assms(3) show ?thesis by (simp add: act_match_def act_lift_def reflp_def)
  next
    case (Done q)
    with assms(1,2) show ?thesis by (cases q) (simp_all add: act_match_def act_lift_def act_keeps_def)
  qed
qed

lemma running_taken: "mark_running key w = (Ok (), w') \<Longrightarrow> taken key w'"
  by (cases rule: set_state_cases [of WorkerRunning "ws_slot w"])
    (auto simp: mark_running_def slot_transition_def require_assignment_def taken_def split: if_splits)

lemma draining_taken: "begin_draining key w = (Ok (), w') \<Longrightarrow> taken key w'"
  by (cases rule: set_state_cases [of Draining "ws_slot w"])
    (auto simp: begin_draining_def slot_transition_def require_assignment_def taken_def split: if_splits)

locale handler_relation =
  fixes be :: "('i, 'v, 'x) backend" and scope :: tenant_scope
    and R :: "('i, 'x) daemon_state \<Rightarrow> ('i, 'x) daemon_state \<Rightarrow> bool"
  assumes reflR: "reflp R" and transR: "transp R"
    and world: "R d (d\<lparr>ds_world := x\<rparr>)"
    and counting: "R d (d\<lparr>ds_counters := c\<rparr>)"
    and caching: "R d (d\<lparr>ds_cache := cache\<rparr>)"
    and tenant: "R d (bump_tenant scope g d)"
    and closing: "R d (d\<lparr>ds_shutdown := True\<rparr>)"
    and worker: "R d (d\<lparr>ds_worker := slot_apply (ds_worker d) ev\<rparr>)"
    and ledger: "key_scope key = scope \<Longrightarrow>
      R d (d\<lparr>ds_assignments := snd (settle wait (make_call key call (be_ledger_json be) (ds_assignments d)))\<rparr>)"
    and entering: "key_scope key = scope \<Longrightarrow> R d (d\<lparr>ds_active := insert key (ds_active d)\<rparr>)"
    and leaving: "key_scope key = scope \<Longrightarrow> R d (release key d)"
    and inserting: "key_scope key = scope \<Longrightarrow> taken key (ds_worker d) \<or> bt_contains (ds_sandboxes d) key \<Longrightarrow>
      R d (insert_sandbox key i d)"
    and removing: "key_scope key = scope \<Longrightarrow> R d (remove_sandbox key d)"
begin

lemma refl_R [simp]: "R d d"
  using reflR by (simp add: reflp_def)

lemma trans_R: "R a b \<Longrightarrow> R b c \<Longrightarrow> R a c"
  using transR by (rule transpE)

lemmas pure [simp, intro] = act_keeps_pure [OF reflR]
lemmas matching [intro] = act_keeps_match [OF transR]
lemmas lifting [intro] = act_keeps_lift [OF _ _ reflR]

lemma choosing: "(b \<Longrightarrow> act_keeps R m) \<Longrightarrow> (\<not> b \<Longrightarrow> act_keeps R n) \<Longrightarrow> act_keeps R (if b then m else n)"
  by simp

lemma modifying: "(\<And>d. R d (g d)) \<Longrightarrow> act_keeps R (act_modify g)"
  by (simp add: act_keeps_def act_modify_def)

lemma on_world_keeps [simp, intro]: "act_keeps R (on_world f)"
  by (simp add: act_keeps_def on_world_def act_on_def world split: prod.splits)

lemma on_worker_keeps: "(\<And>w. f w = slot_call ev w) \<Longrightarrow> act_keeps R (on_worker f)"
  using worker [of _ ev] by (simp add: act_keeps_def on_worker_def act_on_def slot_apply_def split: prod.splits) (metis snd_conv)

lemma slot_keeps [simp, intro]:
  "act_keeps R (on_worker (mark_running key))" "act_keeps R (on_worker (begin_draining key))"
  "act_keeps R (on_worker (begin_cleaning key))" "act_keeps R (on_worker (cancel_draining key))"
  "act_keeps R (lease be key)"
proof -
  show "act_keeps R (on_worker (mark_running key))" by (rule on_worker_keeps [of _ "SRun key"]) simp
  show "act_keeps R (on_worker (begin_draining key))" by (rule on_worker_keeps [of _ "SDrain key"]) simp
  show "act_keeps R (on_worker (begin_cleaning key))" by (rule on_worker_keeps [of _ "SClean key"]) simp
  show "act_keeps R (on_worker (cancel_draining key))" by (rule on_worker_keeps [of _ "SCancel key"]) simp
  have "act_keeps R (on_worker (slot_lease now key))" for now by (rule on_worker_keeps [of _ "SLease now key"]) simp
  then show "act_keeps R (lease be key)" by (simp add: act_keeps_def lease_def)
qed

lemma on_ledger_keeps:
  assumes "key_scope key = scope" and "\<And>json. f json = make_call key call json"
  shows "act_keeps R (on_ledger be f)"
  using ledger [OF assms(1), of _ _ call] by (simp add: act_keeps_def on_ledger_def act_on_def assms(2) split: prod.splits) (metis snd_conv)

lemma ledger_keeps [simp, intro]:
  assumes "key_scope key = scope"
  shows "act_keeps R (on_ledger be (\<lambda>json. ledger_begin json key e))"
    "act_keeps R (on_ledger be (\<lambda>json. begin_restore json key e s))"
    "act_keeps R (on_ledger be (\<lambda>json. begin_fencing json key ep s))"
    "act_keeps R (on_ledger be (\<lambda>json. mark_transferable json key ep s))"
    "act_keeps R (on_ledger be (\<lambda>json. ledger_mark json key ep st))"
proof -
  note k = on_ledger_keeps [OF assms]
  show "act_keeps R (on_ledger be (\<lambda>json. ledger_begin json key e))" by (rule k [where call = "CallBegin e"]) simp
  show "act_keeps R (on_ledger be (\<lambda>json. begin_restore json key e s))" by (rule k [where call = "CallRestore e s"]) simp
  show "act_keeps R (on_ledger be (\<lambda>json. begin_fencing json key ep s))" by (rule k [where call = "CallFence ep s"]) simp
  show "act_keeps R (on_ledger be (\<lambda>json. mark_transferable json key ep s))" by (rule k [where call = "CallTransfer ep s"]) simp
  show "act_keeps R (on_ledger be (\<lambda>json. ledger_mark json key ep st))" by (rule k [where call = "CallMark ep st"]) simp
qed

lemma quarantine_keeps [simp, intro]: "act_keeps R (quarantine_after_failure be key e)"
  unfolding act_keeps_def
proof
  fix d :: "('i, 'x) daemon_state"
  let ?ev = "SQuarantine (be_marker_faults be (ds_world d)) (be_process_id be) (Some key) ''sandbox-operation-failed''"
  have "R d ((d\<lparr>ds_worker := slot_apply (ds_worker d) ?ev\<rparr>)\<lparr>ds_shutdown := True\<rparr>)"
    by (rule trans_R [OF worker closing])
  then show "R d (snd (quarantine_after_failure be key e d))"
    by (simp add: quarantine_after_failure_def slot_apply_def split: prod.splits) (metis snd_conv)
qed

lemma mark_failed_keeps [simp, intro]: "key_scope key = scope \<Longrightarrow> act_keeps R (mark_failed be key epoch e)"
  unfolding mark_failed_def by (intro matching) simp_all

lemma cleanup_keeps [simp, intro]: "act_keeps R (complete_worker_cleanup be key)"
proof -
  have "act_keeps R (on_worker (recycle_clean f pid key))" for f pid
    by (rule on_worker_keeps [of _ "SRecycle f pid key"]) simp
  then have "act_keeps R (\<lambda>d. on_worker (recycle_clean (be_marker_faults be (ds_world d)) (be_process_id be) key) d)"
    by (simp add: act_keeps_def)
  then show ?thesis unfolding complete_worker_cleanup_def by (intro matching modifying closing) simp_all
qed

lemma admit_image_keeps: "act_keeps R (admit_image be service)"
  unfolding act_keeps_def
proof
  fix d :: "('i, 'x) daemon_state"
  have "R d (bump f (d\<lparr>ds_world := x, ds_cache := c\<rparr>))" for f x c
    unfolding bump_def by (rule trans_R [OF trans_R [OF world caching] counting])
  moreover have "R d (bump f d)" for f unfolding bump_def by (rule counting)
  ultimately show "R d (snd (admit_image be service d))"
    by (auto simp: admit_image_def Let_def world split: option.splits prod.splits sum.splits)
qed

lemma admit_images_keeps: "act_keeps R (admit_images be services images)"
  by (induction services arbitrary: images) (auto intro!: admit_image_keeps)

lemma admit_topology_keeps [simp, intro]: "act_keeps R (admit_topology be t)"
  unfolding admit_topology_def
  by (intro matching lifting pure)
    (auto split: prod.splits intro!: matching lifting choosing admit_images_keeps)

lemma record_run_keeps [simp]: "context_scope context = scope \<Longrightarrow> R d (record_run context b d)"
  using trans_R [OF counting tenant] counting by (simp add: record_run_def bump_def Let_def)

lemma count_request_keeps [simp]: "context_scope context = scope \<Longrightarrow> R d (count_request context d)"
  using trans_R [OF counting tenant] counting by (simp add: count_request_def bump_def Let_def)

lemma drop_keeps [simp]: "R d (drop_instance be i d)"
  by (simp add: drop_instance_def world)

lemma dropping_keeps [intro]: "act_keeps R m \<Longrightarrow> act_keeps R (dropping be i m)"
  by (auto simp: act_keeps_def dropping_def split: prod.splits) (metis drop_keeps snd_conv trans_R)

lemma finish_keeps [simp, intro]: "key_scope key = scope \<Longrightarrow> act_keeps R (finish_terminal_assignment be key epoch)"
  unfolding finish_terminal_assignment_def by (intro matching) simp_all

lemma with_reservation_keeps [intro]:
  assumes "key_scope key = scope" and "act_keeps R m"
  shows "act_keeps R (with_reservation key m)"
  unfolding act_keeps_def
proof
  fix d :: "('i, 'x) daemon_state"
  let ?d = "d\<lparr>ds_active := insert key (ds_active d)\<rparr>"
  have "R d (release key (snd (m ?d)))"
    using trans_R [OF trans_R [OF entering [OF assms(1)]] leaving [OF assms(1)]] assms(2) by (simp add: act_keeps_def)
  then show "R d (snd (with_reservation key m d))"
    by (auto simp: with_reservation_def acquire_def split: prod.splits)
qed

lemma key_of_scope: "key_of context sandbox = Ok key \<Longrightarrow> key_scope key = context_scope context"
  by (auto simp: key_of_def context_sandbox_key_def)

lemma current_epoch_keeps [simp, intro]: "act_keeps R (current_epoch key e)"
  and find_instance_keeps [simp, intro]: "act_keeps R (find_instance key)"
  and refuse_existing_keeps [simp, intro]: "act_keeps R (refuse_existing key sandbox)"
  by (simp_all add: act_keeps_def current_epoch_def find_instance_def refuse_existing_def)

text \<open>An instance is entered in the map after its worker was marked running.\<close>

lemma running_insert_keeps:
  assumes "key_scope key = scope" and "\<And>e. act_keeps R (h e)" and "act_keeps R m"
  shows "act_keeps R (act_match (on_worker (mark_running key)) h
    (\<lambda>_. act_then (act_modify (insert_sandbox key i)) (\<lambda>_. m)))"
  unfolding act_keeps_def
proof
  fix d :: "('i, 'x) daemon_state"
  let ?a = "act_match (on_worker (mark_running key)) h (\<lambda>_. act_then (act_modify (insert_sandbox key i)) (\<lambda>_. m))"
  obtain r t where rt: "?a d = (r, t)" by fastforce
  then show "R d (snd (?a d))"
  proof (cases rule: act_match_cases)
    case panic
    then show ?thesis by (auto simp: on_worker_def act_on_def split: prod.splits)
  next
    case (err e u)
    with rt assms(2) slot_keeps(1) show ?thesis by (metis act_keepsD snd_conv trans_R)
  next
    case (ok x u)
    have run: "mark_running key (ds_worker d) = (Ok (), ds_worker u)" and u: "R d u"
      using ok(1) act_keepsD [OF slot_keeps(1) ok(1)] by (auto simp: on_worker_def act_on_def split: prod.splits)
    have "taken key (ds_worker u)" by (rule running_taken [OF run])
    then have "R u (insert_sandbox key i u)" by (intro inserting assms(1)) simp
    moreover have "R (insert_sandbox key i u) t"
      using ok(2) assms(3) by (simp add: act_modify_def act_match_def act_keepsD)
    ultimately show ?thesis using rt u by (metis snd_conv trans_R)
  qed
qed

lemma activate_keeps [intro]:
  "key_scope key = scope \<Longrightarrow> context_scope context = scope \<Longrightarrow> act_keeps R (activate_instance be context key epoch i)"
  unfolding activate_instance_def Let_def
  by (intro matching dropping_keeps modifying running_insert_keeps) simp_all

text \<open>Handlers that work on an instance: the key is in the map, or its worker is taken.\<close>

definition from_present :: "sandbox_key \<Rightarrow> ('a, 'i, 'x) daemon_action \<Rightarrow> bool" where
  "from_present key m \<longleftrightarrow> (\<forall>d. taken key (ds_worker d) \<or> bt_contains (ds_sandboxes d) key \<longrightarrow> R d (snd (m d)))"

lemma from_presentI [intro]: "act_keeps R m \<Longrightarrow> from_present key m"
  by (simp add: from_present_def act_keeps_def)

lemma present_match:
  assumes "act_keeps R m" and "\<And>e. act_keeps R (h e)" and "\<And>x. from_present key (f x)"
    and "\<And>d x t. m d = (Done (Ok x), t) \<Longrightarrow> taken key (ds_worker t) \<or> bt_contains (ds_sandboxes t) key"
  shows "act_keeps R (act_match m h f)"
  unfolding act_keeps_def
proof
  fix d
  obtain r t where rt: "act_match m h f d = (r, t)" by fastforce
  then show "R d (snd (act_match m h f d))"
  proof (cases rule: act_match_cases)
    case panic
    with rt assms(1) show ?thesis by (simp add: act_keepsD)
  next
    case (err e u)
    with rt assms(1,2) show ?thesis by (metis act_keepsD snd_conv trans_R)
  next
    case (ok x u)
    then have "R u t" using assms(3) [of x] assms(4) unfolding from_present_def by (metis snd_conv)
    with rt ok(1) assms(1) show ?thesis by (metis act_keepsD snd_conv trans_R)
  qed
qed

lemma present_pure:
  assumes "\<And>x. from_present key (f x)" and "\<And>d. snd (m d) = d" and "\<And>e. act_keeps R (h e)"
  shows "from_present key (act_match m h f)"
  unfolding from_present_def
proof (intro allI impI)
  fix d :: "('i, 'x) daemon_state"
  assume p: "taken key (ds_worker d) \<or> bt_contains (ds_sandboxes d) key"
  obtain r t where rt: "act_match m h f d = (r, t)" by fastforce
  then show "R d (snd (act_match m h f d))"
  proof (cases rule: act_match_cases)
    case panic
    with rt assms(2) [of d] show ?thesis by simp
  next
    case (err e u)
    with rt assms(2) [of d] assms(3) show ?thesis by (metis act_keepsD snd_conv)
  next
    case (ok x u)
    with rt assms(2) [of d] assms(1) [of x] p show ?thesis unfolding from_present_def by (metis snd_conv)
  qed
qed

lemma on_instance_present:
  assumes "key_scope key = scope" and "\<And>x. act_keeps R (k x)"
  shows "from_present key (act_then (on_instance key i f g) k)"
  unfolding from_present_def
proof (intro allI impI)
  fix d :: "('i, 'x) daemon_state"
  assume p: "taken key (ds_worker d) \<or> bt_contains (ds_sandboxes d) key"
  obtain r i' x where f: "f i (ds_world d) = (r, i', x)" by (metis prod_cases3)
  have "R d (insert_sandbox key i' (d\<lparr>ds_world := x\<rparr>))"
    by (rule trans_R [OF world inserting [OF assms(1)]]) (use p in simp)
  with assms(2) show "R d (snd (act_then (on_instance key i f g) k d))"
    by (simp add: on_instance_def act_match_def f act_keeps_def) (metis trans_R)
qed

lemma pure_steps [simp]:
  "snd (act_get g d) = d" "snd (act_lift r d) = d" "snd (act_return x d) = d" "snd (current_epoch key e d) = d"
  "snd (find_instance key d) = d"
  by (simp_all add: act_simps current_epoch_def find_instance_def)

lemma found_keeps:
  assumes "\<And>i. from_present key (f i)"
  shows "act_keeps R (act_then (find_instance key) f)"
  by (rule present_match [OF find_instance_keeps pure(1) assms]) (auto simp: find_instance_def bt_contains_def)

lemma drained_keeps:
  assumes "\<And>u. from_present key (f u)"
  shows "act_keeps R (act_then (on_worker (begin_draining key)) f)"
  by (rule present_match [OF slot_keeps(2) pure(1) assms])
    (auto simp: on_worker_def act_on_def split: prod.splits dest: draining_taken)

lemma with_sandbox_keeps [intro]:
  assumes "context_scope context = scope"
  shows "act_keeps R (with_sandbox be context sandbox f)"
  unfolding with_sandbox_def with_key_def
  by (intro lifting found_keeps matching [OF current_epoch_keeps] present_pure on_instance_present)
    (use assms in \<open>auto dest!: key_of_scope split: prod.splits intro!: lifting\<close>)

lemma stop_keeps:
  assumes "context_scope context = scope"
  shows "act_keeps R (stop be context sandbox)"
proof -
  have tail: "act_keeps R (act_match (act_lift (Done stopped)) (mark_failed be key epoch) (\<lambda>status.
      act_match (on_ledger be (\<lambda>json. ledger_mark json key epoch AsStopped)) (mark_failed be key epoch) (\<lambda>_.
      act_then (act_modify (remove_sandbox key)) (\<lambda>_.
      dropping be i (
      act_match (complete_worker_cleanup be key) (quarantine_after_failure be key) (\<lambda>_.
      act_lift (Done (scoped_value be status key operator))))))))" if "key_scope key = scope" for key epoch stopped i operator
    using that by (intro lifting matching dropping_keeps modifying removing) simp_all
  show ?thesis
    unfolding stop_def
    by (intro lifting matching [OF current_epoch_keeps] matching [OF find_instance_keeps] drained_keeps on_instance_present)
      (use assms in \<open>auto dest!: key_of_scope split: prod.splits intro!: tail\<close>)
qed

lemma fence_source_keeps: "key_scope key = scope \<Longrightarrow> act_keeps R (fence_source be key epoch s i)"
  unfolding fence_source_def by (intro matching) simp_all

lemma fence_source_taken:
  assumes "fence_source be key epoch s i d = (Done (Ok u), t)"
  shows "taken key (ds_worker t)"
proof -
  from assms obtain d1 where 1: "on_worker (begin_draining key) d = (Done (Ok ()), d1)"
    and 2: "act_match (on_world (be_fence_ingress be i))
       (\<lambda>error. act_then (on_worker (cancel_draining key)) (\<lambda>_. act_fail error)) (\<lambda>_.
     act_match (on_ledger be (\<lambda>json. begin_fencing json key epoch s))
       (\<lambda>error. act_then (on_world (be_activate_ingress be i)) (\<lambda>_.
          act_then (on_worker (cancel_draining key)) (\<lambda>_. act_fail error))) (\<lambda>_.
     act_return ())) d1 = (Done (Ok u), t)"
    unfolding fence_source_def by (auto elim!: act_match_cases simp: act_fail_def)
  have "taken key (ds_worker d1)"
    using 1 by (auto simp: on_worker_def act_on_def split: prod.splits dest: draining_taken)
  moreover have "ds_worker t = ds_worker d1"
    using 2 by (auto elim!: act_match_cases simp: act_fail_def act_return_def on_world_def on_ledger_def act_on_def
        split: prod.splits)
  ultimately show ?thesis by simp
qed

lemma transfer_source_keeps:
  assumes "key_scope key = scope"
  shows "act_keeps R (transfer_source be key epoch s)"
proof -
  have tail: "act_keeps R (conclude_transfer be key epoch marked)" for marked
    unfolding conclude_transfer_def using assms by (intro lifting matching modifying removing) simp_all
  have "act_keeps R (\<lambda>d. case on_ledger be (\<lambda>json. mark_transferable json key epoch s) d of
       (marked, d') \<Rightarrow> conclude_transfer be key epoch marked d')"
    unfolding act_keeps_def
  proof
    fix d :: "('i, 'x) daemon_state"
    obtain m d1 where 1: "on_ledger be (\<lambda>json. mark_transferable json key epoch s) d = (m, d1)" by fastforce
    have "R d d1" by (rule act_keepsD [OF ledger_keeps(4) [OF assms] 1])
    moreover have "R d1 (snd (conclude_transfer be key epoch m d1))" using tail [of m] by (simp add: act_keeps_def)
    ultimately show "R d (snd (case on_ledger be (\<lambda>json. mark_transferable json key epoch s) d of
       (marked, d') \<Rightarrow> conclude_transfer be key epoch marked d'))" unfolding 1 prod.case by (rule trans_R)
  qed
  then show ?thesis
    unfolding transfer_source_def using assms by (intro matching modifying removing) simp_all
qed

lemma snapshot_failed_keeps:
  "key_scope key = scope \<Longrightarrow> act_keeps R (snapshot_failed be key epoch moving i e)"
  unfolding snapshot_failed_def by (intro choosing matching modifying removing dropping_keeps) simp_all

lemma reply_keeps: "act_keeps R (snapshot_reply be key mode summary ms started)"
  unfolding snapshot_reply_def by (intro matching) simp_all

lemma after_snapshot_keeps:
  "key_scope key = scope \<Longrightarrow> act_keeps R (after_snapshot be key epoch s mode ms r i)"
  unfolding after_snapshot_def
  by (intro lifting matching choosing dropping_keeps snapshot_failed_keeps transfer_source_keeps reply_keeps) simp_all

lemma take_snapshot_present:
  assumes "key_scope key = scope"
  shows "from_present key (take_snapshot be key epoch s mode i started)"
  unfolding take_snapshot_def
proof (rule present_pure)
  show "from_present key (case x of (ms, worker) \<Rightarrow>
      act_then (on_instance key i (be_snapshot be s mode key worker epoch) id)
        (\<lambda>(result, i'). after_snapshot be key epoch s mode ms result i'))" for x
    using assms by (cases x) (auto intro!: on_instance_present after_snapshot_keeps split: prod.split)
qed simp_all

lemma snapshot_keeps:
  assumes "context_scope context = scope"
  shows "act_keeps R (snapshot_handler be context sandbox snapshot mode)"
proof -
  have fenced: "act_keeps R (act_then (fence_source be key epoch s i) (\<lambda>_. take_snapshot be key epoch s m i started))"
    if "key_scope key = scope" for key epoch s i started m
    by (rule present_match [OF fence_source_keeps [OF that] pure(1) take_snapshot_present [OF that]])
      (blast dest: fence_source_taken)
  have body: "from_present key (act_then (current_epoch key (Some epoch)) (\<lambda>_.
     act_then (act_get (be_now be \<circ> ds_world)) (\<lambda>started.
     if mode = StopAndMove
     then act_then (fence_source be key epoch s i) (\<lambda>_. take_snapshot be key epoch s mode i started)
     else take_snapshot be key epoch s mode i started)))" if "key_scope key = scope" for key epoch s i
    by (intro present_pure) (auto intro: fenced [OF that] take_snapshot_present [OF that])
  show ?thesis
    unfolding snapshot_handler_def
    by (intro lifting matching [OF current_epoch_keeps] found_keeps)
      (use assms body in \<open>auto dest!: key_of_scope\<close>)
qed

lemma run_keeps:
  assumes "context_scope context = scope"
  shows "act_keeps R (daemon_run be context t sandbox wait ms)"
  unfolding daemon_run_def
  by (intro lifting with_reservation_keeps matching modifying)
    (use assms in \<open>auto dest!: key_of_scope\<close>)

lemma create_keeps:
  assumes "context_scope context = scope"
  shows "act_keeps R (create be context t sandbox ms)"
  unfolding create_def
  by (intro lifting matching [OF refuse_existing_keeps] with_reservation_keeps matching activate_keeps)
    (use assms in \<open>auto dest!: key_of_scope\<close>)

lemma restore_keeps:
  assumes "context_scope context = scope"
  shows "act_keeps R (restore be context t sandbox s ms fenced)"
  unfolding restore_def
  by (intro lifting matching [OF refuse_existing_keeps] with_reservation_keeps matching activate_keeps)
    (use assms in \<open>auto dest!: key_of_scope\<close>)

lemma collect_keeps: "act_keeps R (collect be context)"
  by (auto simp: act_keeps_def collect_def collect_operator_def collect_tenant_def world split: prod.splits)

lemma dispatch_keeps:
  assumes "context_scope context = scope"
  shows "act_keeps R (dispatch be op context)"
proof (cases op)
  case OpReady
  then show ?thesis by (simp add: act_keeps_def readiness_def Let_def)
next
  case OpShutdown
  then show ?thesis by (simp add: act_keeps_def shutdown_def closing)
next
  case (OpAdmit t)
  then show ?thesis by (auto simp: admit_def intro!: matching)
next
  case (OpInspect sandbox)
  then show ?thesis using assms by (auto simp: inspect_def)
next
  case (OpPublishArtifact source digest)
  then show ?thesis by (auto simp: publish_artifact_def intro!: matching)
next
  case (OpGarbageCollectArtifacts n)
  then show ?thesis by (auto simp: garbage_collect_artifacts_def intro!: matching)
qed (use assms in \<open>auto intro: run_keeps create_keeps restore_keeps stop_keeps snapshot_keeps collect_keeps\<close>)

lemma handle_keeps:
  assumes "context_scope context = scope"
  shows "R d (snd (handle be op context d))"
proof -
  have "act_keeps R (handle be op context)"
    unfolding handle_def using assms by (intro matching modifying dispatch_keeps) simp_all
  then show ?thesis by (simp add: act_keeps_def)
qed

end

subsection \<open>Tenant isolation\<close>

definition ledger_keyed :: "assignment_ledger \<Rightarrow> bool" where
  "ledger_keyed l \<longleftrightarrow> bt_wf (al_entries l) \<and> (\<forall>k r. bt_get (al_entries l) k = Some r \<longrightarrow> ar_key r = k)"

definition maps_ok :: "('i, 'x) daemon_state \<Rightarrow> bool" where
  "maps_ok d \<longleftrightarrow> ledger_keyed (ds_assignments d) \<and> bt_wf (ds_sandboxes d) \<and> bt_wf (ds_tenant_counters d)"

text \<open>Nothing that belongs to another scope differs.\<close>

definition others_kept :: "tenant_scope \<Rightarrow> ('i, 'x) daemon_state \<Rightarrow> ('i, 'x) daemon_state \<Rightarrow> bool" where
  "others_kept scope d d' \<longleftrightarrow> (maps_ok d \<longrightarrow> maps_ok d' \<and>
     (\<forall>k. key_scope k \<noteq> scope \<longrightarrow>
        bt_get (al_entries (ds_assignments d')) k = bt_get (al_entries (ds_assignments d)) k \<and>
        bt_get (ds_sandboxes d') k = bt_get (ds_sandboxes d) k \<and> (k \<in> ds_active d' \<longleftrightarrow> k \<in> ds_active d)) \<and>
     (\<forall>s. s \<noteq> scope \<longrightarrow> bt_get (ds_tenant_counters d') s = bt_get (ds_tenant_counters d) s))"

text \<open>A ledger operation on \<open>key\<close>, its rollback included, touches the record of \<open>key\<close> only.\<close>

definition touches_only :: "sandbox_key \<Rightarrow> assignment_ledger \<Rightarrow> assignment_ledger \<Rightarrow> bool" where
  "touches_only key l l' \<longleftrightarrow> (ledger_keyed l \<longrightarrow> ledger_keyed l' \<and>
     (\<forall>k. k \<noteq> key \<longrightarrow> bt_get (al_entries l') k = bt_get (al_entries l) k))"

lemma touches_entries:
  assumes "al_entries l' = al_entries l \<or> (\<exists>r. al_entries l' = bt_insert key r (al_entries l) \<and> ar_key r = key)"
  shows "touches_only key l l'"
  using assms by (auto simp: touches_only_def ledger_keyed_def bt_simps split: if_splits)

lemma begin_touches:
  assumes "begin_operation json key e st sn l = (r, l')"
  shows "touches_only key l l' \<and>
    (\<forall>ep rec prev a c. r = Ok (ep, rec, prev, a, c) \<longrightarrow> ar_key rec = key \<and> prev = bt_get (al_entries l) key)"
proof
  have "al_entries l' = (case begin_epoch key e st sn (al_entries l) of Inl _ \<Rightarrow> al_entries l
      | Inr e \<Rightarrow> bt_insert key \<lparr>ar_schema_version = ASSIGNMENT_SCHEMA_VERSION, ar_key = key, ar_epoch = e,
          ar_state = st, ar_snapshot_id = sn\<rparr> (al_entries l))"
    using begin_operation_entries [of json key e st sn l] assms by simp
  then show "touches_only key l l'" by (intro touches_entries) (auto split: sum.splits)
  show "\<forall>ep rec prev a c. r = Ok (ep, rec, prev, a, c) \<longrightarrow> ar_key rec = key \<and> prev = bt_get (al_entries l) key"
    using assms by (auto simp: begin_operation_def Let_def split: sum.splits prod.splits)
qed

lemma transition_touches:
  assumes "ledger_transition json key ep st sn l = (r, l')" and "ledger_keyed l"
  shows "touches_only key l l' \<and>
    (\<forall>ep' rec prev a c. r = Ok (ep', rec, prev, a, c) \<longrightarrow> ar_key rec = key \<and> prev = bt_get (al_entries l) key)"
proof (cases "transition_record key ep st sn (al_entries l)")
  case (Inl e)
  with assms(1) show ?thesis by (auto simp: ledger_transition_def intro: touches_entries)
next
  case (Inr qp)
  obtain q p where qp: "qp = (q, p)" by fastforce
  note ok = transition_record_Ok [OF Inr [unfolded qp]]
  have k: "ar_key q = key" using ok assms(2) by (simp add: ledger_keyed_def)
  have "al_entries l' = bt_insert key q (al_entries l)"
    using ledger_transition_entries [of json key ep st sn l] assms(1) by (simp add: Inr qp)
  then have "touches_only key l l'" using k by (intro touches_entries) blast
  moreover have "ar_key rec = key \<and> prev = bt_get (al_entries l) key" if "r = Ok (ep', rec, prev, a, c)" for ep' rec prev a c
    using assms(1) that k conjunct1 [OF ok] by (auto simp: ledger_transition_def Inr qp split: sum.splits prod.splits)
  ultimately show ?thesis by blast
qed

lemma rollback_touches:
  assumes "ar_key rec = key" and "ledger_keyed l0" and "prev = bt_get (al_entries l0) key" and "touches_only key l0 l"
  shows "touches_only key l0 (rollback rec prev l)"
proof -
  have l: "bt_wf (al_entries l)" "\<And>k r. bt_get (al_entries l) k = Some r \<Longrightarrow> ar_key r = k"
    "\<And>k. k \<noteq> key \<Longrightarrow> bt_get (al_entries l) k = bt_get (al_entries l0) k"
    using assms(2,4) by (auto simp: touches_only_def ledger_keyed_def)
  have p: "ar_key r = key" if "prev = Some r" for r using that assms(2,3) by (simp add: ledger_keyed_def)
  show ?thesis
  proof (cases "bt_get (al_entries l) key = Some rec")
    case False
    then have "rollback rec prev l = l" using assms(1) by (simp add: rollback_def)
    with assms(4) show ?thesis by simp
  next
    case True
    show ?thesis
    proof (cases prev)
      case None
      with True have "al_entries (rollback rec prev l) = bt_remove key (al_entries l)" using assms(1) by (simp add: rollback_def)
      with l show ?thesis by (simp add: touches_only_def ledger_keyed_def bt_simps)
    next
      case (Some r)
      with True have "al_entries (rollback rec prev l) = bt_insert key r (al_entries l)" using assms(1) by (simp add: rollback_def)
      with l p [OF Some] show ?thesis by (simp add: touches_only_def ledger_keyed_def bt_simps)
    qed
  qed
qed

lemma make_call_touches:
  assumes "make_call key call json l = (r, l')" and "ledger_keyed l"
  shows "touches_only key l l' \<and>
    (\<forall>ep rec prev a c. r = Ok (ep, rec, prev, a, c) \<longrightarrow> ar_key rec = key \<and> prev = bt_get (al_entries l) key)"
proof (cases call)
  case (CallBegin e)
  with assms(1) show ?thesis by (intro begin_touches) (simp add: ledger_begin_def)
next
  case (CallRestore e s)
  with assms(1) show ?thesis by (intro begin_touches) (simp add: begin_restore_def)
next
  case (CallFence e s)
  with assms(1) show ?thesis by (intro transition_touches assms(2)) (simp add: begin_fencing_def)
next
  case (CallTransfer e s)
  with assms(1) show ?thesis by (intro transition_touches assms(2)) (simp add: mark_transferable_def)
next
  case (CallMark e st)
  with assms(1) show ?thesis by (intro transition_touches assms(2)) (simp add: ledger_mark_def)
qed

lemma settle_touches: "touches_only key l (snd (settle wait (make_call key call json l)))"
proof (cases "ledger_keyed l")
  case True
  obtain r l' where c: "make_call key call json l = (r, l')" by fastforce
  note t = make_call_touches [OF c True]
  show ?thesis
  proof (cases r)
    case (Inl e)
    with t c show ?thesis by (simp add: settle_def)
  next
    case (Inr out)
    obtain ep rec prev a q where o: "out = (ep, rec, prev, a, q)" by (metis prod_cases5)
    have p: "ar_key rec = key" "prev = bt_get (al_entries l) key" using t Inr o by simp_all
    have "touches_only key l (rollback rec prev l')"
      by (rule rollback_touches [OF p(1) True p(2) conjunct1 [OF t]])
    with t show ?thesis
      unfolding c Inr o by (auto simp: settle_def operation_end_def split: sum.splits option.splits)
  qed
qed (simp add: touches_only_def)

interpretation iso: handler_relation be scope "others_kept scope" for be :: "('i, 'v, 'x) backend" and scope
proof unfold_locales
  show "reflp (others_kept scope)" by (simp add: reflp_def others_kept_def)
  show "transp (others_kept scope)" by (auto simp: transp_def others_kept_def)
  show "others_kept scope d (d\<lparr>ds_assignments := snd (settle wait (make_call key call (be_ledger_json be) (ds_assignments d)))\<rparr>)"
    if "key_scope key = scope" for key d wait call
    using settle_touches [of key "ds_assignments d" wait call "be_ledger_json be"] that
    by (auto simp: others_kept_def maps_ok_def touches_only_def)
qed (auto simp: others_kept_def maps_ok_def bump_tenant_def release_def insert_sandbox_def remove_sandbox_def bt_simps)

text \<open>
  C14: tenants are isolated in everything the daemon keeps. Whatever a request asks for and
  however it ends, no assignment record, no running sandbox, no reservation and no counter of
  another tenant scope changes.
\<close>
theorem tenants_are_isolated:
  assumes "maps_ok d" and "handle be op context d = (r, d')"
  shows "maps_ok d' \<and> (\<forall>k. key_scope k \<noteq> context_scope context \<longrightarrow>
      bt_get (al_entries (ds_assignments d')) k = bt_get (al_entries (ds_assignments d)) k \<and>
      bt_get (ds_sandboxes d') k = bt_get (ds_sandboxes d) k \<and> (k \<in> ds_active d' \<longleftrightarrow> k \<in> ds_active d)) \<and>
    (\<forall>s. s \<noteq> context_scope context \<longrightarrow> bt_get (ds_tenant_counters d') s = bt_get (ds_tenant_counters d) s)"
proof -
  have "others_kept (context_scope context) d (snd (handle be op context d))" by (rule iso.handle_keeps) simp
  then show ?thesis using assms by (simp add: others_kept_def)
qed

subsection \<open>A concrete creation\<close>

text \<open>An operator creates a sandbox on a clean worker whose ledger knows another tenant's.\<close>

definition sample_context :: access_context where
  "sample_context = Operator (TenantScope ''tenant'' ''team'') ''operator''"

definition sample_create :: operation where
  "sample_create = OpCreate sample_lock ''sandbox'' 1000"

definition other_record :: assignment_record where
  "other_record = \<lparr>ar_schema_version = ASSIGNMENT_SCHEMA_VERSION,
     ar_key = SandboxKey (TenantScope ''other'' ''team'') ''sandbox'', ar_epoch = 4, ar_state = AsStopped, ar_snapshot_id = None\<rparr>"

definition sample_start :: "(unit, unit) daemon_state" where
  "sample_start = sample_daemon [(ar_key other_record, other_record)]"

lemma sample_key_of: "key_of sample_context ''sandbox'' = Ok slot_key"
  by (simp add: key_of_def sample_context_def context_sandbox_key_def slot_key_def parse_sandbox_id_def parse_identifier_def
      identifier_byte_def ascii_defs)

lemma sample_maps_ok: "maps_ok sample_start"
  by (simp add: maps_ok_def ledger_keyed_def sample_start_def sample_daemon_def bt_wf_def bt_get_def)

lemma sample_context_simps [simp]:
  "is_operator sample_context" "context_assignment_epoch sample_context = None"
  "context_scope sample_context = TenantScope ''tenant'' ''team''"
  by (simp_all add: sample_context_def)

text \<open>The ledger with the sandbox's record in a state, after \<open>n\<close> appends.\<close>

definition sample_ledger :: "nat \<Rightarrow> assignment_state \<Rightarrow> assignment_ledger" where
  "sample_ledger n st = \<lparr>al_journal = \<lparr>sender_open = True, writer_alive = True,
       sent_commands = map (Append (''{}'' @ [newline])) [0..<n], next_completion = n\<rparr>,
     al_entries = [(ar_key other_record, other_record), (slot_key, \<lparr>ar_schema_version = ASSIGNMENT_SCHEMA_VERSION,
       ar_key = slot_key, ar_epoch = 1, ar_state = st, ar_snapshot_id = None\<rparr>)],
     al_appends_since_compaction = n\<rparr>"

lemmas ledger_eval = Let_def settle_def operation_end_def begin_operation_def begin_epoch_def bt_get_def bt_contains_def
  checked_add_def epoch_new_def commit_def assignment_encode_record_def enqueue_append_def journal_enqueue_def
  MAXIMUM_RECORD_BYTES_def maybe_enqueue_compaction_def ledger_COMPACTION_INTERVAL_def MAXIMUM_ASSIGNMENTS_def

lemma sample_keys [simp]:
  "ar_key other_record < slot_key" "ar_key other_record \<noteq> slot_key" "slot_key \<noteq> ar_key other_record" "\<not> slot_key < ar_key other_record"
proof -
  show *: "ar_key other_record < slot_key"
    by (simp add: other_record_def slot_key_def less_sandbox_key_def sandbox_key_order_def less_tenant_scope_def scope_order_def)
  from * show "ar_key other_record \<noteq> slot_key" "slot_key \<noteq> ar_key other_record" "\<not> slot_key < ar_key other_record" by auto
qed

lemma sample_start_simps [simp]:
  "ds_worker sample_start = clean_slot" "ds_sandboxes sample_start = []" "ds_active sample_start = {}"
  "\<not> ds_shutdown sample_start" "ds_cache sample_start = []" "ds_guest_profiles sample_start = [sample_profile]"
  "ws_shape clean_slot = small_shape" "ws_shape (slot_in st g) = small_shape"
  by (simp_all add: sample_start_def sample_daemon_def clean_slot_def slot_in_def fresh_slot_def)

lemma sample_began:
  "settle (\<lambda>_. Ok ()) (ledger_begin (\<lambda>_. Ok ''{}'') slot_key None (ds_assignments sample_start)) =
     (Ok 1, sample_ledger 1 AsProvisioning)"
  by (simp add: ledger_begin_def sample_start_def sample_daemon_def ledger_eval sample_ledger_def)

lemma sample_marked:
  assumes "n < 100" and "valid_transition st st'" and "st' \<in> {AsActive, AsStopped}"
  shows "settle (\<lambda>_. Ok ()) (ledger_mark (\<lambda>_. Ok ''{}'') slot_key 1 st' (sample_ledger n st)) = (Ok 1, sample_ledger (Suc n) st')"
  using assms
  by (auto simp: ledger_mark_def ledger_transition_def transition_record_def ledger_eval sample_ledger_def)

lemmas action_eval = act_match_def act_simps on_worker_def on_world_def on_ledger_def act_on_def

definition sample_running :: "(unit, unit) daemon_state" where
  "sample_running = sample_start\<lparr>ds_active := {}, ds_worker := slot_in WorkerRunning 3,
     ds_assignments := sample_ledger (Suc (Suc 0)) AsActive, ds_cache := [(''x'', sample_root)],
     ds_counters := cache_miss 0 (no_counts\<lparr>ct_requests := 1\<rparr>), ds_sandboxes := [(slot_key, ())]\<rparr>"

lemma sample_mark_running: "mark_running slot_key (slot_in Leased 2) = (Ok (), slot_in WorkerRunning 3)"
  by (simp add: mark_running_def slot_transition_def require_assignment_def set_state_def checked_add_def slot_in_def)

lemma sample_created:
  "handle (sample_backend True) sample_create sample_context sample_start = (Done (Ok (Value ''up'')), sample_running)"
  by (simp add: handle_def sample_create_def create_def action_eval sample_key_of validate_timeout_def
      count_request_def bump_def refuse_existing_def bt_contains_def bt_get_def Let_def
      with_reservation_def acquire_def lease_def slot_lease_sample sample_began sample_admitted activate_instance_def
      scoped_value_def sample_marked sample_mark_running insert_sandbox_def release_def sample_running_def)
    (simp add: sample_start_def sample_daemon_def no_counts_def)

theorem tenants_are_isolated_witness:
  "maps_ok sample_start \<and>
   handle (sample_backend True) sample_create sample_context sample_start = (Done (Ok (Value ''up'')), sample_running) \<and>
   bt_get (al_entries (ds_assignments sample_running)) (ar_key other_record) =
     bt_get (al_entries (ds_assignments sample_start)) (ar_key other_record)"
  using tenants_are_isolated [OF sample_maps_ok sample_created] sample_maps_ok sample_created
  by (simp add: other_record_def)

end
