(* ===== verification/Daemon_Lifecycle.thy ===== *)
theory Daemon_Lifecycle
  imports Daemon_Correct
begin

text \<open>
  The life of a worker as its handlers drive it: the one sandbox it ever runs, what a failed
  start leaves behind, and what a successful creation, stop and move establish.
\<close>

subsection \<open>One sandbox per worker\<close>

definition owned :: "('i, 'x) daemon_state \<Rightarrow> bool" where
  "owned d \<longleftrightarrow> bt_wf (ds_sandboxes d) \<and> (\<forall>k. bt_contains (ds_sandboxes d) k \<longrightarrow> taken k (ds_worker d))"

definition worker_moves :: "('i, 'x) daemon_state \<Rightarrow> ('i, 'x) daemon_state \<Rightarrow> bool" where
  "worker_moves d d' \<longleftrightarrow> (\<exists>evs. ds_worker d' = foldl slot_apply (ds_worker d) evs) \<and> (owned d \<longrightarrow> owned d')"

lemma worker_moves_same: "ds_worker d' = ds_worker d \<Longrightarrow> (owned d \<Longrightarrow> owned d') \<Longrightarrow> worker_moves d d'"
  by (auto simp: worker_moves_def intro: exI [of _ "[]"])

interpretation own: handler_relation be scope worker_moves for be :: "('i, 'v, 'x) backend" and scope
proof unfold_locales
  show "reflp worker_moves" by (auto simp: reflp_def intro: worker_moves_same)
  show "transp worker_moves"
    unfolding transp_def worker_moves_def by (metis foldl_append)
  show "worker_moves d (d\<lparr>ds_worker := slot_apply (ds_worker d) ev\<rparr>)" for d :: "('i, 'x) daemon_state" and ev
  proof -
    have "ds_worker (d\<lparr>ds_worker := slot_apply (ds_worker d) ev\<rparr>) = foldl slot_apply (ds_worker d) [ev]" by simp
    moreover have "owned (d\<lparr>ds_worker := slot_apply (ds_worker d) ev\<rparr>)" if "owned d"
      using that by (simp add: owned_def taken_step)
    ultimately show ?thesis unfolding worker_moves_def by blast
  qed
  show "worker_moves d (insert_sandbox key i d)"
    if "taken key (ds_worker d) \<or> bt_contains (ds_sandboxes d) key" for key i and d :: "('i, 'x) daemon_state"
    by (rule worker_moves_same) (use that in \<open>auto simp: insert_sandbox_def owned_def bt_contains_def bt_simps split: if_splits\<close>)
  show "worker_moves d (remove_sandbox key d)" for key and d :: "('i, 'x) daemon_state"
    by (rule worker_moves_same) (auto simp: remove_sandbox_def owned_def bt_contains_def bt_simps split: if_splits)
qed (auto intro!: worker_moves_same simp: owned_def bump_tenant_def release_def)

definition daemon_step :: "('i, 'v, 'x) backend \<Rightarrow> ('i, 'x) daemon_state \<Rightarrow> operation \<times> access_context \<Rightarrow> ('i, 'x) daemon_state" where
  "daemon_step be d request = snd (handle be (fst request) (snd request) d)"

lemma daemon_step_moves: "worker_moves d (daemon_step be d request)"
  unfolding daemon_step_def by (rule own.handle_keeps [OF refl])

interpretation dm: invariant_machine "\<lambda>d. ds_sandboxes d = []" "det (daemon_step be)" owned for be
  using daemon_step_moves
  by unfold_locales (auto simp: det_def worker_moves_def owned_def bt_contains_def bt.get_empty)

lemma daemon_run_taken:
  assumes "run (det (daemon_step be)) d evs d'" and "taken k (ds_worker d)"
  shows "taken k (ds_worker d')"
  using assms
proof (induction rule: run.induct)
  case (run_Cons d e t es u)
  obtain ws where "ds_worker t = foldl slot_apply (ds_worker d) ws"
    using daemon_step_moves [of d be e] run_Cons.hyps(1) by (auto simp: det_def worker_moves_def)
  with run_Cons taken_run show ?case by metis
qed

text \<open>
  C15: a worker runs one sandbox of one tenant in its life. In whatever requests the daemon
  handles, in whatever contexts, a sandbox that is ever in its map is the only one ever there,
  and the worker slot is leased to it.
\<close>
theorem one_sandbox_per_worker:
  assumes "ds_sandboxes d0 = []" and "run (det (daemon_step be)) d0 evs d1" and "run (det (daemon_step be)) d1 evs' d2"
    and "bt_contains (ds_sandboxes d1) k" and "bt_contains (ds_sandboxes d2) k'"
  shows "k' = k \<and> sl_assignment (ws_slot (ds_worker d2)) = Some k \<and>
    sl_state (ws_slot (ds_worker d2)) \<notin> {Starting, Clean}"
proof -
  have o1: "owned d1" by (rule dm.reachable_inv [OF assms(1,2)])
  have o2: "owned d2" by (rule dm.run_inv [OF assms(3) o1])
  have "taken k (ds_worker d2)" using daemon_run_taken [OF assms(3)] o1 assms(4) by (simp add: owned_def)
  moreover have "taken k' (ds_worker d2)" using o2 assms(5) by (simp add: owned_def)
  ultimately show ?thesis by (auto simp: taken_def)
qed

subsection \<open>Failed starts\<close>

definition retired :: "('i, 'x) daemon_state \<Rightarrow> bool" where
  "retired d \<longleftrightarrow> sl_generation (ws_slot (ds_worker d)) = - 1 \<or>
     sl_state (ws_slot (ds_worker d)) = Quarantined \<and> ds_shutdown d"

abbreviation taken_by :: "sandbox_key \<Rightarrow> ('i, 'x) daemon_state \<Rightarrow> bool" where
  "taken_by key d \<equiv> taken key (ds_worker d)"

lemma keeps_taken: "act_keeps worker_moves m \<Longrightarrow> act_triple (taken_by key) m (taken_by key) (taken_by key)"
  for m :: "('a, 'i, 'x) daemon_action"
proof (rule act_tripleI)
  fix d t :: "('i, 'x) daemon_state" and r :: 'a
  assume m: "act_keeps worker_moves m" and d: "taken_by key d"
  have k: "taken_by key t" if "m d = (q, t)" for q
    using act_keepsD [OF m that] taken_run [OF d] by (auto simp: worker_moves_def)
  show "taken_by key t" if "m d = (Done (Ok r), t)" using k that .
  show "taken_by key t" if "m d = (Done (Err e), t)" for e using k that .
qed

lemma quarantine_retires:
  assumes "taken key w" and "quarantine f pid (Some key) reason w = (r, w')"
  shows "sl_generation (ws_slot w') = - 1 \<or> sl_state (ws_slot w') = Quarantined"
proof (cases rule: set_state_cases [of Quarantined "ws_slot w"])
  case (over e)
  with assms show ?thesis
    by (auto simp: quarantine_def require_assignment_def taken_def set_recycle_required_def split: if_splits)
next
  case ok
  obtain q w1 where p: "persist_terminal f pid Quarantined reason (w\<lparr>ws_slot := snd (set_state Quarantined (ws_slot w))\<rparr>) = (q, w1)"
    by fastforce
  have "sl_state (ws_slot w1) = Quarantined" using persist_terminal_effect(1) [OF p] ok(1) by simp
  then show ?thesis
    using assms p unfolding quarantine_def ok(1)
    by (auto simp: require_assignment_def taken_def set_recycle_required_def split: if_splits sum.splits)
qed

lemma quarantine_after_failure_retires:
  "act_triple (taken_by key) (quarantine_after_failure be key e) Q retired"
proof -
  have "retired (d\<lparr>ds_worker := w, ds_shutdown := True\<rparr>)"
    if "taken key (ds_worker d)" "quarantine f pid (Some key) reason (ds_worker d) = (r, w)" for d f pid reason r w
    using quarantine_retires [OF that] by (simp add: retired_def)
  then show ?thesis by (auto simp: act_triple_def quarantine_after_failure_def split: prod.splits)
qed

lemma mark_failed_retires: "act_triple (taken_by key) (mark_failed be key epoch e) Q retired"
  unfolding mark_failed_def
  by (intro act_triple_match [OF keeps_taken] quarantine_after_failure_retires own.ledger_keeps(5)) (rule refl)


lemma dropping_triple:
  assumes "act_triple P m Q E" and "\<And>d. Q d \<Longrightarrow> Q (drop_instance be i d)" and "\<And>d. E d \<Longrightarrow> E (drop_instance be i d)"
  shows "act_triple P (dropping be i m) Q E"
  using assms(2,3) act_tripleD [OF assms(1)]
  by (intro act_tripleI) (auto simp: dropping_def split: prod.splits)

lemma retired_parts [simp]:
  "retired (drop_instance be i d) \<longleftrightarrow> retired d" "retired (release key d) \<longleftrightarrow> retired d"
  "ds_worker (drop_instance be i d) = ds_worker d" "ds_worker (release key d) = ds_worker d"
  "ds_worker (insert_sandbox key i d) = ds_worker d" "ds_worker (record_run context b d) = ds_worker d"
  by (simp_all add: retired_def drop_instance_def release_def insert_sandbox_def record_run_def bump_def bump_tenant_def Let_def)

definition encodes :: "('i, 'v, 'x) backend \<Rightarrow> bool" where
  "encodes be \<longleftrightarrow> (\<forall>v. \<exists>u. be_to_value be v = Ok u)"

lemma scoped_value_triple: "encodes be \<Longrightarrow> act_triple P (act_lift (Done (scoped_value be v key operator))) (\<lambda>_. True) E"
  for E :: "'s \<Rightarrow> bool"
proof (rule act_tripleI)
  fix s t :: 's and e
  assume "encodes be" "act_lift (Done (scoped_value be v key operator)) s = (Done (Err e), t)"
  moreover obtain u where "be_to_value be v = Ok u" using \<open>encodes be\<close> unfolding encodes_def by blast
  ultimately show "E t" by (simp add: act_lift_def scoped_value_def)
qed simp

lemmas taken_steps =
  keeps_taken [OF own.on_world_keeps] keeps_taken [OF own.admit_topology_keeps] keeps_taken [OF own.slot_keeps(1)]
  keeps_taken [OF own.ledger_keeps(1) [OF refl]] keeps_taken [OF own.ledger_keeps(2) [OF refl]]
  keeps_taken [OF own.ledger_keeps(5) [OF refl]] keeps_taken [OF own.finish_keeps [OF refl]]

lemmas retiring = quarantine_after_failure_retires mark_failed_retires

lemma modify_taken: "(\<And>d. ds_worker (g d) = ds_worker d) \<Longrightarrow> act_triple (taken_by key) (act_modify g) (taken_by key) E"
  by (rule act_triple_modify) simp

lemma modify_then_failed:
  assumes "\<And>d. ds_worker (g d) = ds_worker d"
  shows "act_triple (taken_by key) (act_then (act_modify g) (\<lambda>_. mark_failed be key epoch e)) Q retired"
  by (rule act_triple_match [OF modify_taken [OF assms, where E = retired]]) (simp_all add: retiring)

lemma activate_retires:
  assumes "encodes be"
  shows "act_triple (taken_by key) (activate_instance be context key epoch i) (\<lambda>_. True) retired"
  unfolding activate_instance_def Let_def
  by (intro act_triple_match [OF taken_steps(1)] act_triple_match [OF taken_steps(6)] act_triple_match [OF taken_steps(3)]
      act_triple_match [OF modify_taken [where E = retired]] modify_then_failed dropping_triple retiring
      scoped_value_triple [OF assms])
    simp_all

text \<open>A start that has not taken the worker leaves it alone; one that has retires it.\<close>

definition undisturbed :: "worker_slot \<Rightarrow> ('i, 'x) daemon_state \<Rightarrow> bool" where
  "undisturbed w d \<longleftrightarrow> ds_worker d = w \<or> retired d"

lemma lease_triple: "act_triple (\<lambda>d. ds_worker d = w) (lease be key) (taken_by key) (undisturbed w)"
  for be :: "('i, 'v, 'x) backend"
proof (rule act_tripleI)
  fix d t :: "('i, 'x) daemon_state" and r
  assume d: "ds_worker d = w"
  let ?s = "(ws_slot w)\<lparr>sl_assignment := Some key\<rparr>"
  note defs = d lease_def on_worker_def act_on_def slot_lease_def taken_def undisturbed_def retired_def
  show "taken_by key t" if "lease be key d = (Done (Ok r), t)"
    by (cases rule: set_state_cases [of Leased ?s]) (use that in \<open>auto simp: defs split: if_splits\<close>)
  show "undisturbed w t" if "lease be key d = (Done (Err e), t)" for e
    by (cases rule: set_state_cases [of Leased ?s]) (use that in \<open>auto simp: defs split: if_splits\<close>)
qed

lemma with_reservation_Done:
  assumes "with_reservation key body d = (Done r, t)"
  obtains (refused) e where "r = Err e" "t = d"
  | (held) u where "\<not> ds_shutdown d" "key \<notin> ds_active d"
      "body (d\<lparr>ds_active := insert key (ds_active d)\<rparr>) = (Done r, u)" "t = release key u"
  using assms by (auto simp: with_reservation_def acquire_def split: if_splits prod.splits)

lemma reserved_triple:
  assumes "act_triple (taken_by key) body (\<lambda>_. True) retired"
  shows "act_triple (\<lambda>d :: ('i, 'x) daemon_state. ds_worker d = w) (with_reservation key (act_then (lease be key) (\<lambda>_. body))) (\<lambda>_. True) (undisturbed w)"
proof -
  have weak: "act_triple (taken_by key) body (\<lambda>_. True) (undisturbed w)"
    using assms by (auto simp: act_triple_def undisturbed_def)
  have b: "act_triple (\<lambda>d. ds_worker d = w) (act_then (lease be key) (\<lambda>_. body)) (\<lambda>_. True) (undisturbed w)"
    by (rule act_triple_match [OF lease_triple]) (simp_all add: weak)
  show ?thesis
  proof (rule act_tripleI)
    fix d t :: "('i, 'x) daemon_state" and e
    assume d: "ds_worker d = w" and r: "with_reservation key (act_then (lease be key) (\<lambda>_. body)) d = (Done (Err e), t)"
    have "undisturbed w (release key u)" if "undisturbed w u" for u :: "('i, 'x) daemon_state"
      using that by (simp add: undisturbed_def)
    with r show "undisturbed w t"
    proof (cases rule: with_reservation_Done)
      case (held u)
      then have "undisturbed w u" using act_tripleD(2) [OF b _ held(3)] d by simp
      then show ?thesis using held(4) by (simp add: undisturbed_def)
    qed (simp add: undisturbed_def d)
  qed simp
qed


fun starts :: "operation \<Rightarrow> bool" where
  "starts (OpRun _ _ _ _) = True"
| "starts (OpCreate _ _ _) = True"
| "starts (OpRestore _ _ _ _ fenced) = (fenced \<noteq> Some 0)"
| "starts _ = False"

lemma pure_undisturbed:
  assumes "\<And>d. snd (m d) = d" and "\<And>x. act_triple (\<lambda>d. ds_worker d = w) (f x) (\<lambda>_. True) (undisturbed w)"
  shows "act_triple (\<lambda>d. ds_worker d = w) (act_then m f) (\<lambda>_. True) (undisturbed w)"
  by (rule act_triple_match [OF act_triple_pure [OF assms(1), where Q = "\<lambda>d. ds_worker d = w" and E = "\<lambda>d. ds_worker d = w"]])
    (simp_all add: assms(2) undisturbed_def)

lemma start_triples:
  assumes "encodes be"
  shows "act_triple (\<lambda>d. ds_worker d = w) (daemon_run be context t s wait_for timeout) (\<lambda>_. True) (undisturbed w)"
    and "act_triple (\<lambda>d. ds_worker d = w) (create be context t s timeout) (\<lambda>_. True) (undisturbed w)"
    and "fenced \<noteq> Some 0 \<Longrightarrow>
      act_triple (\<lambda>d. ds_worker d = w) (restore be context t s snapshot timeout fenced) (\<lambda>_. True) (undisturbed w)"
proof -
  note steps = reserved_triple act_triple_match [OF taken_steps(1)] act_triple_match [OF taken_steps(2)]
    act_triple_match [OF taken_steps(3)] act_triple_match [OF taken_steps(4)] act_triple_match [OF taken_steps(5)]
    act_triple_match [OF taken_steps(7)] act_triple_match [OF modify_taken [where E = retired]]
    modify_then_failed retiring activate_retires [OF assms] scoped_value_triple [OF assms]
  show "act_triple (\<lambda>d. ds_worker d = w) (daemon_run be context t s wait_for timeout) (\<lambda>_. True) (undisturbed w)"
    unfolding daemon_run_def by (rule pure_undisturbed, simp add: act_simps)+ (intro steps; simp)
  show "act_triple (\<lambda>d. ds_worker d = w) (create be context t s timeout) (\<lambda>_. True) (undisturbed w)"
    unfolding create_def by (rule pure_undisturbed, simp add: act_simps refuse_existing_def)+ (intro steps; simp)
  assume f: "fenced \<noteq> Some 0"
  have target: "act_triple (taken_by key) (act_lift (Done (restore_target_of be worker key epoch t fenced)))
      (taken_by key) retired" for key epoch worker
    using f by (cases fenced) (auto simp: act_triple_def act_lift_def restore_target_of_def epoch_new_def)
  have get: "act_triple (taken_by key) (act_get ds_worker_id) (taken_by key) retired" for key
    by (simp add: act_triple_def act_get_def)
  show "act_triple (\<lambda>d. ds_worker d = w) (restore be context t s snapshot timeout fenced) (\<lambda>_. True) (undisturbed w)"
    unfolding restore_def
    by (rule pure_undisturbed, simp add: act_simps refuse_existing_def)+
      (intro steps act_triple_match [OF target] act_triple_match [OF get]; simp)
qed


subsection \<open>What success establishes\<close>

lemma fails_triple: "act_fails m \<Longrightarrow> act_triple P m Q (\<lambda>_. True)"
  by (simp add: act_triple_def act_fails_def)

lemma quarantine_fails [simp]: "act_fails (quarantine_after_failure be key e)"
  by (simp add: act_fails_def quarantine_after_failure_def split: prod.splits)

lemma mark_failed_fails [simp]: "act_fails (mark_failed be key epoch e)"
  unfolding mark_failed_def by (intro act_fails_match) simp_all

lemma dropping_fails [simp]: "act_fails m \<Longrightarrow> act_fails (dropping be i m)"
  by (auto simp: act_fails_def dropping_def split: prod.splits)

lemma then_fails [simp]: "(\<And>x. act_fails (f x)) \<Longrightarrow> act_fails (act_then m f)"
  by (rule act_fails_match) simp_all

definition recorded :: "sandbox_key \<Rightarrow> assignment_epoch \<Rightarrow> assignment_state \<Rightarrow> snapshot_id option \<Rightarrow> ('i, 'x) daemon_state \<Rightarrow> bool" where
  "recorded key epoch st sn d \<longleftrightarrow> maps_ok d \<and> (\<exists>r. bt_get (al_entries (ds_assignments d)) key = Some r \<and>
     ar_epoch r = epoch \<and> ar_state r = st \<and> ar_snapshot_id r = sn)"

lemma recorded_parts [simp]:
  "recorded key epoch st sn (d\<lparr>ds_world := x\<rparr>) = recorded key epoch st sn d"
  "recorded key epoch st sn (d\<lparr>ds_worker := w\<rparr>) = recorded key epoch st sn d"
  "recorded key epoch st sn (d\<lparr>ds_shutdown := b\<rparr>) = recorded key epoch st sn d"
  by (simp_all add: recorded_def maps_ok_def)

lemma maps_ok_parts [simp]:
  "maps_ok (d\<lparr>ds_world := x\<rparr>) = maps_ok d" "maps_ok (d\<lparr>ds_active := A\<rparr>) = maps_ok d"
  by (simp_all add: maps_ok_def)

lemma maps_ok_kept: "act_keeps (others_kept scope) m \<Longrightarrow> act_triple maps_ok m maps_ok maps_ok"
proof (rule act_tripleI)
  assume m: "act_keeps (others_kept scope) m"
  show "maps_ok t" if "maps_ok s" "m s = (Done (Ok x), t)" for s t x
    using act_keepsD [OF m that(2)] that(1) by (simp add: others_kept_def)
  show "maps_ok t" if "maps_ok s" "m s = (Done (Err e), t)" for s t e
    using act_keepsD [OF m that(2)] that(1) by (simp add: others_kept_def)
qed

lemma on_world_triple: "(\<And>d x. P (d\<lparr>ds_world := x\<rparr>) = P d) \<Longrightarrow> act_triple P (on_world f) P (\<lambda>_. True)"
  by (rule act_tripleI) (auto simp: on_world_def act_on_def split: prod.splits)

text \<open>A successful move of an assignment record is in the ledger.\<close>

lemma transition_settled:
  assumes "settle wait (ledger_transition json key epoch st sn l) = (Ok e, l')" and "bt_wf (al_entries l)"
  shows "\<exists>p q. bt_get (al_entries l) key = Some p \<and> bt_get (al_entries l') key = Some q \<and> ar_epoch p = epoch \<and>
    ar_epoch q = epoch \<and> ar_state q = st \<and>
    ar_snapshot_id q = (if sn \<noteq> None then sn else if st \<in> {AsActive, AsStopped} then None else ar_snapshot_id p)"
proof (cases "transition_record key epoch st sn (al_entries l)")
  case (Inl e)
  with assms(1) show ?thesis by (simp add: ledger_transition_def settle_def)
next
  case (Inr qp)
  obtain q p where qp: "qp = (q, p)" by fastforce
  obtain l2 r where t: "ledger_transition json key epoch st sn l = (r, l2)" by fastforce
  have "al_entries l2 = bt_insert key q (al_entries l)"
    using ledger_transition_entries [of json key epoch st sn l] t by (simp add: Inr qp)
  moreover have "l' = l2"
    using assms(1) t by (auto simp: settle_def operation_end_def split: sum.splits option.splits)
  ultimately have "bt_get (al_entries l') key = Some q" using assms(2) by (simp add: bt_simps)
  with transition_record_Ok [OF Inr [unfolded qp]] show ?thesis by auto
qed

lemma on_ledger_Ok:
  "on_ledger be f d = (Done (Ok e), d') \<longleftrightarrow>
     (\<exists>l. settle (be_wait be (ds_world d)) (f (be_ledger_json be) (ds_assignments d)) = (Ok e, l) \<and>
       d' = d\<lparr>ds_assignments := l\<rparr>)"
  by (auto simp: on_ledger_def act_on_def split: prod.splits)

lemma transition_recorded:
  fixes be :: "('i, 'v, 'x) backend"
  assumes "\<And>json. f json = ledger_transition json key epoch st sn"
    and "sn \<noteq> None \<or> st \<in> {AsActive, AsStopped}" and "act_keeps (others_kept scope) (on_ledger be f)"
  shows "act_triple maps_ok (on_ledger be f) (recorded key epoch st sn) (\<lambda>_. True)"
proof (rule act_tripleI)
  fix d t :: "('i, 'x) daemon_state" and x
  assume d: "maps_ok d" and m: "on_ledger be f d = (Done (Ok x), t)"
  have "maps_ok t" by (rule act_tripleD(1) [OF maps_ok_kept [OF assms(3)] d m])
  moreover obtain l where "settle (be_wait be (ds_world d)) (ledger_transition (be_ledger_json be) key epoch st sn (ds_assignments d)) = (Ok x, l)"
    "t = d\<lparr>ds_assignments := l\<rparr>" using m by (auto simp: on_ledger_Ok assms(1))
  ultimately show "recorded key epoch st sn t"
    using transition_settled [of _ _ key epoch st sn "ds_assignments d"] d assms(2)
    by (fastforce simp: recorded_def maps_ok_def ledger_keyed_def)
qed simp

lemma ledger_recorded:
  "st \<in> {AsActive, AsStopped} \<Longrightarrow>
     act_triple maps_ok (on_ledger be (\<lambda>json. ledger_mark json key epoch st)) (recorded key epoch st None) (\<lambda>_. True)"
  "act_triple maps_ok (on_ledger be (\<lambda>json. mark_transferable json key epoch snapshot))
     (recorded key epoch AsTransferable (Some snapshot)) (\<lambda>_. True)"
  by (rule transition_recorded [OF _ _ iso.ledger_keeps(5) [OF refl]]; simp add: ledger_mark_def)
    (rule transition_recorded [OF _ _ iso.ledger_keeps(4) [OF refl]]; simp add: mark_transferable_def)

definition running :: "sandbox_key \<Rightarrow> ('i, 'x) daemon_state \<Rightarrow> bool" where
  "running key d \<longleftrightarrow> sl_state (ws_slot (ds_worker d)) = WorkerRunning \<and> sl_assignment (ws_slot (ds_worker d)) = Some key"

lemma mark_running_triple:
  assumes "\<And>d w. P (d\<lparr>ds_worker := w\<rparr>) = P d"
  shows "act_triple P (on_worker (mark_running key)) (\<lambda>d. P d \<and> running key d) (\<lambda>_. True)"
proof (rule act_tripleI)
  fix d t :: "('a, 'b) daemon_state" and x
  assume "P d" "on_worker (mark_running key) d = (Done (Ok x), t)"
  then show "P t \<and> running key t" using assms
    by (cases rule: set_state_cases [of WorkerRunning "ws_slot (ds_worker d)"])
      (auto simp: on_worker_def act_on_def mark_running_def slot_transition_def require_assignment_def running_def split: if_splits)
qed simp

definition established :: "sandbox_key \<Rightarrow> assignment_epoch \<Rightarrow> ('i, 'x) daemon_state \<Rightarrow> bool" where
  "established key epoch d \<longleftrightarrow> recorded key epoch AsActive None d \<and> running key d \<and> bt_contains (ds_sandboxes d) key"

lemma activate_establishes:
  "act_triple maps_ok (activate_instance be context key epoch i) (established key epoch) (\<lambda>_. True)"
proof -
  have ins: "act_triple (\<lambda>d. recorded key epoch AsActive None d \<and> running key d) (act_modify (insert_sandbox key i))
      (established key epoch) (\<lambda>_. True)"
    by (rule act_triple_modify)
      (auto simp: established_def insert_sandbox_def recorded_def running_def maps_ok_def bt_contains_def bt_simps)
  have lift: "act_triple P (act_lift r) P (\<lambda>_. True)" for P :: "('a, 'b) daemon_state \<Rightarrow> bool" and r :: "('c reply, sandbox_error) result exec"
    by (auto simp: act_triple_def act_lift_def)
  note steps = act_triple_match [OF on_world_triple [where P = maps_ok]] act_triple_match [OF ledger_recorded(1)]
    act_triple_match [OF on_world_triple [where P = "recorded key epoch AsActive None"]]
    act_triple_match [OF mark_running_triple [where P = "recorded key epoch AsActive None"]]
    act_triple_match [OF ins] lift fails_triple
  show ?thesis unfolding activate_instance_def Let_def by (intro steps) simp_all
qed

lemma then_OkE:
  assumes "act_then m f s = (Done (Ok y), t)"
  obtains x u where "m s = (Done (Ok x), u)" and "f x u = (Done (Ok y), t)"
  using assms by (auto simp: act_then_Ok)

lemma with_reservation_Ok:
  "with_reservation key body d = (Done (Ok y), t) \<longleftrightarrow> \<not> ds_shutdown d \<and> key \<notin> ds_active d \<and>
     (\<exists>u. body (d\<lparr>ds_active := insert key (ds_active d)\<rparr>) = (Done (Ok y), u) \<and> t = release key u)"
  by (auto simp: with_reservation_def acquire_def split: prod.splits)

lemma lift_Ok [simp]: "act_lift q d = (Done (Ok x), d') \<longleftrightarrow> q = Done (Ok x) \<and> d' = d"
  by (auto simp: act_lift_def)

lemma refuse_existing_Ok [simp]:
  "refuse_existing key sandbox d = (Done (Ok x), d') \<longleftrightarrow> \<not> bt_contains (ds_sandboxes d) key \<and> d' = d"
  by (auto simp: refuse_existing_def)

lemma established_release [simp]: "established key e (release k d) = established key e d"
  by (simp add: established_def recorded_def running_def maps_ok_def release_def)

text \<open>A sandbox is given an epoch above every one it had.\<close>

definition fresh_epoch :: "sandbox_key \<Rightarrow> assignment_epoch option \<Rightarrow> assignment_epoch \<Rightarrow> assignment_ledger \<Rightarrow> bool" where
  "fresh_epoch key requested e l \<longleftrightarrow> (\<forall>e'. requested = Some e' \<longrightarrow> e = e') \<and>
     (\<forall>p. bt_get (al_entries l) key = Some p \<longrightarrow> ar_epoch p < e \<and> \<not> in_flight (ar_state p))"

lemma begun:
  assumes "on_ledger be (\<lambda>json. begin_operation json key req st sn) d = (Done (Ok e), d')"
  shows "fresh_epoch key req e (ds_assignments d)"
proof -
  obtain l where "settle (be_wait be (ds_world d)) (begin_operation (be_ledger_json be) key req st sn (ds_assignments d)) = (Ok e, l)"
    using assms by (auto simp: on_ledger_Ok)
  then have "begin_epoch key req st sn (al_entries (ds_assignments d)) = Ok e"
    by (auto simp: settle_def operation_end_def begin_operation_def Let_def split: sum.splits prod.splits option.splits)
  from begin_epoch_Ok [OF this] show ?thesis by (auto simp: fresh_epoch_def)
qed

lemma lease_Ok:
  assumes "lease be key d = (Done (Ok x), d')"
  shows "ds_assignments d' = ds_assignments d" "maps_ok d' = maps_ok d"
  using assms by (auto simp: lease_def on_worker_def act_on_def maps_ok_def split: prod.splits)

lemma started_body:
  fixes be :: "('i, 'v, 'x) backend"
  assumes "maps_ok d"
    and "act_then (lease be key) (\<lambda>_. act_match (on_ledger be (\<lambda>json. begin_operation json key req st sn))
       (quarantine_after_failure be key) body) d = (Done (Ok r), t)"
    and "act_keeps (others_kept (key_scope key)) (on_ledger be (\<lambda>json. begin_operation json key req st sn))"
    and "\<And>e. act_triple maps_ok (body e) (established key e) (\<lambda>_. True)"
  shows "\<exists>e. fresh_epoch key req e (ds_assignments d) \<and> established key e t"
proof -
  obtain x d1 e d2 where 1: "lease be key d = (Done (Ok x), d1)"
    and 2: "on_ledger be (\<lambda>json. begin_operation json key req st sn) d1 = (Done (Ok e), d2)"
    and 3: "body e d2 = (Done (Ok r), t)"
    using assms(2) by (auto simp: act_then_Ok act_match_Ok)
  have "maps_ok d1" using lease_Ok [OF 1] assms(1) by simp
  then have "maps_ok d2" by (rule act_tripleD(1) [OF maps_ok_kept [OF assms(3)] _ 2])
  then have "established key e t" by (rule act_tripleD(1) [OF assms(4) _ 3])
  with begun [OF 2] lease_Ok [OF 1] show ?thesis by auto
qed

lemma get_triple: "act_triple P (act_get g) P (\<lambda>_. True)"
  and lift_triple: "act_triple P (act_lift q) P (\<lambda>_. True)"
  by (auto simp: act_triple_def act_get_def act_lift_def)

lemmas establishing = act_triple_match [OF maps_ok_kept [OF iso.admit_topology_keeps]]
  act_triple_match [OF on_world_triple [where P = maps_ok]] act_triple_match [OF get_triple [where P = maps_ok]]
  act_triple_match [OF lift_triple [where P = maps_ok]] activate_establishes fails_triple

fun sandbox_started :: "operation \<Rightarrow> string option" where
  "sandbox_started (OpCreate _ sandbox _) = Some sandbox"
| "sandbox_started (OpRestore _ sandbox _ _ _) = Some sandbox"
| "sandbox_started _ = None"

lemma create_Ok:
  assumes "create be context t sandbox ms d = (Done (Ok r), d')" and "maps_ok d"
  shows "\<exists>key e. key_of context sandbox = Ok key \<and> \<not> bt_contains (ds_sandboxes d) key \<and> key \<notin> ds_active d' \<and>
    fresh_epoch key (context_assignment_epoch context) e (ds_assignments d) \<and> established key e d'"
proof -
  obtain key u where key: "key_of context sandbox = Ok key" "\<not> bt_contains (ds_sandboxes d) key"
    and body: "act_then (lease be key) (\<lambda>_.
     act_match (on_ledger be (\<lambda>json. ledger_begin json key (context_assignment_epoch context)))
       (quarantine_after_failure be key) (\<lambda>epoch.
     act_match (admit_topology be t) (mark_failed be key epoch) (\<lambda>admitted.
     act_match (on_world (be_start_admitted be t (project_of be key epoch) ms admitted (key_scope key)))
       (mark_failed be key epoch) (activate_instance be context key epoch)))) (d\<lparr>ds_active := insert key (ds_active d)\<rparr>) =
       (Done (Ok r), u)" and d': "d' = release key u"
    using assms(1) unfolding create_def
    by (elim then_OkE) (simp only: lift_Ok refuse_existing_Ok with_reservation_Ok, blast)
  have "\<exists>e. fresh_epoch key (context_assignment_epoch context) e (ds_assignments (d\<lparr>ds_active := insert key (ds_active d)\<rparr>)) \<and>
      established key e u"
    by (rule started_body [OF _ body [unfolded ledger_begin_def] iso.ledger_keeps(1) [OF refl, unfolded ledger_begin_def]],
        simp add: assms(2)) (intro establishing; simp)
  moreover have "key \<notin> ds_active d'" by (simp add: d' release_def)
  ultimately show ?thesis using key by (auto simp: d')
qed

lemma restore_Ok:
  assumes "restore be context t sandbox snapshot ms fenced d = (Done (Ok r), d')" and "maps_ok d"
  shows "\<exists>key e. key_of context sandbox = Ok key \<and> \<not> bt_contains (ds_sandboxes d) key \<and> key \<notin> ds_active d' \<and>
    fresh_epoch key (context_assignment_epoch context) e (ds_assignments d) \<and> established key e d'"
proof -
  obtain key s u where key: "key_of context sandbox = Ok key" "\<not> bt_contains (ds_sandboxes d) key"
    and body: "act_then (lease be key) (\<lambda>_.
     act_match (on_ledger be (\<lambda>json. begin_restore json key (context_assignment_epoch context) s))
       (quarantine_after_failure be key) (\<lambda>epoch.
     act_match (admit_topology be t) (mark_failed be key epoch) (\<lambda>admitted.
     act_then (act_get ds_worker_id) (\<lambda>worker.
     act_then (act_lift (Done (restore_target_of be worker key epoch t fenced))) (\<lambda>target.
     act_match (on_world (be_restore_admitted be t (project_of be key epoch) ms (context_scope context)
         s target admitted (key_scope key)))
       (mark_failed be key epoch) (activate_instance be context key epoch)))))) (d\<lparr>ds_active := insert key (ds_active d)\<rparr>) =
       (Done (Ok r), u)" and d': "d' = release key u"
    using assms(1) unfolding restore_def
    by (elim then_OkE) (simp only: lift_Ok refuse_existing_Ok with_reservation_Ok, blast)
  have "\<exists>e. fresh_epoch key (context_assignment_epoch context) e (ds_assignments (d\<lparr>ds_active := insert key (ds_active d)\<rparr>)) \<and>
      established key e u"
    by (rule started_body [OF _ body [unfolded begin_restore_def] iso.ledger_keeps(2) [OF refl, unfolded begin_restore_def]],
        simp add: assms(2)) (intro establishing; simp)
  moreover have "key \<notin> ds_active d'" by (simp add: d' release_def)
  ultimately show ?thesis using key by (auto simp: d')
qed

lemma handle_dispatch: "handle be op context d = dispatch be op context (count_request context d)"
  by (simp add: handle_def act_match_def act_modify_def)

lemma count_request_parts [simp]:
  "ds_worker (count_request context d) = ds_worker d" "ds_assignments (count_request context d) = ds_assignments d"
  "ds_sandboxes (count_request context d) = ds_sandboxes d" "ds_active (count_request context d) = ds_active d"
  "ds_world (count_request context d) = ds_world d" "ds_shutdown (count_request context d) = ds_shutdown d"
  by (simp_all add: count_request_def bump_def bump_tenant_def Let_def)

lemma count_request_maps [simp]: "maps_ok d \<Longrightarrow> maps_ok (count_request context d)"
  by (simp add: maps_ok_def count_request_def bump_def bump_tenant_def Let_def bt_simps)

text \<open>
  C16: a sandbox that was created or restored runs, and everything the daemon keeps agrees on
  it. The sandbox was not there before and is now, its assignment record is active in an epoch
  above every earlier one of its key (the requested one, if the request names it), the worker
  is running for it, and its reservation is released.
\<close>
theorem started_sandbox_is_established:
  assumes "maps_ok d" and "sandbox_started op = Some sandbox" and "handle be op context d = (Done (Ok reply), d')"
  shows "\<exists>key rec. key_of context sandbox = Ok key \<and> \<not> bt_contains (ds_sandboxes d) key \<and>
    bt_contains (ds_sandboxes d') key \<and> key \<notin> ds_active d' \<and>
    bt_get (al_entries (ds_assignments d')) key = Some rec \<and> ar_state rec = AsActive \<and>
    (\<forall>p. bt_get (al_entries (ds_assignments d)) key = Some p \<longrightarrow> ar_epoch p < ar_epoch rec \<and> \<not> in_flight (ar_state p)) \<and>
    (\<forall>e. context_assignment_epoch context = Some e \<longrightarrow> ar_epoch rec = e) \<and>
    sl_state (ws_slot (ds_worker d')) = WorkerRunning \<and> sl_assignment (ws_slot (ds_worker d')) = Some key"
proof -
  let ?d = "count_request context d"
  have "dispatch be op context ?d = (Done (Ok reply), d')" using assms(3) by (simp add: handle_dispatch)
  then have "\<exists>key e. key_of context sandbox = Ok key \<and> \<not> bt_contains (ds_sandboxes ?d) key \<and> key \<notin> ds_active d' \<and>
    fresh_epoch key (context_assignment_epoch context) e (ds_assignments ?d) \<and> established key e d'"
    using assms(1,2) create_Ok [where d = ?d and d' = d'] restore_Ok [where d = ?d and d' = d']
    by (cases op) auto
  then show ?thesis
    by (auto simp: fresh_epoch_def established_def recorded_def running_def)
qed

subsection \<open>The end of a sandbox\<close>

definition finished :: "('i, 'x) daemon_state \<Rightarrow> bool" where
  "finished d \<longleftrightarrow> ws_marker (ds_worker d) \<noteq> None \<and> ds_shutdown d"

definition gone :: "sandbox_key \<Rightarrow> assignment_epoch \<Rightarrow> assignment_state \<Rightarrow> snapshot_id option \<Rightarrow> ('i, 'x) daemon_state \<Rightarrow> bool" where
  "gone key epoch st sn d \<longleftrightarrow> recorded key epoch st sn d \<and> \<not> bt_contains (ds_sandboxes d) key"

lemma cleanup_triple:
  assumes "\<And>d w. P (d\<lparr>ds_worker := w\<rparr>) = P d" and "\<And>d. P (d\<lparr>ds_shutdown := True\<rparr>) = P d"
  shows "act_triple P (complete_worker_cleanup be key) (\<lambda>d. P d \<and> finished d) (\<lambda>_. True)"
proof -
  have marked: "ws_marker w' \<noteq> None" if "recycle_clean f pid key w = (Ok x, w')" for f pid w w' and x :: unit
    using that by (auto simp: recycle_clean_def set_recycle_required_def split: sum.splits prod.splits if_splits
        dest!: persist_terminal_effect(5))
  have cl: "act_triple P (on_worker (begin_cleaning key)) P (\<lambda>_. True)"
    using assms(1) by (auto simp: act_triple_def on_worker_def act_on_def split: prod.splits)
  have re: "act_triple P (\<lambda>d. on_worker (recycle_clean (be_marker_faults be (ds_world d)) (be_process_id be) key) d)
      (\<lambda>d. P d \<and> ws_marker (ds_worker d) \<noteq> None) (\<lambda>_. True)"
    using assms(1) by (auto simp: act_triple_def on_worker_def act_on_def split: prod.splits dest!: marked)
  have sh: "act_triple (\<lambda>d. P d \<and> ws_marker (ds_worker d) \<noteq> None) (act_modify (\<lambda>d. d\<lparr>ds_shutdown := True\<rparr>))
      (\<lambda>d. P d \<and> finished d) (\<lambda>_. True)"
    using assms(2) by (intro act_triple_modify) (simp add: finished_def)
  show ?thesis unfolding complete_worker_cleanup_def
    by (intro act_triple_match [OF cl] act_triple_match [OF re] sh) simp_all
qed

lemma gone_parts [simp]:
  "gone key epoch st sn (d\<lparr>ds_worker := w\<rparr>) = gone key epoch st sn d"
  "gone key epoch st sn (d\<lparr>ds_shutdown := b\<rparr>) = gone key epoch st sn d"
  "gone key epoch st sn (drop_instance be i d) = gone key epoch st sn d" "finished (drop_instance be i d) = finished d"
  by (simp_all add: gone_def finished_def drop_instance_def)

lemma remove_triple:
  "act_triple (recorded key epoch st sn) (act_modify (remove_sandbox key)) (gone key epoch st sn) (\<lambda>_. True)"
  by (rule act_triple_modify)
    (auto simp: gone_def recorded_def maps_ok_def remove_sandbox_def bt_contains_def bt_simps)

lemma on_instance_triple: "act_triple maps_ok (on_instance key i f g) maps_ok (\<lambda>_. True)"
  by (auto simp: act_triple_def on_instance_def insert_sandbox_def maps_ok_def bt_simps split: prod.splits)

lemma pure_triples:
  "act_triple P (current_epoch key e) P (\<lambda>_. True)" "act_triple P (find_instance key) P (\<lambda>_. True)"
  by (auto simp: act_triple_def current_epoch_def find_instance_def)

lemma prod_triple: "(\<And>a b. act_triple P (f a b) Q E) \<Longrightarrow> act_triple P (case x of (a, b) \<Rightarrow> f a b) Q E"
  by (cases x) simp

lemma current_epoch_Ok:
  assumes "current_epoch key req d = (Done (Ok e), d')"
  shows "d' = d \<and> (\<exists>p. bt_get (al_entries (ds_assignments d)) key = Some p \<and> ar_state p = AsActive \<and> ar_epoch p = e)"
  using assms by (auto simp: current_epoch_def require_current_def split: if_splits option.splits)

abbreviation over :: "sandbox_key \<Rightarrow> assignment_epoch \<Rightarrow> assignment_state \<Rightarrow> snapshot_id option \<Rightarrow> ('i, 'x) daemon_state \<Rightarrow> bool" where
  "over key epoch st sn d \<equiv> gone key epoch st sn d \<and> finished d"

lemmas ending = act_triple_match [OF pure_triples(1) [where P = maps_ok]] act_triple_match [OF pure_triples(2) [where P = maps_ok]]
  act_triple_match [OF maps_ok_kept [OF iso.slot_keeps(2)]] act_triple_match [OF on_instance_triple]
  act_triple_match [OF get_triple [where P = maps_ok]] act_triple_match [OF lift_triple [where P = maps_ok]]
  act_triple_match [OF remove_triple] prod_triple dropping_triple lift_triple fails_triple

lemma stop_ends:
  "act_triple maps_ok
     (act_then (find_instance key) (\<lambda>i.
     act_then (current_epoch key (Some epoch)) (\<lambda>_.
     act_then (on_worker (begin_draining key)) (\<lambda>_.
     act_then (on_instance key i (be_stop be) id) (\<lambda>(stopped, i').
     act_match (act_lift (Done stopped)) (mark_failed be key epoch) (\<lambda>status.
     act_match (on_ledger be (\<lambda>json. ledger_mark json key epoch AsStopped)) (mark_failed be key epoch) (\<lambda>_.
     act_then (act_modify (remove_sandbox key)) (\<lambda>_.
     dropping be i' (
     act_match (complete_worker_cleanup be key) (quarantine_after_failure be key) (\<lambda>_.
     act_lift (Done (scoped_value be status key operator)))))))))))) (over key epoch AsStopped None) (\<lambda>_. True)"
  by (intro ending act_triple_match [OF ledger_recorded(1)] act_triple_match [OF cleanup_triple [where P = "gone key epoch AsStopped None"]])
    simp_all

lemma transfer_ends:
  fixes be :: "('i, 'v, 'x) backend"
  shows "act_triple maps_ok (transfer_source be key epoch s) (over key epoch AsTransferable (Some s)) (\<lambda>_. True)"
proof -
  have ret: "act_triple P (act_return ()) P (\<lambda>_. True)" for P :: "('i, 'x) daemon_state \<Rightarrow> bool"
    by (simp add: act_triple_def act_return_def)
  have concl: "act_triple (recorded key epoch AsTransferable (Some s)) (conclude_transfer be key epoch (Done (Ok e)))
      (over key epoch AsTransferable (Some s)) (\<lambda>_. True)" for e
    unfolding conclude_transfer_def
    by (intro act_triple_match [OF lift_triple [where P = "gone key epoch AsTransferable (Some s)"]]
        act_triple_match [OF cleanup_triple [where P = "gone key epoch AsTransferable (Some s)"]] ret ending) simp_all
  have fails: "act_fails (conclude_transfer be key epoch (Done (Err e)))" "act_fails (conclude_transfer be key epoch Panic)" for e
    by (simp_all add: conclude_transfer_def act_fails_def act_match_def act_lift_def act_modify_def
        mark_failed_fails [unfolded act_fails_def])
  have tail: "act_triple maps_ok (\<lambda>d. case on_ledger be (\<lambda>json. mark_transferable json key epoch s) d of
       (marked, d') \<Rightarrow> conclude_transfer be key epoch marked d') (over key epoch AsTransferable (Some s)) (\<lambda>_. True)"
  proof (rule act_tripleI)
    fix d t x
    assume d: "maps_ok d" and m: "(case on_ledger be (\<lambda>json. mark_transferable json key epoch s) d of
       (marked, d') \<Rightarrow> conclude_transfer be key epoch marked d') = (Done (Ok x), t)"
    obtain marked u where u: "on_ledger be (\<lambda>json. mark_transferable json key epoch s) d = (marked, u)" by fastforce
    with m have c: "conclude_transfer be key epoch marked u = (Done (Ok x), t)" by simp
    then obtain e where e: "marked = Done (Ok e)" using fails unfolding act_fails_def by (metis exec.exhaust sum.exhaust)
    have "recorded key epoch AsTransferable (Some s) u" by (rule act_tripleD(1) [OF ledger_recorded(2) d u [unfolded e]])
    then show "over key epoch AsTransferable (Some s) t" by (rule act_tripleD(1) [OF concl _ c [unfolded e]])
  qed simp
  show ?thesis unfolding transfer_source_def
    by (intro ending act_triple_match [OF on_world_triple [where P = maps_ok]] tail) simp_all
qed

lemma snapshot_failed_fails [simp]: "act_fails (snapshot_failed be key epoch b i e)"
  by (simp add: snapshot_failed_def)

lemma move_ends:
  "act_triple maps_ok (after_snapshot be key epoch s StopAndMove ms result i) (over key epoch AsTransferable (Some s)) (\<lambda>_. True)"
proof -
  let ?P = "over key epoch AsTransferable (Some s)"
  have reply: "act_triple ?P (snapshot_reply be key mode summary ms started) ?P (\<lambda>_. True)" for mode summary started
    unfolding snapshot_reply_def
    by (intro act_triple_match [OF get_triple [where P = ?P]] lift_triple) simp_all
  show ?thesis unfolding after_snapshot_def
    by (simp, intro act_triple_match [OF transfer_ends] reply ending) simp_all
qed

lemma take_ends:
  "act_triple maps_ok (take_snapshot be key epoch s StopAndMove i started) (over key epoch AsTransferable (Some s)) (\<lambda>_. True)"
  unfolding take_snapshot_def by (intro move_ends ending) simp_all

text \<open>
  C17: a sandbox that was stopped, or stopped to move elsewhere, is over on this worker. Its
  record, which was active, is stopped or transferable with the very snapshot that was taken, in
  the same epoch; it is no longer in the map; and the worker has written its terminal marker and
  is shutting down.
\<close>
theorem ended_sandbox_is_over:
  assumes "maps_ok d" and "handle be op context d = (Done (Ok reply), d')"
    and "op = OpStop sandbox \<and> st = AsStopped \<and> sn = None \<or>
      op = OpSnapshot sandbox snapshot StopAndMove \<and> st = AsTransferable \<and> sn = Some snapshot"
  shows "\<exists>key p rec. key_of context sandbox = Ok key \<and>
    bt_get (al_entries (ds_assignments d)) key = Some p \<and> ar_state p = AsActive \<and>
    bt_get (al_entries (ds_assignments d')) key = Some rec \<and> ar_state rec = st \<and> ar_snapshot_id rec = sn \<and>
    ar_epoch rec = ar_epoch p \<and> \<not> bt_contains (ds_sandboxes d') key \<and>
    ws_marker (ds_worker d') \<noteq> None \<and> ds_shutdown d'"
proof -
  let ?d = "count_request context d"
  have ok: "maps_ok ?d" using assms(1) by simp
  have moved: "act_triple maps_ok (act_then (find_instance key) (\<lambda>i.
     act_then (current_epoch key (Some epoch)) (\<lambda>_.
     act_then (act_get (be_now be \<circ> ds_world)) (\<lambda>fence_started.
     act_then (fence_source be key epoch s i) (\<lambda>_. take_snapshot be key epoch s StopAndMove i fence_started)))))
     (over key epoch AsTransferable (Some s)) (\<lambda>_. True)" for key epoch s
    by (intro act_triple_match [OF maps_ok_kept [OF iso.fence_source_keeps [OF refl]]] take_ends ending) simp_all
  have "\<exists>key e. key_of context sandbox = Ok key \<and> current_epoch key (context_assignment_epoch context) ?d = (Done (Ok e), ?d) \<and>
      over key e st sn d'"
    using assms(3)
  proof
    assume op: "op = OpStop sandbox \<and> st = AsStopped \<and> sn = None"
    then have "stop be context sandbox ?d = (Done (Ok reply), d')" using assms(2) by (simp add: handle_dispatch)
    then obtain key e where "key_of context sandbox = Ok key"
      "current_epoch key (context_assignment_epoch context) ?d = (Done (Ok e), ?d)" "over key e AsStopped None d'"
      unfolding stop_def
      by (elim then_OkE [of "act_lift q" for q] then_OkE [of "current_epoch k r" for k r])
        (use act_tripleD(1) [OF stop_ends ok] current_epoch_Ok in \<open>fastforce simp only: lift_Ok\<close>)
    with op show ?thesis by blast
  next
    assume op: "op = OpSnapshot sandbox snapshot StopAndMove \<and> st = AsTransferable \<and> sn = Some snapshot"
    then have "snapshot_handler be context sandbox snapshot StopAndMove ?d = (Done (Ok reply), d')"
      using assms(2) by (simp add: handle_dispatch)
    then obtain s key e where "map_err (\<lambda>e. Runtime (core_error_display e)) (parse_snapshot_id snapshot) = Ok s"
      "key_of context sandbox = Ok key"
      "current_epoch key (context_assignment_epoch context) ?d = (Done (Ok e), ?d)" "over key e AsTransferable (Some s) d'"
      unfolding snapshot_handler_def if_P [OF refl]
      by (elim then_OkE [of "act_lift q" for q] then_OkE [of "current_epoch k r" for k r])
        (use act_tripleD(1) [OF moved ok] current_epoch_Ok in \<open>fastforce simp only: lift_Ok\<close>)
    moreover have "s = snapshot" using calculation(1) by (auto simp: parse_snapshot_id_def parse_identifier_def split: if_splits)
    ultimately show ?thesis using op by blast
  qed
  then show ?thesis using current_epoch_Ok [where d = ?d and d' = ?d]
    by (fastforce simp: gone_def recorded_def finished_def)
qed

subsection \<open>Concrete lives\<close>

lemma sample_daemon_run: "run (det (daemon_step (sample_backend True))) sample_start [(sample_create, sample_context)] sample_running"
  using sample_created by (simp add: run_det daemon_step_def)

lemma sample_running_simps [simp]:
  "ds_sandboxes sample_running = [(slot_key, ())]" "ds_worker sample_running = slot_in WorkerRunning 3"
  "ds_assignments sample_running = sample_ledger (Suc (Suc 0)) AsActive" "ds_active sample_running = {}"
  by (simp_all add: sample_running_def)

theorem one_sandbox_per_worker_witness:
  "run (det (daemon_step (sample_backend True))) sample_start [(sample_create, sample_context)] sample_running \<and>
   bt_contains (ds_sandboxes sample_running) slot_key \<and> sl_assignment (ws_slot (ds_worker sample_running)) = Some slot_key"
proof -
  have c: "bt_contains (ds_sandboxes sample_running) slot_key" by (simp add: bt_contains_def bt_get_def)
  from one_sandbox_per_worker [OF sample_start_simps(2) sample_daemon_run _ c c, of "[]"] sample_daemon_run c show ?thesis by simp
qed

lemma mark_failed_errs:
  "\<exists>e' d'. (case mark_failed be key epoch e d of (r, d'') \<Rightarrow> (r, release k d'')) = (Done (Err e'), d')"
  by (auto simp: mark_failed_def action_eval quarantine_after_failure_def split: prod.splits sum.splits)

lemma sample_start_fails:
  "\<exists>e d'. handle (sample_backend False) sample_create sample_context sample_start = (Done (Err e), d')"
  by (simp add: handle_def sample_create_def create_def action_eval sample_key_of validate_timeout_def
      count_request_def bump_def refuse_existing_def bt_contains_def bt_get_def Let_def
      with_reservation_def acquire_def lease_def slot_lease_sample sample_began sample_admitted mark_failed_errs)


theorem started_sandbox_is_established_witness:
  "handle (sample_backend True) sample_create sample_context sample_start = (Done (Ok (Value ''up'')), sample_running) \<and>
   (\<exists>key. key_of sample_context ''sandbox'' = Ok key \<and> bt_contains (ds_sandboxes sample_running) key \<and>
     sl_assignment (ws_slot (ds_worker sample_running)) = Some key)"
proof -
  have "sandbox_started sample_create = Some ''sandbox''" by (simp add: sample_create_def)
  from started_sandbox_is_established [OF sample_maps_ok this sample_created] sample_created show ?thesis by blast
qed

lemma sample_stopped:
  "\<exists>d'. handle (sample_backend True) (OpStop ''sandbox'') sample_context sample_running = (Done (Ok (Value ''stopped'')), d')"
proof -
  have d: "begin_draining slot_key (slot_in WorkerRunning 3) = (Ok (), slot_in Draining 4)"
    "begin_cleaning slot_key (slot_in Draining 4) = (Ok (), slot_in Cleaning 5)"
    by (simp_all add: begin_draining_def begin_cleaning_def slot_transition_def require_assignment_def set_state_def
        checked_add_def slot_in_def)
  obtain w where w: "recycle_clean no_faults 7 slot_key (slot_in Cleaning 5) = (Ok (), w)"
    by (simp add: recycle_clean_def require_assignment_def persist_terminal_def write_marker_def slot_in_def fresh_slot_def)
  have c: "require_current slot_key r (sample_ledger n AsActive) = Ok 1" if "r = None \<or> r = Some 1" for r n
    using that by (auto simp: require_current_def sample_ledger_def bt_get_def)
  show ?thesis
    by (simp add: handle_dispatch stop_def action_eval sample_key_of current_epoch_def c find_instance_def bt_get_def
        d on_instance_def insert_sandbox_def sample_marked remove_sandbox_def dropping_def complete_worker_cleanup_def w
        scoped_value_def)
qed

theorem ended_sandbox_is_over_witness:
  "\<exists>d'. handle (sample_backend True) (OpStop ''sandbox'') sample_context sample_running = (Done (Ok (Value ''stopped'')), d') \<and>
     ds_shutdown d' \<and> ws_marker (ds_worker d') \<noteq> None"
proof -
  obtain d' where h: "handle (sample_backend True) (OpStop ''sandbox'') sample_context sample_running = (Done (Ok (Value ''stopped'')), d')"
    using sample_stopped by blast
  have ok: "maps_ok sample_running"
    by (simp add: maps_ok_def ledger_keyed_def sample_running_def sample_start_def sample_daemon_def sample_ledger_def bt_wf_def
        bt_get_def)
  from ended_sandbox_is_over [OF ok h, of "''sandbox''" AsStopped None] h show ?thesis by auto
qed

text \<open>
  A restoration that names epoch zero as the fenced source ends in an error after the lease and
  the ledger's record, and nothing undoes them: the worker stays leased, in service, and the
  record stays in flight.
\<close>
lemma restore_zero_fence_wedges:
  "\<exists>e d'. handle (sample_backend True) (OpRestore sample_lock ''sandbox'' ''snap'' 1000 (Some 0)) sample_context sample_start =
       (Done (Err e), d') \<and> \<not> ds_shutdown d' \<and> ds_worker d' = slot_in Leased 2 \<and>
     (\<exists>r. bt_get (al_entries (ds_assignments d')) slot_key = Some r \<and> ar_state r = AsRestoring) \<and>
     (\<forall>now k. \<exists>m. slot_lease now k (ds_worker d') = (Err m, ds_worker d'))"
proof -
  have b: "\<exists>l r. settle (\<lambda>_. Ok ()) (begin_restore (\<lambda>_. Ok ''{}'') slot_key None ''snap'' (ds_assignments sample_start)) = (Ok 1, l) \<and>
      bt_get (al_entries l) slot_key = Some r \<and> ar_state r = AsRestoring"
    by (simp add: begin_restore_def sample_start_def sample_daemon_def ledger_eval)
  have s: "parse_snapshot_id ''snap'' = Ok ''snap''"
    by (simp add: parse_snapshot_id_def identifier_ok_def identifier_byte_def ascii_defs)
  have l: "\<exists>m. slot_lease now k (slot_in Leased 2) = (Err m, slot_in Leased 2)" for now k
    by (simp add: slot_lease_def slot_in_def)
  from b obtain l r where "settle (\<lambda>_. Ok ()) (begin_restore (\<lambda>_. Ok ''{}'') slot_key None ''snap'' (ds_assignments sample_start)) = (Ok 1, l)"
    "bt_get (al_entries l) slot_key = Some r" "ar_state r = AsRestoring" by blast
  with l show ?thesis
    by (simp add: handle_def restore_def action_eval sample_key_of validate_timeout_def s
      count_request_def bump_def refuse_existing_def bt_contains_def bt_get_def [of "[]"] Let_def
      with_reservation_def acquire_def lease_def slot_lease_sample sample_admitted restore_target_of_def epoch_new_def release_def)
qed

end
