(* ===== verification/Connection.thy ===== *)
theory Connection
  imports Daemon_Lifecycle
begin

text \<open>
  \<^verbatim>\<open>bins/sandboxd/src/server/connection.rs\<close>, \<^verbatim>\<open>audit.rs\<close> and \<^verbatim>\<open>protocol/transport.rs\<close>: one
  connection from its first byte to its response. It composes the framing, the authorization
  of the peer and of the request, the handlers and the audit log.
\<close>

subsection \<open>Framing\<close>

definition MAX_MESSAGE_BYTES :: nat where "MAX_MESSAGE_BYTES = 4 * 1024 * 1024"

text \<open>\<open>BufRead::read_until\<close> on the bytes that arrive before the end of the stream.\<close>

fun read_until :: "char \<Rightarrow> string \<Rightarrow> string" where
  "read_until delimiter [] = []"
| "read_until delimiter (b # bytes) = (if b = delimiter then [b] else b # read_until delimiter bytes)"

text \<open>
  The peer has sent \<open>received\<close>; then its stream ended, or reading failed with \<open>fault\<close>. A failure
  matters only when neither the delimiter nor the limit was reached before it.
\<close>

definition read_message ::
  "(string \<Rightarrow> ('a, string) result) \<Rightarrow> string \<Rightarrow> string option \<Rightarrow> ('a, sandbox_error) result" where
  "read_message from_json received fault =
     (let bytes = read_until newline (take (MAX_MESSAGE_BYTES + 1) received);
          complete = length received > MAX_MESSAGE_BYTES \<or> newline \<in> set received
      in if fault \<noteq> None \<and> \<not> complete
         then Err (Runtime (''read protocol message: '' @ the fault))
         else if bytes = [] \<or> length bytes > MAX_MESSAGE_BYTES \<or> last bytes \<noteq> newline
         then Err (Runtime ''protocol message is empty, oversized, or unterminated'')
         else map_err (\<lambda>e. Runtime (''decode protocol message: '' @ e)) (from_json bytes))"

text \<open>With a fault \<open>(n, e)\<close> the stream takes \<open>n\<close> bytes and fails. The second result is what was sent.\<close>

definition write_message ::
  "('a \<Rightarrow> (string, string) result) \<Rightarrow> (nat \<times> string) option \<Rightarrow> 'a \<Rightarrow> (unit, sandbox_error) result \<times> string" where
  "write_message to_json fault message =
     (case map_err (\<lambda>e. Runtime (''encode protocol message: '' @ e)) (to_json message) of
        Inl e \<Rightarrow> (Err e, [])
      | Inr bytes \<Rightarrow>
          if length bytes \<ge> MAX_MESSAGE_BYTES then (Err (Runtime ''encoded protocol message exceeds limit''), [])
          else (case fault of
                  None \<Rightarrow> (Ok (), bytes @ [newline])
                | Some (n, e) \<Rightarrow>
                    if length bytes < n then (Ok (), bytes @ [newline])
                    else (Err (Runtime (''write protocol message: '' @ e)), take n (bytes @ [newline]))))"

subsection \<open>The audit log\<close>

datatype audit_outcome = AuditRejected | AuditSucceeded | AuditFailed

record audit_record =
  ad_timestamp_unix_millis :: u64
  ad_request_id :: string
  ad_endpoint :: string
  ad_peer_uid :: u32
  ad_tenant_id :: "string option"
  ad_workspace_id :: "string option"
  ad_subject_id :: "string option"
  ad_operation :: "work_order_operation option"
  ad_outcome :: audit_outcome

record audit_log =
  au_journal :: durable_journal

fun endpoint_name :: "connection_endpoint \<Rightarrow> string" where
  "endpoint_name OperatorEndpoint = ''operator''"
| "endpoint_name (Workload _) = ''workload''"

definition audit_entry ::
  "u64 \<Rightarrow> string \<Rightarrow> connection_endpoint \<Rightarrow> u32 \<Rightarrow> access_context option \<Rightarrow> work_order_operation option \<Rightarrow> audit_outcome \<Rightarrow>
     audit_record" where
  "audit_entry timestamp request_id endpoint peer_uid context operation outcome =
     \<lparr>ad_timestamp_unix_millis = timestamp, ad_request_id = request_id, ad_endpoint = endpoint_name endpoint,
      ad_peer_uid = peer_uid, ad_tenant_id = map_option (scope_tenant_id \<circ> context_scope) context,
      ad_workspace_id = map_option (scope_workspace_id \<circ> context_scope) context,
      ad_subject_id = map_option context_subject_id context, ad_operation = operation, ad_outcome = outcome\<rparr>"

definition audit_record_entry ::
  "(audit_record \<Rightarrow> (string, string) result) \<Rightarrow> (nat \<Rightarrow> (unit, sandbox_error) result) \<Rightarrow> (u64, sandbox_error) result \<Rightarrow>
     (u64 \<Rightarrow> audit_record) \<Rightarrow> audit_log \<Rightarrow> (unit, sandbox_error) result \<times> audit_log" where
  "audit_record_entry to_json wait clock entry log =
     (case and_then clock (\<lambda>timestamp.
             map_err (\<lambda>e. Runtime (''encode audit record: '' @ e)) (to_json (entry timestamp))) of
        Inl e \<Rightarrow> (Err e, log)
      | Inr bytes \<Rightarrow>
          (case enqueue_append (bytes @ [newline]) (au_journal log) of
             (r, j) \<Rightarrow> (and_then r wait, log\<lparr>au_journal := j\<rparr>)))"

subsection \<open>Serving a connection\<close>

text \<open>The encoders of the messages and the journals' answers to the replay cache and the audit log.\<close>

record 'v wire =
  wi_request_json :: "string \<Rightarrow> (request, string) result"
  wi_response_json :: "'v reply workload_response \<Rightarrow> (string, string) result"
  wi_audit_json :: "audit_record \<Rightarrow> (string, string) result"
  wi_replay_wait :: "nat \<Rightarrow> (unit, sandbox_error) result"
  wi_audit_wait :: "nat \<Rightarrow> (unit, sandbox_error) result"

record connection =
  cn_configured :: "(unit, string) result"
  cn_peer_uid :: "(u32, sandbox_error) result"
  cn_received :: string
  cn_read_fault :: "string option"
  cn_write_fault :: "(nat \<times> string) option"

record ('i, 'x) server =
  sv_daemon :: "('i, 'x) daemon_state"
  sv_audit :: audit_log

definition failure_response :: "string \<Rightarrow> sandbox_error \<Rightarrow> 'v workload_response" where
  "failure_response request_id error = \<lparr>rs_schema_version = PROTOCOL_VERSION, rs_request_id = request_id, rs_ok = False,
     rs_result = None, rs_error = Some (sandbox_error_display error)\<rparr>"

definition invalid_message :: "sandbox_error \<Rightarrow> 'v workload_response" where
  "invalid_message = failure_response ''invalid-message''"

definition success_response :: "string \<Rightarrow> 'v \<Rightarrow> 'v workload_response" where
  "success_response request_id result = \<lparr>rs_schema_version = PROTOCOL_VERSION, rs_request_id = request_id, rs_ok = True,
     rs_result = Some result, rs_error = None\<rparr>"

text \<open>A failure of the audit log is printed and otherwise ignored.\<close>

definition record_audit ::
  "('i, 'v, 'x) backend \<Rightarrow> 'v wire \<Rightarrow> string \<Rightarrow> connection_endpoint \<Rightarrow> u32 \<Rightarrow> access_context option \<Rightarrow>
     work_order_operation option \<Rightarrow> audit_outcome \<Rightarrow> ('i, 'x) server \<Rightarrow> ('i, 'x) server" where
  "record_audit be wi request_id endpoint peer_uid context operation outcome sv =
     sv\<lparr>sv_audit := snd (audit_record_entry (wi_audit_json wi) (wi_audit_wait wi) (be_unix_millis be (ds_world (sv_daemon sv)))
       (\<lambda>timestamp. audit_entry timestamp request_id endpoint peer_uid context operation outcome) (sv_audit sv))\<rparr>"

definition on_daemon :: "(('i, 'x) daemon_state \<Rightarrow> ('i, 'x) daemon_state) \<Rightarrow> ('i, 'x) server \<Rightarrow> ('i, 'x) server" where
  "on_daemon f sv = sv\<lparr>sv_daemon := f (sv_daemon sv)\<rparr>"

definition reject_connection :: "('i, 'x) server \<Rightarrow> ('i, 'x) server" where
  "reject_connection = on_daemon (bump (\<lambda>c. c\<lparr>ct_rejected_connections := ct_rejected_connections c + 1\<rparr>))"

definition reject_request :: "('i, 'x) server \<Rightarrow> ('i, 'x) server" where
  "reject_request = on_daemon (bump (\<lambda>c. c\<lparr>ct_rejected_requests := ct_rejected_requests c + 1\<rparr>))"

definition respond ::
  "'v wire \<Rightarrow> connection \<Rightarrow> 'v reply workload_response \<Rightarrow> ('i, 'x) server \<Rightarrow>
     (unit, sandbox_error) result exec \<times> string \<times> ('i, 'x) server" where
  "respond wi cn response sv =
     (case write_message (wi_response_json wi) (cn_write_fault cn) response of (r, sent) \<Rightarrow> (Done r, sent, sv))"

text \<open>The request once it was read: its authorization, its handler and its response.\<close>

definition serve_request ::
  "('i, 'v, 'x) backend \<Rightarrow> 'v wire \<Rightarrow> connection_endpoint \<Rightarrow> connection \<Rightarrow> u32 \<Rightarrow> request \<Rightarrow> ('i, 'x) server \<Rightarrow>
     (unit, sandbox_error) result exec \<times> string \<times> ('i, 'x) server" where
  "serve_request be wi endpoint cn peer_uid rq sv =
     (let request_id = rq_request_id rq;
          operation = work_order_operation (rq_operation rq);
          d = sv_daemon sv in
      case authorize_request (be_verifier be) (wi_replay_wait wi) (be_unix_millis be (ds_world d)) rq endpoint (ds_work_orders d) of
        (Panic, v) \<Rightarrow> (Panic, [], on_daemon (\<lambda>d. d\<lparr>ds_work_orders := v\<rparr>) sv)
      | (Done (Inl e), v) \<Rightarrow>
          respond wi cn (failure_response request_id e)
            (record_audit be wi request_id endpoint peer_uid None operation AuditRejected
              (reject_request (on_daemon (\<lambda>d. d\<lparr>ds_work_orders := v\<rparr>) sv)))
      | (Done (Inr context), v) \<Rightarrow>
          (case handle be (rq_operation rq) context (d\<lparr>ds_work_orders := v\<rparr>) of
             (Panic, d') \<Rightarrow> (Panic, [], sv\<lparr>sv_daemon := d'\<rparr>)
           | (Done (Inr result), d') \<Rightarrow>
               respond wi cn (success_response request_id result)
                 (record_audit be wi request_id endpoint peer_uid (Some context) operation AuditSucceeded (sv\<lparr>sv_daemon := d'\<rparr>))
           | (Done (Inl e), d') \<Rightarrow>
               respond wi cn (failure_response request_id e)
                 (record_audit be wi request_id endpoint peer_uid (Some context) operation AuditFailed (sv\<lparr>sv_daemon := d'\<rparr>))))"

definition serve ::
  "('i, 'v, 'x) backend \<Rightarrow> 'v wire \<Rightarrow> connection_endpoint \<Rightarrow> connection \<Rightarrow> ('i, 'x) server \<Rightarrow>
     (unit, sandbox_error) result exec \<times> string \<times> ('i, 'x) server" where
  "serve be wi endpoint cn sv =
     (case and_then (map_err (\<lambda>e. Runtime (''configure control timeout: '' @ e)) (cn_configured cn)) (\<lambda>_. cn_peer_uid cn) of
        Inl e \<Rightarrow> (Done (Err e), [], sv)
      | Inr peer_uid \<Rightarrow>
          (case authorize_peer peer_uid endpoint of
             Inl e \<Rightarrow>
               (Done (Err e), [],
                record_audit be wi ''peer-rejected'' endpoint peer_uid None None AuditRejected (reject_connection sv))
           | Inr _ \<Rightarrow>
               (case read_message (wi_request_json wi) (cn_received cn) (cn_read_fault cn) of
                  Inl e \<Rightarrow>
                    respond wi cn (invalid_message e)
                      (record_audit be wi ''invalid-message'' endpoint peer_uid None None AuditRejected (reject_request sv))
                | Inr rq \<Rightarrow> serve_request be wi endpoint cn peer_uid rq sv)))"

subsection \<open>Properties\<close>

lemma read_until_stops: "newline \<notin> set bytes \<Longrightarrow> read_until newline (bytes @ newline # rest) = bytes @ [newline]"
  by (induction bytes) auto

lemma read_written_message:
  assumes "write_message to_json None m = (Ok (), sent)"
    and "\<forall>b. to_json m = Ok b \<longrightarrow> newline \<notin> set b \<and> from_json (b @ [newline]) = Ok m"
  shows "read_message from_json (sent @ rest) fault = Ok m"
proof -
  obtain b where b: "to_json m = Ok b" "length b < MAX_MESSAGE_BYTES" "sent = b @ [newline]"
    using assms(1) by (auto simp: write_message_def not_le split: sum.splits if_splits)
  have "take (MAX_MESSAGE_BYTES + 1) (sent @ rest) = b @ newline # take (MAX_MESSAGE_BYTES - length b) rest"
    using b(2,3) by (simp add: Suc_diff_le)
  then have "read_until newline (take (MAX_MESSAGE_BYTES + 1) (sent @ rest)) = b @ [newline]"
    using assms(2) b(1) by (simp add: read_until_stops)
  with assms(2) b show ?thesis by (simp add: read_message_def)
qed

lemma respond_parts:
  "respond wi cn response sv = (r, sent, sv') \<Longrightarrow>
     sv' = sv \<and> sent = snd (write_message (wi_response_json wi) (cn_write_fault cn) response)"
  by (auto simp: respond_def split: prod.splits)

lemma record_audit_daemon [simp]: "sv_daemon (record_audit be wi i e p c op out sv) = sv_daemon sv"
  by (simp add: record_audit_def)

text \<open>Nothing differs but the daemon's counters and the state of its verifier.\<close>

definition only_counted :: "('i, 'x) daemon_state \<Rightarrow> ('i, 'x) daemon_state \<Rightarrow> bool" where
  "only_counted d d' \<longleftrightarrow> d'\<lparr>ds_counters := ds_counters d, ds_work_orders := ds_work_orders d\<rparr> = d"

lemma only_counted_simps [simp]:
  "only_counted (sv_daemon sv) (sv_daemon (reject_connection sv))" "only_counted (sv_daemon sv) (sv_daemon (reject_request sv))"
  "only_counted (sv_daemon sv) (sv_daemon (reject_request (on_daemon (\<lambda>d. d\<lparr>ds_work_orders := v\<rparr>) sv)))"
  "only_counted (sv_daemon sv) (sv_daemon (on_daemon (\<lambda>d. d\<lparr>ds_work_orders := v\<rparr>) sv))" "only_counted d d"
  by (simp_all add: only_counted_def reject_connection_def reject_request_def on_daemon_def bump_def)

text \<open>The ends of a connection: refused before its request was authorized, or handled in a context.\<close>

lemma serve_cases:
  assumes "serve be wi endpoint cn sv = (r, sent, sv')"
  obtains (refused) "only_counted (sv_daemon sv) (sv_daemon sv')"
  | (handled) peer rq ctx v q d' where "cn_peer_uid cn = Ok peer" "authorize_peer peer endpoint = Ok ()"
      "read_message (wi_request_json wi) (cn_received cn) (cn_read_fault cn) = Ok rq"
      "authorize_request (be_verifier be) (wi_replay_wait wi) (be_unix_millis be (ds_world (sv_daemon sv))) rq endpoint
         (ds_work_orders (sv_daemon sv)) = (Done (Ok ctx), v)"
      "handle be (rq_operation rq) ctx ((sv_daemon sv)\<lparr>ds_work_orders := v\<rparr>) = (q, d')" "sv_daemon sv' = d'"
proof (cases "and_then (map_err (\<lambda>e. Runtime (''configure control timeout: '' @ e)) (cn_configured cn)) (\<lambda>_. cn_peer_uid cn)")
  case (Inl e)
  with assms show ?thesis by (intro refused) (simp add: serve_def)
next
  case (Inr peer)
  show ?thesis
  proof (cases "authorize_peer peer endpoint")
    case (Inl e)
    with Inr assms show ?thesis by (intro refused) (auto simp: serve_def)
  next
    case peer: (Inr u)
    show ?thesis
    proof (cases "read_message (wi_request_json wi) (cn_received cn) (cn_read_fault cn)")
      case (Inl e)
      with Inr peer assms show ?thesis by (intro refused) (auto simp: serve_def dest!: respond_parts)
    next
      case rq: (Inr rq)
      have s: "serve_request be wi endpoint cn peer rq sv = (r, sent, sv')" using assms Inr peer rq by (simp add: serve_def)
      obtain a v where a: "authorize_request (be_verifier be) (wi_replay_wait wi) (be_unix_millis be (ds_world (sv_daemon sv))) rq
         endpoint (ds_work_orders (sv_daemon sv)) = (a, v)" by fastforce
      consider "a = Panic" | e where "a = Done (Err e)" | ctx where "a = Done (Ok ctx)"
        by (metis exec.exhaust sum.exhaust)
      then show ?thesis
      proof cases
        case 3
        obtain q d' where h: "handle be (rq_operation rq) ctx ((sv_daemon sv)\<lparr>ds_work_orders := v\<rparr>) = (q, d')" by fastforce
        have "sv_daemon sv' = d'"
          using s unfolding serve_request_def Let_def a 3
          by (auto simp: h split: exec.splits sum.splits dest!: respond_parts)
        moreover have "cn_peer_uid cn = Ok peer" using Inr by auto
        ultimately show ?thesis using handled peer rq a 3 h by simp
      qed (use s a in \<open>auto simp: serve_request_def Let_def intro!: refused dest!: respond_parts\<close>)
    qed
  qed
qed

text \<open>
  C1: nothing a broker sends reaches a sandbox without a grant. Whatever a connection of the
  workload endpoint does, either nothing changed but counters and the verifier's replay cache,
  or the peer was the configured broker, its message carries a work order that grants this very
  request under the daemon's key at that time, and everything of every tenant scope but the
  order's own is as it was.
\<close>
theorem served_workload_is_authorized:
  assumes "maps_ok (sv_daemon sv)" and "serve be wi (Workload uid) cn sv = (r, sent, sv')"
  shows "(sv_daemon sv')\<lparr>ds_counters := ds_counters (sv_daemon sv), ds_work_orders := ds_work_orders (sv_daemon sv)\<rparr> =
      sv_daemon sv \<or>
    (\<exists>rq w v now. cn_peer_uid cn = Ok uid \<and>
       read_message (wi_request_json wi) (cn_received cn) (cn_read_fault cn) = Ok rq \<and>
       rq_authorization rq = Some (AuthWorkOrder w) \<and> ds_work_orders (sv_daemon sv) = Some v \<and>
       be_unix_millis be (ds_world (sv_daemon sv)) = Ok now \<and> grants (be_verifier be) (wv_key v) rq w (unat now) \<and>
       (\<forall>k. key_scope k \<noteq> claims_scope (wo_claims w) \<longrightarrow>
          bt_get (al_entries (ds_assignments (sv_daemon sv'))) k = bt_get (al_entries (ds_assignments (sv_daemon sv))) k \<and>
          bt_get (ds_sandboxes (sv_daemon sv')) k = bt_get (ds_sandboxes (sv_daemon sv)) k \<and>
          (k \<in> ds_active (sv_daemon sv') \<longleftrightarrow> k \<in> ds_active (sv_daemon sv))) \<and>
       (\<forall>s. s \<noteq> claims_scope (wo_claims w) \<longrightarrow>
          bt_get (ds_tenant_counters (sv_daemon sv')) s = bt_get (ds_tenant_counters (sv_daemon sv)) s))"
  using assms(2)
proof (cases rule: serve_cases)
  case refused
  then show ?thesis by (simp add: only_counted_def)
next
  case (handled peer rq ctx v q d')
  have uid: "peer = uid" using handled(2) by (simp add: authorize_peer_def split: if_splits)
  from workload_access_is_granted [OF handled(4)] obtain w v0 now where
    g: "rq_authorization rq = Some (AuthWorkOrder w)" "ds_work_orders (sv_daemon sv) = Some v0"
      "be_unix_millis be (ds_world (sv_daemon sv)) = Ok now" "grants (be_verifier be) (wv_key v0) rq w (unat now)"
    and scope: "context_scope ctx = claims_scope (wo_claims w)" by auto
  have "others_kept (context_scope ctx) ((sv_daemon sv)\<lparr>ds_work_orders := v\<rparr>) d'"
    using iso.handle_keeps [OF refl, where d = "(sv_daemon sv)\<lparr>ds_work_orders := v\<rparr>"] handled(5) by (metis snd_conv)
  then show ?thesis
    using assms(1) handled(1,3,6) g scope uid unfolding others_kept_def maps_ok_def by auto
qed

text \<open>What one record adds to a log in working order.\<close>

definition audit_ready :: "('i, 'v, 'x) backend \<Rightarrow> 'v wire \<Rightarrow> ('i, 'x) server \<Rightarrow> bool" where
  "audit_ready be wi sv \<longleftrightarrow> (\<forall>x. \<exists>t. be_unix_millis be x = Ok t) \<and>
     (\<forall>entry. \<exists>b. wi_audit_json wi entry = Ok b \<and> length b < MAXIMUM_RECORD_BYTES) \<and>
     sender_open (au_journal (sv_audit sv)) \<and> writer_alive (au_journal (sv_audit sv))"

definition audited :: "'v wire \<Rightarrow> audit_record \<Rightarrow> ('i, 'x) server \<Rightarrow> ('i, 'x) server \<Rightarrow> bool" where
  "audited wi entry sv sv' \<longleftrightarrow> (\<exists>b. wi_audit_json wi entry = Ok b \<and>
     sent_commands (au_journal (sv_audit sv')) = sent_commands (au_journal (sv_audit sv)) @
       [Append (b @ [newline]) (next_completion (au_journal (sv_audit sv)))])"

lemma record_audit_audits:
  assumes "audit_ready be wi sv0" and "sv_audit sv = sv_audit sv0"
  shows "\<exists>t. audited wi (audit_entry t i e p c op out) sv0 (record_audit be wi i e p c op out sv)"
proof -
  obtain t where t: "be_unix_millis be (ds_world (sv_daemon sv)) = Ok t" using assms(1) unfolding audit_ready_def by blast
  obtain b where b: "wi_audit_json wi (audit_entry t i e p c op out) = Ok b" "length b < MAXIMUM_RECORD_BYTES"
    using assms(1) unfolding audit_ready_def by blast
  have "audited wi (audit_entry t i e p c op out) sv0 (record_audit be wi i e p c op out sv)"
    using assms b by (simp add: audited_def audit_ready_def record_audit_def audit_record_entry_def t enqueue_append_def
        journal_enqueue_def)
  then show ?thesis ..
qed

lemma reject_audit [simp]:
  "sv_audit (reject_connection sv) = sv_audit sv" "sv_audit (reject_request sv) = sv_audit sv" "sv_audit (on_daemon f sv) = sv_audit sv"
  by (simp_all add: reject_connection_def reject_request_def on_daemon_def)

definition ends ::
  "('i, 'v, 'x) backend \<Rightarrow> 'v wire \<Rightarrow> connection_endpoint \<Rightarrow> connection \<Rightarrow> u32 \<Rightarrow> ('i, 'x) server \<Rightarrow> string \<Rightarrow> ('i, 'x) server \<Rightarrow> bool" where
  "ends be wi endpoint cn peer sv sent sv' \<longleftrightarrow>
     (\<exists>i c op out sv0. sv' = record_audit be wi i endpoint peer c op out sv0 \<and> sv_audit sv0 = sv_audit sv \<and>
        (c = None \<longleftrightarrow> out = AuditRejected) \<and> (out = AuditRejected \<longrightarrow> only_counted (sv_daemon sv) (sv_daemon sv0)) \<and>
        (out = AuditSucceeded \<longrightarrow>
           (\<exists>result. sent = snd (write_message (wi_response_json wi) (cn_write_fault cn) (success_response i result)))))"

lemma ends_rejected:
  assumes "sv_audit sv0 = sv_audit sv" and "only_counted (sv_daemon sv) (sv_daemon sv0)"
  shows "ends be wi endpoint cn peer sv sent (record_audit be wi i endpoint peer None op AuditRejected sv0)"
  using assms unfolding ends_def by blast

lemma ends_failed:
  "sv_audit sv0 = sv_audit sv \<Longrightarrow> ends be wi endpoint cn peer sv sent (record_audit be wi i endpoint peer (Some c) op AuditFailed sv0)"
  unfolding ends_def by blast

lemma ends_succeeded:
  assumes "sv_audit sv0 = sv_audit sv"
  shows "ends be wi endpoint cn peer sv
    (snd (write_message (wi_response_json wi) (cn_write_fault cn) (success_response i result)))
    (record_audit be wi i endpoint peer (Some c) op AuditSucceeded sv0)"
  using assms unfolding ends_def by blast

lemma serve_ends:
  assumes "cn_configured cn = Ok ()" and "cn_peer_uid cn = Ok peer" and "serve be wi endpoint cn sv = (Done r, sent, sv')"
  shows "ends be wi endpoint cn peer sv sent sv'"
proof (cases "authorize_peer peer endpoint")
  case (Inl e)
  with assms show ?thesis by (auto simp: serve_def intro!: ends_rejected)
next
  case peer: (Inr u)
  show ?thesis
  proof (cases "read_message (wi_request_json wi) (cn_received cn) (cn_read_fault cn)")
    case (Inl e)
    with peer assms show ?thesis by (auto simp: serve_def dest!: respond_parts intro!: ends_rejected)
  next
    case (Inr rq)
    with peer assms have "serve_request be wi endpoint cn peer rq sv = (Done r, sent, sv')" by (simp add: serve_def)
    then show ?thesis
      by (auto simp: serve_request_def Let_def split: prod.splits exec.splits sum.splits dest!: respond_parts
          intro!: ends_rejected ends_failed ends_succeeded)
  qed
qed


subsection \<open>A concrete connection\<close>

definition ping_backend :: "(unit, string, unit) backend" where
  "ping_backend = (sample_backend True)\<lparr>be_verifier := ping_codec\<rparr>"

definition ping_wire :: "string wire" where
  "ping_wire = \<lparr>wi_request_json = (\<lambda>_. Ok ping_request), wi_response_json = (\<lambda>_. Ok ''{}''), wi_audit_json = (\<lambda>_. Ok ''{}''),
     wi_replay_wait = (\<lambda>_. Ok ()), wi_audit_wait = (\<lambda>_. Ok ())\<rparr>"

definition ping_connection :: connection where
  "ping_connection = \<lparr>cn_configured = Ok (), cn_peer_uid = Ok 7, cn_received = ''{}'' @ [newline], cn_read_fault = None,
     cn_write_fault = None\<rparr>"

definition ping_server :: "(unit, unit) server" where
  "ping_server = \<lparr>sv_daemon = sample_start\<lparr>ds_work_orders := Some ping_verifier\<rparr>,
     sv_audit = \<lparr>au_journal = \<lparr>sender_open = True, writer_alive = True, sent_commands = [], next_completion = 0\<rparr>\<rparr>\<rparr>"

lemma ping_authorized:
  "authorize_request ping_codec wait (Ok 1500) ping_request (Workload 7) (Some ping_verifier) =
     (Done (Ok (Tenant ping_tenant)), Some ping_verified)"
  using ping_verify
  by (simp add: authorize_request_def authorize_workload_def ping_request_def PROTOCOL_VERSION_def
      valid_request_id_def ascii_defs)

lemma ping_served: "\<exists>sv'. serve ping_backend ping_wire (Workload 7) ping_connection ping_server = (Done (Ok ()), ''{}'' @ [newline], sv')"
proof -
  have "rq_operation ping_request = OpPing" by (simp add: ping_request_def)
  then show ?thesis
    by (simp add: serve_def serve_request_def ping_backend_def ping_wire_def ping_connection_def ping_server_def
        authorize_peer_def read_message_def MAX_MESSAGE_BYTES_def ping_authorized Let_def handle_dispatch act_get_def
        respond_def write_message_def newline_def)
qed

theorem served_workload_is_authorized_witness:
  "\<exists>sv'. serve ping_backend ping_wire (Workload 7) ping_connection ping_server = (Done (Ok ()), ''{}'' @ [newline], sv') \<and>
     bt_get (al_entries (ds_assignments (sv_daemon sv'))) (ar_key other_record) =
       bt_get (al_entries (ds_assignments sample_start)) (ar_key other_record)"
proof -
  obtain sv' where s: "serve ping_backend ping_wire (Workload 7) ping_connection ping_server = (Done (Ok ()), ''{}'' @ [newline], sv')"
    using ping_served by blast
  have ok: "maps_ok (sv_daemon ping_server)" using sample_maps_ok by (simp add: ping_server_def maps_ok_def)
  have rq: "read_message (wi_request_json ping_wire) (cn_received ping_connection) (cn_read_fault ping_connection) = Ok ping_request"
    by (simp add: read_message_def ping_wire_def ping_connection_def MAX_MESSAGE_BYTES_def newline_def)
  have k: "key_scope (ar_key other_record) \<noteq> claims_scope (wo_claims ping_order)"
    by (simp add: other_record_def ping_order_def claims_scope_def ping_claims_def)
  have w: "rq_authorization ping_request = Some (AuthWorkOrder w) \<Longrightarrow> w = ping_order" for w by (simp add: ping_request_def)
  from served_workload_is_authorized [OF ok s] have
    "bt_get (al_entries (ds_assignments (sv_daemon sv'))) (ar_key other_record) =
       bt_get (al_entries (ds_assignments (sv_daemon ping_server))) (ar_key other_record)"
  proof (elim disjE exE conjE)
    assume "(sv_daemon sv')\<lparr>ds_counters := ds_counters (sv_daemon ping_server), ds_work_orders := ds_work_orders (sv_daemon ping_server)\<rparr> =
      sv_daemon ping_server"
    then have "ds_assignments (sv_daemon ping_server) = ds_assignments (sv_daemon sv')"
      by (metis daemon_state.ext_inject daemon_state.surjective daemon_state.update_convs(5,9))
    then show ?thesis by simp
  qed (use rq k w in auto)
  with s show ?thesis by (auto simp: ping_server_def)
qed


end
