(* ===== verification/Spec2Isabelle.thy ===== *)
theory Spec2Isabelle
  imports Lifecycle Lease_Book Fair_Queue_Service Worker_Pool_Correct Specification Snapshot Replay Assignment_Ledger_Correct Attestation
    Compiler_Correct Network_Policy Connection
begin

text \<open>
  A verification development for sandboxd, a control plane that runs untrusted workloads in
  gVisor sandboxes on leased, single-use workers.

  \<^bold>\<open>The program.\<close> A client compiles a Compose file into a content-addressed topology lock. A
  gateway places the sandbox on a worker of a pool: it takes a lease with an epoch, signs a work
  order that names the request, and sends both to the broker of the worker. The daemon there
  reads the message, checks the peer, verifies the work order and consumes its nonce, admits the
  topology, leases its one worker slot, enters the assignment in a journalled ledger and starts
  the sandbox. A sandbox can be stopped, or snapshotted and moved: then its ledger entry becomes
  transferable, the worker retires, and only a restoration of that very snapshot in a higher
  epoch continues it elsewhere. A worker whose start failed is quarantined and never reused.

  \<^bold>\<open>Conventions.\<close> \<open>Prelude\<close> and \<open>Rust_Text\<close> fix how Rust is read. A \<open>Result\<close> is a sum (\<open>Ok\<close> is
  \<open>Inr\<close>, \<open>Err\<close> is \<open>Inl\<close>), and code that may panic returns in \<open>exec\<close>. Fixed-width integers are
  words, with the checked, saturating or wrapping operation the source uses; \<open>usize\<close> is \<open>nat\<close>. A
  string is its bytes. Code that mutates returns its result with the new state; the handlers,
  which thread the daemon's state through many calls, are actions \<open>'s \<Rightarrow> result exec \<times> 's\<close>
  composed by \<open>act_match\<close>. A failing system call is a value of a fault function, so every
  statement holds for all combinations of failures. Code outside the repository (JSON, hashes,
  signatures, the clock, the file system) and the parts listed below as not modelled are
  parameters of the definitions that use them, and the records \<open>verifier_codec\<close>, \<open>backend\<close> and
  \<open>wire\<close> collect them for the daemon. What is assumed of a parameter is a hypothesis of the
  theorem that needs it, and a witness instantiates it.

  \<^bold>\<open>Interfaces.\<close> \<open>Ordered_Map\<close> has the sorted association lists that stand for \<open>BTreeMap\<close>, with
  the locale \<open>ordered_map\<close>. \<open>Machines\<close> has runs of transition systems: \<open>invariant_machine\<close> carries
  an invariant to every reachable state (interpreted for the queue, the worker slot and the
  daemon), \<open>epoch_fence\<close> shows that epochs only grow (for the lease book and the ledger).
  \<open>canonical_codec\<close> relates parsing and printing (for guest profiles). \<open>handler_relation\<close> of
  \<open>Daemon_Correct\<close> says once which elementary steps a handler takes in an access context; a
  relation kept by these steps is kept by every handler, and its interpretations give tenant
  isolation and the ownership of the worker.

  \<^bold>\<open>Theories, by source file.\<close>

  \<^item> \<^verbatim>\<open>crates/sandbox-core/src\<close>: \<open>Core_Types\<close> (error.rs, identity.rs, assignment.rs), \<open>Lifecycle\<close>
    (lifecycle.rs), \<open>Lease_Book\<close> and \<open>Fair_Queue\<close> (placement.rs), \<open>Guest_Profile\<close>
    (guest_profile.rs, capability.rs), \<open>Worker_Pool\<close> (worker.rs, work_order.rs, autoscale.rs),
    \<open>Volume\<close> (volume.rs), \<open>Specification\<close> (specification.rs), \<open>Snapshot\<close> (snapshot.rs),
    \<open>Attestation\<close> (attestation.rs).

  \<^item> \<^verbatim>\<open>crates/sandbox-oci/src\<close>: \<open>Topology\<close> and \<open>Network_Policy\<close> (model.rs; the standard library's
    address parser is in \<open>Ip_Addr\<close>), \<open>Compiler\<close> (compiler.rs), and in \<open>Daemon_State\<close> the image
    handles (provider/handle.rs, provider/mod.rs).

  \<^item> \<^verbatim>\<open>crates/sandbox-protocol/src/lib.rs\<close>: \<open>Protocol\<close>.

  \<^item> \<^verbatim>\<open>bins/sandboxd/src\<close>: \<open>Journal\<close> (journal/), \<open>Replay\<close>, \<open>Tenancy\<close> and \<open>Work_Order_Verifier\<close>
    (authorization/), \<open>Assignment_Ledger\<close> (assignment.rs), \<open>Worker_Slot\<close> (worker.rs),
    \<open>Daemon_State\<close> (state.rs, service/reservation.rs, server/limit.rs), \<open>Admission\<close>
    (service/admission.rs), \<open>Daemon\<close> (service/handler.rs, service/metrics.rs), \<open>Connection\<close>
    (server/connection.rs, audit.rs, protocol/transport.rs).

  A theory whose name ends in \<open>_Correct\<close>, \<open>_Service\<close>, \<open>_Log\<close> or \<open>_Lifecycle\<close> holds the properties
  of the theory it extends. State and data are records and datatypes with the source's fields
  and constructors; each operation is one definition, split where the source's function is
  long, with the source's order of checks.

  \<^bold>\<open>What is shown.\<close>

  \<^item> The connection: nothing a broker sends reaches a sandbox without a work order that grants
    exactly that request, and every answered connection leaves one audit record. A work order is
    accepted once, also across restarts, since the replay journal keeps every acknowledged
    nonce.

  \<^item> The daemon: tenants are isolated in every piece of state; one worker runs one sandbox; a
    failed start retires the worker; a successful start, stop or move leaves the map, the ledger
    and the worker slot in agreement; a topology is admitted only where it fits.

  \<^item> Durability: the journal's writer answers every command once and in order, and whatever
    fails, the file read back is the abstract journal after a prefix of the commands that
    includes every acknowledged one. The replay cache and the assignment ledger refine this to
    their own states.

  \<^item> Epochs: a superseded epoch is refused by the lease book and by the ledger after any run, at
    most one result is accepted per epoch, and after a restoration elsewhere the source is
    fenced.

  \<^item> The queue: no operation panics, what is served is the oldest work of its tenant, and a
    tenant with work waits for fewer than \<open>100 * maximum_tenants\<close> dequeues.

  \<^item> Scaling: every decision respects limits, quota, leases and headroom, and under steady demand
    the loop reaches its target.

  \<^item> Topologies: the compiler and the verifier never panic, a compiled lock verifies, a startup
    order is found exactly when there is one, and volume usage is exact.

  \<^item> Network policy: what is permitted is what a rule declares, and the protected addresses are
    exactly the listed blocks.

  \<^item> Attestations, identifiers, guest profiles and project names: round trips, bounds and
    separation.

  \<^bold>\<open>Bounds.\<close> The loops are structural recursions, or recursions with a measure: the rounds of the
  journal's writer are bounded by the commands that wait, \<open>order_loop\<close> of the compiler by the
  services still to be placed, and \<open>dequeue_loop\<close> by credits and tenants. No definition takes
  fuel. An encoded assignment record is assumed to be at most 610 bytes long, so that a full
  ledger fits a replacement of the journal; identifiers of at most 64 bytes and the fixed fields
  give that bound.

  \<^bold>\<open>Deviations of the code.\<close> Lemmas named here show behaviour that a comment, a message or a
  neighbouring branch contradicts: \<open>transition_effect\<close>, \<open>repeated_start_accepted\<close>,
  \<open>respelled_mounts_accepted\<close>, \<open>orphan_volume_object_accepted\<close>, \<open>refused_begin_blocks_sandbox\<close>,
  \<open>protected_gaps\<close>, \<open>repeated_quarantine_leaves_no_marker\<close>, \<open>restore_zero_fence_wedges\<close>.

  \<^bold>\<open>Not modelled.\<close> A handler runs to its end as one action: two handlers of different sandboxes
  may interleave in the program, where each step holds the lock of the part it changes, and what
  interleaves within one part (journal, replay cache, ledger, queue, connection permits) is
  modelled there as sequences of its operations. Poisoned locks are not modelled. The gVisor
  executor, the image, volume and artifact providers and the PostgreSQL placement service work
  through child processes, file systems, object stores and SQL; the daemon uses them as
  parameters. Command lines, sockets, HTTP servers and relays are input and output around the
  parts above. Of the answer to a ping only the worker's status is kept: the rest is a constant
  description of the backend.
\<close>

end
